(* ===== verification/Prelude.thy ===== *)
theory Prelude
  imports Main "HOL-Library.Char_ord" "HOL-Library.List_Lexorder" "HOL-Library.Product_Lexorder"
begin

text \<open>
  What every component shares: the types that stand for the Rust and SQL base types, the
  result and transaction combinators, the list functions that stand for SQL statements over
  a table, and the parts of Rust's \<open>str\<close> API the sources use.

  \<^item> An \<open>Id\<close> (a UUID) is its canonical text, the form the database stores and compares.
  \<^item> An instant is an integer number of nanoseconds; the store compares RFC 3339 texts of
    instants in the years 0 to 9999, whose order is the order of the instants.
  \<^item> A \<open>String\<close> is its list of UTF-8 bytes, so \<open>len()\<close> is \<open>length\<close>.
\<close>

named_theorems res_simps \<open>rewrite rules for results and transactions\<close>
named_theorems sql_simps \<open>rewrite rules for the table statements\<close>

type_synonym id = string
type_synonym time = int

subsection \<open>Results\<close>

datatype domain_error =
    NotFound string
  | Conflict string
  | InvalidState string
  | InvalidInput string
  | Storage string

type_synonym 'a res = "domain_error + 'a"

definition bind_res :: "'e + 'a \<Rightarrow> ('a \<Rightarrow> 'e + 'b) \<Rightarrow> 'e + 'b" where
  "bind_res m f = (case m of Inl e \<Rightarrow> Inl e | Inr x \<Rightarrow> f x)"

definition ok_or :: "'e \<Rightarrow> 'a option \<Rightarrow> 'e + 'a" where
  "ok_or e m = (case m of None \<Rightarrow> Inl e | Some x \<Rightarrow> Inr x)"

definition ensure :: "bool \<Rightarrow> 'e \<Rightarrow> 'e + unit" where
  "ensure b e = (if b then Inr () else Inl e)"

lemma bind_res_simps [simp]:
  "bind_res (Inl e) f = Inl e"
  "bind_res (Inr x) f = f x"
  by (simp_all add: bind_res_def)

lemma bind_res_Inr_iff [res_simps]:
  "bind_res m f = Inr y \<longleftrightarrow> (\<exists>x. m = Inr x \<and> f x = Inr y)"
  by (cases m) simp_all

lemma bind_res_Inl_iff [res_simps]:
  "bind_res m f = Inl e \<longleftrightarrow> m = Inl e \<or> (\<exists>x. m = Inr x \<and> f x = Inl e)"
  by (cases m) simp_all

lemma ok_or_simps [simp]:
  "ok_or e None = Inl e"
  "ok_or e (Some x) = Inr x"
  by (simp_all add: ok_or_def)

lemma ok_or_iff [res_simps]:
  "ok_or e m = Inr x \<longleftrightarrow> m = Some x"
  "ok_or e m = Inl e' \<longleftrightarrow> m = None \<and> e' = e"
  by (cases m; auto)+

lemma ensure_iff [res_simps]:
  "ensure b e = Inr u \<longleftrightarrow> b"
  "ensure b e = Inl e' \<longleftrightarrow> \<not> b \<and> e' = e"
  by (auto simp: ensure_def)

text \<open>\<open>if let Some(x) = m { return Err(f(x)) }\<close>.\<close>

definition refuse :: "('a \<Rightarrow> domain_error) \<Rightarrow> 'a option \<Rightarrow> unit res" where
  "refuse f m = (case m of None \<Rightarrow> Inr () | Some x \<Rightarrow> Inl (f x))"

lemma refuse_iff [res_simps]:
  "refuse f m = Inr u \<longleftrightarrow> m = None"
  "refuse f m = Inl e \<longleftrightarrow> (\<exists>x. m = Some x \<and> e = f x)"
  by (cases m; auto simp: refuse_def)+

lemma refuse_simps [simp]:
  "refuse f None = Inr ()"
  "refuse f (Some x) = Inl (f x)"
  by (simp_all add: refuse_def)

lemma ensure_simps [simp]:
  "ensure True e = Inr ()"
  "ensure False e = Inl e"
  by (simp_all add: ensure_def)

subsection \<open>Transactions\<close>

text \<open>
  The body of a \<open>BEGIN IMMEDIATE\<close> transaction either fails, and dropping the transaction
  rolls every statement back, or returns a value and the state its commit publishes. A store
  operation runs its body, commits, and often reads the row back through the pool: if that
  read failed, the operation would report an error although its effect is durable.
\<close>

type_synonym ('s, 'a) tx = "'s \<Rightarrow> domain_error + ('a \<times> 's)"
type_synonym ('s, 'a) operation = "'s \<Rightarrow> (domain_error + 'a) \<times> 's"

definition commit_then :: "('s, 'a) tx \<Rightarrow> ('a \<Rightarrow> 's \<Rightarrow> domain_error + 'b) \<Rightarrow> ('s, 'b) operation" where
  "commit_then body rd s =
     (case body s of Inl e \<Rightarrow> (Inl e, s) | Inr (x, s') \<Rightarrow> (rd x s', s'))"

definition commit :: "('s, 'a) tx \<Rightarrow> ('s, 'a) operation" where
  "commit body = commit_then body (\<lambda>x s. Inr x)"

lemma commit_then_simps [simp]:
  "body s = Inl e \<Longrightarrow> commit_then body rd s = (Inl e, s)"
  "body s = Inr (x, s') \<Longrightarrow> commit_then body rd s = (rd x s', s')"
  by (simp_all add: commit_then_def)

lemma commit_then_state:
  "snd (commit_then body rd s) = (case body s of Inl e \<Rightarrow> s | Inr (x, s') \<Rightarrow> s')"
  by (simp add: commit_then_def split: sum.splits)

lemma commit_then_invariant:
  assumes "I s" and "\<And>x s'. body s = Inr (x, s') \<Longrightarrow> I s'"
  shows "I (snd (commit_then body rd s))"
  using assms by (auto simp: commit_then_state split: sum.splits)

lemma commit_invariant:
  assumes "I s" and "\<And>x s'. body s = Inr (x, s') \<Longrightarrow> I s'"
  shows "I (snd (commit body s))"
  unfolding commit_def using assms by (rule commit_then_invariant)

lemma commit_Inr_iff [res_simps]:
  "commit body s = (Inr x, s') \<longleftrightarrow> body s = Inr (x, s')"
  by (auto simp: commit_def commit_then_def split: sum.splits)

lemma commit_error_state:
  "commit body s = (Inl e, s') \<Longrightarrow> s' = s"
  by (auto simp: commit_def commit_then_def split: sum.splits)

text \<open>Reads through the pool that come before the transaction and may fail.\<close>

definition checked ::
  "('s \<Rightarrow> domain_error + 'x) \<Rightarrow> ('x \<Rightarrow> ('s, 'a) operation) \<Rightarrow> ('s, 'a) operation" where
  "checked pre run s = (case pre s of Inl e \<Rightarrow> (Inl e, s) | Inr x \<Rightarrow> run x s)"

lemma checked_simps [simp]:
  "pre s = Inl e \<Longrightarrow> checked pre run s = (Inl e, s)"
  "pre s = Inr x \<Longrightarrow> checked pre run s = run x s"
  by (simp_all add: checked_def)

lemma checked_invariant:
  assumes "I s" and "\<And>x. pre s = Inr x \<Longrightarrow> I (snd (run x s))"
  shows "I (snd (checked pre run s))"
  using assms by (auto simp: checked_def split: sum.splits)

lemma checked_Inr_iff [res_simps]:
  "checked pre run s = (Inr y, s') \<longleftrightarrow> (\<exists>x. pre s = Inr x \<and> run x s = (Inr y, s'))"
  by (auto simp: checked_def split: sum.splits)

subsection \<open>Table statements\<close>

text \<open>
  A table is the list of its rows in insertion (\<open>rowid\<close>) order. \<open>SELECT ... LIMIT 1\<close> by
  key is \<open>find\<close>, \<open>EXISTS\<close> is \<open>list_ex\<close>, an \<open>UPDATE\<close> maps the rows its condition selects.
\<close>

definition update_where :: "('r \<Rightarrow> bool) \<Rightarrow> ('r \<Rightarrow> 'r) \<Rightarrow> 'r list \<Rightarrow> 'r list" where
  "update_where P f rows = map (\<lambda>r. if P r then f r else r) rows"

definition rows_affected :: "('r \<Rightarrow> bool) \<Rightarrow> 'r list \<Rightarrow> nat" where
  "rows_affected P rows = length (filter P rows)"

text \<open>\<open>ORDER BY key DESC, rowid DESC LIMIT 1\<close>: the last of the rows with the greatest key.\<close>

fun last_max :: "('r \<Rightarrow> 'k::linorder) \<Rightarrow> 'r list \<Rightarrow> 'r option" where
  "last_max k [] = None"
| "last_max k (x # xs) =
     (case last_max k xs of
        None \<Rightarrow> Some x
      | Some y \<Rightarrow> Some (if k y < k x then x else y))"

lemma update_where_simps [simp]:
  "update_where P f [] = []"
  "update_where P f (r # rs) = (if P r then f r else r) # update_where P f rs"
  by (simp_all add: update_where_def)

lemma length_update_where [simp]: "length (update_where P f rows) = length rows"
  by (simp add: update_where_def)

lemma set_update_where:
  "set (update_where P f rows) = (\<lambda>r. if P r then f r else r) ` set rows"
  by (simp add: update_where_def)

lemma update_where_append [simp]:
  "update_where P f (xs @ ys) = update_where P f xs @ update_where P f ys"
  by (simp add: update_where_def)

lemma map_update_where:
  assumes "\<And>r. P r \<Longrightarrow> k (f r) = k r"
  shows "map k (update_where P f rows) = map k rows"
  using assms by (simp add: update_where_def)

lemma update_where_none: "\<not> list_ex P rows \<Longrightarrow> update_where P f rows = rows"
  by (induction rows) auto

lemma filter_update_where_same:
  assumes "\<And>r. P r \<Longrightarrow> Q (f r) = Q r" "\<And>r. P r \<Longrightarrow> Q r \<Longrightarrow> k (f r) = k r"
  shows "map k (filter Q (update_where P f rows)) = map k (filter Q rows)"
  using assms by (induction rows) auto

lemma list_ex_update_where:
  "list_ex Q (update_where P f rows) = list_ex (\<lambda>r. Q (if P r then f r else r)) rows"
  by (induction rows) auto

lemma list_all_update_where:
  "list_all Q (update_where P f rows) = list_all (\<lambda>r. Q (if P r then f r else r)) rows"
  by (induction rows) auto

lemma filter_subseq_update_where:
  assumes "\<And>r. P r \<Longrightarrow> Q (f r) \<Longrightarrow> Q r" "\<And>r. P r \<Longrightarrow> k (f r) = k r"
    and "distinct (map k (filter Q rows))"
  shows "distinct (map k (filter Q (update_where P f rows)))"
proof -
  have sub: "set (map k (filter Q (update_where P f rs))) \<subseteq> set (map k (filter Q rs))" for rs
    using assms(1,2) by (auto simp: set_update_where split: if_splits)
  show ?thesis using assms(3)
  proof (induction rows)
    case Nil
    then show ?case by simp
  next
    case (Cons r rs)
    have "k r \<notin> set (map k (filter Q rs)) \<Longrightarrow> k r \<notin> set (map k (filter Q (update_where P f rs)))"
      using sub [of rs] by blast
    with Cons show ?case
      using assms(1,2) [of r] by (auto split: if_splits)
  qed
qed

lemma find_Some_in: "find P xs = Some x \<Longrightarrow> x \<in> set xs \<and> P x"
  by (auto simp: find_Some_iff)

lemma find_None_list_ex: "find P xs = None \<longleftrightarrow> \<not> list_ex P xs"
  by (auto simp: find_None_iff list_ex_iff)

lemma find_append:
  "find P (xs @ ys) = (case find P xs of None \<Rightarrow> find P ys | Some x \<Rightarrow> Some x)"
  by (induction xs) auto

lemma find_update_where:
  assumes "\<And>r. P r \<Longrightarrow> k (f r) = k r"
  shows "find (\<lambda>r. k r = x) (update_where P f rows)
       = map_option (\<lambda>r. if P r then f r else r) (find (\<lambda>r. k r = x) rows)"
  using assms by (induction rows) auto

lemma find_unique:
  assumes "distinct (map k rows)" "r \<in> set rows"
  shows "find (\<lambda>x. k x = k r) rows = Some r"
  using assms by (induction rows) (auto simp: rev_image_eqI)

lemma distinct_map_inj:
  "distinct (map k xs) \<Longrightarrow> x \<in> set xs \<Longrightarrow> y \<in> set xs \<Longrightarrow> k x = k y \<Longrightarrow> x = y"
  by (auto simp: distinct_map inj_on_def)

lemma last_max_None [simp]: "last_max k xs = None \<longleftrightarrow> xs = []"
  by (cases xs) (auto split: option.splits)

lemma last_max_Some:
  "last_max k xs = Some x \<Longrightarrow> x \<in> set xs \<and> (\<forall>y \<in> set xs. k y \<le> k x)"
proof (induction xs arbitrary: x)
  case Nil
  then show ?case by simp
next
  case (Cons a xs)
  show ?case
  proof (cases "last_max k xs")
    case None
    with Cons.prems have "xs = []" "x = a" by simp_all
    then show ?thesis by simp
  next
    case (Some y)
    from Cons.IH [OF Some] have y: "y \<in> set xs" "\<forall>z \<in> set xs. k z \<le> k y" by auto
    from Cons.prems Some have "x = (if k y < k a then a else y)" by simp
    with y show ?thesis by (auto split: if_splits intro: order.trans)
  qed
qed

lemma all_update_where:
  assumes "\<And>r. P r \<Longrightarrow> Q (f r)"
  shows "\<forall>q \<in> set (update_where P f rows). P q \<longrightarrow> Q q"
  using assms by (auto simp: set_update_where)

lemma one_row:
  assumes "distinct (map k rows)" "a \<in> set rows" "Q a"
  shows "rows_affected (\<lambda>b. k b = k a \<and> Q b) rows = 1"
  using assms
proof (induction rows)
  case Nil
  then show ?case by simp
next
  case (Cons r rows)
  show ?case
  proof (cases "a = r")
    case True
    with Cons.prems(1) have "filter (\<lambda>b. k b = k a \<and> Q b) rows = []"
      by (auto simp: filter_empty_conv image_iff)
    with True Cons.prems(3) show ?thesis by (simp add: rows_affected_def)
  next
    case False
    with Cons show ?thesis by (auto simp: rows_affected_def)
  qed
qed

lemma in_update_where:
  assumes "r \<in> set (update_where P f rows)"
  obtains q where "q \<in> set rows" "r = (if P q then f q else q)"
  using assms by (auto simp: update_where_def)

lemma failed_commit_then:
  assumes "\<And>y s'. body s = Inr (y, s') \<Longrightarrow> \<not> isl (rd y s')"
  shows "fst (commit_then body rd s) = Inl e \<longrightarrow> snd (commit_then body rd s) = s"
  using assms by (fastforce simp: commit_then_def split: sum.splits)

lemma failed_commit: "fst (commit body s) = Inl e \<longrightarrow> snd (commit body s) = s"
  unfolding commit_def by (rule failed_commit_then) simp

lemma failed_checked:
  assumes "\<And>y. pre s = Inr y \<Longrightarrow> fst (run y s) = Inl e \<longrightarrow> snd (run y s) = s"
  shows "fst (checked pre run s) = Inl e \<longrightarrow> snd (checked pre run s) = s"
  using assms by (cases "pre s") simp_all

lemma find_key_None: "find (\<lambda>r. k r = i) rows = None \<longleftrightarrow> i \<notin> set (map k rows)"
  by (auto simp: find_None_iff)

lemma commit_then_Inr:
  "commit_then body rd s = (Inr y, s') \<longleftrightarrow> (\<exists>x. body s = Inr (x, s') \<and> rd x s' = Inr y)"
  by (auto simp: commit_then_def split: sum.splits)

lemma right_result: "\<not> isl r \<Longrightarrow> \<exists>x. r = Inr x"
  by (cases r) auto

lemma right_operation: "\<not> isl (fst p) \<Longrightarrow> \<exists>x s. p = (Inr x, s)"
  by (cases p; cases "fst p") auto

subsection \<open>Life cycles of rows\<close>

text \<open>
  Statements update rows in place and append new ones: \<open>advances moves rows rows'\<close> says that
  every row of \<open>rows\<close> stands at its position in \<open>rows'\<close>, moved along \<open>moves\<close>.
\<close>

definition advances :: "('r \<Rightarrow> 'r \<Rightarrow> bool) \<Rightarrow> 'r list \<Rightarrow> 'r list \<Rightarrow> bool" where
  "advances moves rows rows' \<longleftrightarrow>
     (\<exists>moved new. rows' = moved @ new \<and> list_all2 moves rows moved)"

text \<open>Where rows are deleted too, only the final ones stay.\<close>

definition settled :: "('r \<Rightarrow> bool) \<Rightarrow> 'r list \<Rightarrow> 'r list \<Rightarrow> bool" where
  "settled final rows rows' \<longleftrightarrow> list_all (\<lambda>r. final r \<longrightarrow> r \<in> set rows') rows"

lemma settled_refl: "settled final rows rows"
  by (simp add: settled_def list_all_iff)

lemma settled_trans: "settled final rows rows' \<Longrightarrow> settled final rows' rows'' \<Longrightarrow> settled final rows rows''"
  by (simp add: settled_def list_all_iff)

lemma settled_filter: "(\<And>r. final r \<Longrightarrow> Q r) \<Longrightarrow> settled final rows (filter Q rows)"
  by (simp add: settled_def list_all_iff)

locale row_lifecycle =
  fixes key :: "'r \<Rightarrow> 'k" and moves :: "'r \<Rightarrow> 'r \<Rightarrow> bool" and final :: "'r \<Rightarrow> bool"
  assumes moves_refl: "moves r r"
    and moves_trans: "moves r r' \<Longrightarrow> moves r' r'' \<Longrightarrow> moves r r''"
    and moves_key: "moves r r' \<Longrightarrow> key r' = key r"
    and final_stays: "moves r r' \<Longrightarrow> final r \<Longrightarrow> r' = r"
begin

lemma advances_refl: "advances moves rows rows"
  unfolding advances_def by (metis append_Nil2 list_all2_refl moves_refl)

lemma advances_update_where:
  assumes "\<And>r. P r \<Longrightarrow> moves r (f r)"
  shows "advances moves rows (update_where P f rows)"
proof -
  have "list_all2 moves rows (update_where P f rows)"
    using assms by (induction rows) (simp_all add: moves_refl)
  then show ?thesis unfolding advances_def by (metis append_Nil2)
qed

lemma advances_append: "advances moves rows (rows @ new)"
  unfolding advances_def by (metis list_all2_refl moves_refl)

lemma advances_trans:
  assumes "advances moves rows rows'" "advances moves rows' rows''"
  shows "advances moves rows rows''"
proof -
  from assms(1) obtain moved new where 1: "rows' = moved @ new" "list_all2 moves rows moved"
    unfolding advances_def by blast
  with assms(2) obtain moved' new' where 2: "rows'' = moved' @ new'" "list_all2 moves (moved @ new) moved'"
    unfolding advances_def by blast
  from 2(2) obtain m1 m2 where 3: "moved' = m1 @ m2" "list_all2 moves moved m1"
    by (auto simp: list_all2_append1)
  from 1(2) 3(2) have "list_all2 moves rows m1"
    by (rule list_all2_trans [rotated]) (rule moves_trans)
  with 2(1) 3(1) show ?thesis unfolding advances_def by auto
qed

lemma advances_fold:
  assumes "\<And>x rows. advances moves rows (step x rows)"
  shows "advances moves rows (fold step xs rows)"
proof (induction xs arbitrary: rows)
  case Nil
  then show ?case by (simp add: advances_refl)
next
  case (Cons x xs)
  from advances_trans [OF assms Cons.IH] show ?case by simp
qed

lemma advances_row:
  assumes "advances moves rows rows'" "r \<in> set rows"
  shows "\<exists>r' \<in> set rows'. moves r r' \<and> key r' = key r"
proof -
  from assms(1) obtain moved new where m: "rows' = moved @ new" "list_all2 moves rows moved"
    unfolding advances_def by blast
  from assms(2) obtain n where "n < length rows" "rows ! n = r" by (auto simp: in_set_conv_nth)
  with m(2) have "moves r (moved ! n)" "n < length moved"
    by (auto simp: list_all2_conv_all_nth)
  with m(1) moves_key show ?thesis by auto
qed

lemma advances_final:
  assumes "advances moves rows rows'" "r \<in> set rows" "final r"
  shows "r \<in> set rows'"
  using advances_row [OF assms(1,2)] final_stays [OF _ assms(3)] by blast

lemma advances_settled: "advances moves rows rows' \<Longrightarrow> settled final rows rows'"
  using advances_final by (simp add: settled_def list_all_iff)

lemma advances_keys:
  assumes "advances moves rows rows'"
  shows "\<exists>new. map key rows' = map key rows @ new"
proof -
  from assms obtain moved new where m: "rows' = moved @ new" "list_all2 moves rows moved"
    unfolding advances_def by blast
  from m(2) have "map key moved = map key rows"
    by (induction rule: list_all2_induct) (simp_all add: moves_key)
  with m(1) show ?thesis by simp
qed

end

subsection \<open>Transition systems\<close>

text \<open>The interface of a system whose steps keep an invariant and move its rows forward.\<close>

locale transition_system =
  fixes step :: "'s \<Rightarrow> 's \<Rightarrow> bool" and ok :: "'s \<Rightarrow> bool" and moves :: "'s \<Rightarrow> 's \<Rightarrow> bool"
  assumes step_ok: "ok s \<Longrightarrow> step s s' \<Longrightarrow> ok s' \<and> moves s s'"
    and moves_refl: "moves s s"
    and moves_trans: "moves s s' \<Longrightarrow> moves s' s'' \<Longrightarrow> moves s s''"
begin

lemma steps_ok: "step\<^sup>*\<^sup>* s s' \<Longrightarrow> ok s \<Longrightarrow> ok s' \<and> moves s s'"
proof (induction rule: rtranclp_induct)
  case base
  then show ?case by (simp add: moves_refl)
next
  case (step s' s'')
  then show ?case using step_ok [of s' s''] moves_trans [of s s' s''] by blast
qed

end

subsection \<open>Strings\<close>

text \<open>The UTF-8 texts of the characters with the Unicode property White\_Space.\<close>

definition ws_seqs :: "string list" where
  "ws_seqs =
     map (\<lambda>n. [char_of (n::nat)]) [9, 10, 11, 12, 13, 32]
     @ map (\<lambda>n. map char_of [194, n::nat]) [133, 160]
     @ [map char_of [225, 154, 128::nat]]
     @ map (\<lambda>n. map char_of [226, 128, n::nat])
         [128, 129, 130, 131, 132, 133, 134, 135, 136, 137, 138, 168, 169, 175]
     @ [map char_of [226, 129, 159::nat], map char_of [227, 128, 128::nat]]"

definition starts_with :: "string \<Rightarrow> string \<Rightarrow> bool" where
  "starts_with p s \<longleftrightarrow> take (length p) s = p"

lemma starts_with_append: "starts_with p (p @ s)"
  by (simp add: starts_with_def)

lemma starts_withE:
  assumes "starts_with p s"
  obtains t where "s = p @ t"
  using assms by (metis starts_with_def append_take_drop_id)

fun strip_any :: "string list \<Rightarrow> nat \<Rightarrow> string \<Rightarrow> string" where
  "strip_any ws 0 s = s"
| "strip_any ws (Suc n) s =
     (case find (\<lambda>w. starts_with w s) ws of
        None \<Rightarrow> s
      | Some w \<Rightarrow> strip_any ws n (drop (length w) s))"

text \<open>
  \<open>str::trim\<close>: whitespace is removed from the front and from the back. Each round removes
  at least one byte, so as many rounds as the text has bytes are enough.
\<close>

definition trim_start :: "string \<Rightarrow> string" where
  "trim_start s = strip_any ws_seqs (length s) s"

definition trim_end :: "string \<Rightarrow> string" where
  "trim_end s = rev (strip_any (map rev ws_seqs) (length s) (rev s))"

definition trim :: "string \<Rightarrow> string" where
  "trim s = trim_end (trim_start s)"

text \<open>\<open>chars().count()\<close>: the number of bytes that are not UTF-8 continuation bytes.\<close>

definition chars_count :: "string \<Rightarrow> nat" where
  "chars_count s = length (filter (\<lambda>c. (of_char c :: nat) div 64 \<noteq> 2) s)"

definition blank :: "string \<Rightarrow> bool" where
  "blank s \<longleftrightarrow> trim s = []"

text \<open>\<open>str::split\<close> on one character, and \<open>slice::join\<close>.\<close>

fun split_on :: "char \<Rightarrow> string \<Rightarrow> string list" where
  "split_on c [] = [[]]"
| "split_on c (x # xs) =
     (if x = c then [] # split_on c xs
      else (case split_on c xs of [] \<Rightarrow> [[x]] | w # ws \<Rightarrow> (x # w) # ws))"

fun join_with :: "string \<Rightarrow> string list \<Rightarrow> string" where
  "join_with sep [] = []"
| "join_with sep [x] = x"
| "join_with sep (x # xs) = x @ sep @ join_with sep xs"

lemma strip_any_no_prefix:
  assumes "[] \<notin> set ws" "length s \<le> n"
  shows "find (\<lambda>w. starts_with w (strip_any ws n s)) ws = None"
  using assms
proof (induction n arbitrary: s)
  case 0
  then have "s = []" by simp
  with 0 show ?case by (auto simp: find_None_iff starts_with_def)
next
  case (Suc n)
  show ?case
  proof (cases "find (\<lambda>w. starts_with w s) ws")
    case None
    then show ?thesis by simp
  next
    case (Some w)
    then have "w \<in> set ws" by (auto dest: find_Some_in)
    with Suc.prems(1) have "w \<noteq> []" by auto
    with Suc.prems(2) have "length (drop (length w) s) \<le> n" by (cases w) auto
    with Suc.IH Suc.prems(1) Some show ?thesis by simp
  qed
qed

lemma ws_seqs_nonempty: "[] \<notin> set ws_seqs"
  by (simp add: ws_seqs_def)

lemma trim_start_no_ws: "w \<in> set ws_seqs \<Longrightarrow> \<not> starts_with w (trim_start s)"
  using strip_any_no_prefix [OF ws_seqs_nonempty order.refl, of s]
  by (auto simp: trim_start_def find_None_iff)

text \<open>A text whose first and last characters are printable ASCII is trimmed already.\<close>

definition plain :: "char \<Rightarrow> bool" where
  "plain c \<longleftrightarrow> (33::nat) \<le> of_char c \<and> of_char c < (128::nat)"

lemma ws_not_plain: "w \<in> set ws_seqs \<Longrightarrow> w \<noteq> [] \<and> \<not> plain (hd w) \<and> \<not> plain (last w)"
proof -
  have "list_all (\<lambda>w. w \<noteq> [] \<and> \<not> plain (hd w) \<and> \<not> plain (last w)) ws_seqs" by code_simp
  then show "w \<in> set ws_seqs \<Longrightarrow> w \<noteq> [] \<and> \<not> plain (hd w) \<and> \<not> plain (last w)" by (simp add: list_all_iff)
qed

lemma strip_any_none:
  assumes "\<And>w. w \<in> set ws \<Longrightarrow> w \<noteq> [] \<and> hd w \<noteq> hd s" 
  shows "strip_any ws n s = s"
proof (cases n)
  case (Suc m)
  have "\<not> starts_with w s" if "w \<in> set ws" for w
    using assms [OF that] by (auto elim!: starts_withE)
  then have "find (\<lambda>w. starts_with w s) ws = None"
    by (simp add: find_None_iff)
  then show ?thesis by (simp add: Suc)
qed simp

lemma trim_plain:
  assumes "s \<noteq> []" "plain (hd s)" "plain (last s)"
  shows "trim s = s"
proof -
  have "trim_start s = s"
    unfolding trim_start_def using assms ws_not_plain by (intro strip_any_none) metis
  moreover have "strip_any (map rev ws_seqs) (length s) (rev s) = rev s"
    using assms ws_not_plain by (intro strip_any_none) (force simp: hd_rev)
  ultimately show ?thesis by (simp add: trim_def trim_end_def)
qed

lemma trim_code [code]:
  "trim s = (if s \<noteq> [] \<and> plain (hd s) \<and> plain (last s) then s else trim_end (trim_start s))"
proof (cases "s \<noteq> [] \<and> plain (hd s) \<and> plain (last s)")
  case True
  then show ?thesis by (simp add: trim_plain)
next
  case False
  then show ?thesis by (simp only: trim_def if_False)
qed

lemma trim_Nil [simp]: "trim [] = []"
  by (simp add: trim_def trim_start_def trim_end_def)

lemma blank_Nil [simp]: "blank []"
  by (simp add: blank_def)

lemma join_split_on: "join_with [c] (split_on c s) = s"
proof (induction s)
  case Nil
  then show ?case by simp
next
  case (Cons x xs)
  have ne: "split_on c xs \<noteq> []" by (cases xs) (auto split: list.splits)
  then obtain w ws where w: "split_on c xs = w # ws" by (cases "split_on c xs") auto
  with Cons.IH show ?case by (cases ws) auto
qed

end
