(* ===== verification/Json.thy ===== *)
theory Json
  imports Prelude
begin

text \<open>
  The JSON values the store keeps (\<open>serde_json::Value\<close>) and what the sources compute on
  them: the recursive merge of working-context constraints, the completion criteria a context
  declares, and the emptiness test of interview plans. An object is a \<open>BTreeMap\<close>: its
  entries in the byte order of their keys, each key once. An integer and a floating-point
  number are different values; \<open>JFloat m e\<close> is the number \<open>m * 2^e\<close> with \<open>m\<close> odd or zero.
\<close>

datatype json =
    JNull
  | JBool bool
  | JInt int
  | JFloat int int
  | JStr string
  | JArr "json list"
  | JObj "(string \<times> json) list"

type_synonym json_map = "(string \<times> json) list"

fun map_insert :: "string \<Rightarrow> json \<Rightarrow> json_map \<Rightarrow> json_map" where
  "map_insert k v [] = [(k, v)]"
| "map_insert k v ((k', v') # m) =
     (if k < k' then (k, v) # (k', v') # m
      else if k = k' then (k, v) # m
      else (k', v') # map_insert k v m)"

definition json_get :: "json \<Rightarrow> string \<Rightarrow> json option" where
  "json_get v k = (case v of JObj m \<Rightarrow> map_of m k | _ \<Rightarrow> None)"

definition sorted_keys :: "json_map \<Rightarrow> bool" where
  "sorted_keys m = sorted_wrt (<) (map fst m)"

lemma map_of_map_insert [simp]:
  assumes "sorted_keys m"
  shows "map_of (map_insert k v m) = (map_of m)(k \<mapsto> v)"
  using assms unfolding sorted_keys_def
proof (induction m)
  case Nil
  then show ?case by simp
next
  case (Cons p m)
  obtain k' v' where p: "p = (k', v')" by (cases p)
  with Cons show ?case by (auto simp: fun_upd_twist)
qed

lemma set_map_insert_keys: "fst ` set (map_insert k v m) = insert k (fst ` set m)"
proof (induction m)
  case Nil
  then show ?case by simp
next
  case (Cons p m)
  then show ?case by (cases p) auto
qed

lemma sorted_keys_map_insert [simp]: "sorted_keys m \<Longrightarrow> sorted_keys (map_insert k v m)"
  unfolding sorted_keys_def
proof (induction m)
  case Nil
  then show ?case by simp
next
  case (Cons p m)
  obtain k' v' where p: "p = (k', v')" by (cases p)
  have sub: "x \<in> fst ` set (map_insert k v m) \<Longrightarrow> x = k \<or> x \<in> fst ` set m" for x
    using set_map_insert_keys [of k v m] by blast
  show ?case
  proof (cases "k < k'")
    case True
    with Cons.prems p show ?thesis by (auto dest: order.strict_trans)
  next
    case False
    show ?thesis
    proof (cases "k = k'")
      case True
      with Cons.prems p show ?thesis by auto
    next
      case neq: False
      with False have lt: "k' < k" by simp
      have "k' < x" if "x \<in> fst ` set (map_insert k v m)" for x
        using sub [OF that] lt Cons.prems p by auto
      with False neq Cons p show ?thesis by simp
    qed
  qed
qed

lemma sorted_keys_distinct: "sorted_keys m \<Longrightarrow> distinct (map fst m)"
  unfolding sorted_keys_def by (simp add: strict_sorted_iff)

lemma rebuild_from_keys:
  "distinct (map fst m) \<Longrightarrow> map (\<lambda>k. (k, the (map_of m k))) (map fst m) = m"
  by (auto intro!: map_idI)

lemma sorted_keys_eqI:
  assumes m: "sorted_keys m" and m': "sorted_keys m'" and eq: "map_of m = map_of m'"
  shows "m = m'"
proof -
  have "fst ` set m = fst ` set m'"
    using eq by (metis dom_map_of_conv_image_fst)
  then have keys: "map fst m = map fst m'"
    using m m' unfolding sorted_keys_def by (metis strict_sorted_equal list.set_map)
  have "m = map (\<lambda>k. (k, the (map_of m k))) (map fst m)"
    using rebuild_from_keys [OF sorted_keys_distinct [OF m]] by simp
  also have "\<dots> = map (\<lambda>k. (k, the (map_of m' k))) (map fst m')"
    by (simp only: eq keys)
  also have "\<dots> = m'"
    by (rule rebuild_from_keys [OF sorted_keys_distinct [OF m']])
  finally show ?thesis .
qed

text \<open>Every object inside a value has its keys in order.\<close>

fun wf_json :: "json \<Rightarrow> bool" where
  "wf_json (JArr vs) = list_all wf_json vs"
| "wf_json (JObj m) = (sorted_keys m \<and> list_all (\<lambda>p. wf_json (snd p)) m)"
| "wf_json _ = True"

lemma wf_json_get: "wf_json (JObj m) \<Longrightarrow> map_of m k = Some v \<Longrightarrow> wf_json v"
  by (auto simp: list_all_iff dest!: map_of_SomeD)

lemma wf_json_map_insert:
  "wf_json (JObj m) \<Longrightarrow> wf_json v \<Longrightarrow> wf_json (JObj (map_insert k v m))"
proof (induction m)
  case Nil
  then show ?case by (simp add: sorted_keys_def)
next
  case (Cons p m)
  obtain k' v' where p: "p = (k', v')" by (cases p)
  from Cons.prems(1) have sk: "sorted_keys (p # m)" by simp
  then have "sorted_keys m" by (simp add: sorted_keys_def)
  with Cons p have all: "list_all (\<lambda>p. wf_json (snd p)) (map_insert k v m)" by simp
  from sorted_keys_map_insert [OF sk, of k v]
  have "sorted_keys (map_insert k v (p # m))" .
  with all Cons.prems p show ?case by auto
qed

subsection \<open>Merging working-context constraints\<close>

text \<open>
  \<open>merge_context_constraints\<close> (\<open>morrows-store/src/lib.rs\<close>): the entries of the additions
  are taken in key order; where both sides hold an object the merge recurses into the stored
  one, otherwise the addition replaces the stored value.
\<close>

function merge_context_constraints :: "json_map \<Rightarrow> json_map \<Rightarrow> json_map" where
  "merge_context_constraints current [] = current"
| "merge_context_constraints current ((key, val) # additions) =
     merge_context_constraints
       (case (map_of current key, val) of
          (Some (JObj existing), JObj nested) \<Rightarrow>
            map_insert key (JObj (merge_context_constraints existing nested)) current
        | (_, v) \<Rightarrow> map_insert key v current)
       additions"
  by pat_completeness auto
termination
  by (relation "measure (\<lambda>(current, additions). size_list (size_prod (\<lambda>_. 0) size) additions)") auto

definition merged_value :: "json option \<Rightarrow> json \<Rightarrow> json" where
  "merged_value old v =
     (case (old, v) of
        (Some (JObj existing), JObj nested) \<Rightarrow> JObj (merge_context_constraints existing nested)
      | _ \<Rightarrow> v)"

lemma merge_Cons:
  "merge_context_constraints current ((key, v) # additions)
   = merge_context_constraints (map_insert key (merged_value (map_of current key) v) current) additions"
  by (simp add: merged_value_def split: option.splits json.splits)

lemma sorted_keys_merge [simp]:
  "sorted_keys current \<Longrightarrow> sorted_keys (merge_context_constraints current additions)"
proof (induction additions arbitrary: current)
  case Nil
  then show ?case by simp
next
  case (Cons p additions)
  then show ?case by (cases p) (simp add: merge_Cons del: merge_context_constraints.simps(2))
qed

lemma map_of_merge:
  assumes "sorted_keys current" "sorted_keys additions"
  shows "map_of (merge_context_constraints current additions) k =
     (case map_of additions k of
        None \<Rightarrow> map_of current k
      | Some v \<Rightarrow> Some (merged_value (map_of current k) v))"
  using assms
proof (induction additions arbitrary: current)
  case Nil
  then show ?case by simp
next
  case (Cons p additions)
  obtain key v where p: "p = (key, v)" by (cases p)
  from Cons.prems(2) have sk: "sorted_keys additions" by (simp add: sorted_keys_def)
  from sorted_keys_distinct [OF Cons.prems(2)] p have notin: "map_of additions key = None"
    by (auto simp: map_of_eq_None_iff)
  let ?cur = "map_insert key (merged_value (map_of current key) v) current"
  from Cons.prems(1) have cur: "sorted_keys ?cur" by simp
  show ?case
    using Cons.IH [OF cur sk] Cons.prems(1) p notin
    by (auto simp: merge_Cons simp del: merge_context_constraints.simps(2) split: option.splits)
qed

lemma merged_value_self_obj:
  "merged_value (Some (JObj e)) (JObj n) = JObj (merge_context_constraints e n)"
  by (simp add: merged_value_def)

lemma merged_value_atom [simp]:
  "merged_value old JNull = JNull"
  "merged_value old (JBool b) = JBool b"
  "merged_value old (JInt i) = JInt i"
  "merged_value old (JFloat i j) = JFloat i j"
  "merged_value old (JStr str) = JStr str"
  "merged_value old (JArr vs) = JArr vs"
  by (simp_all add: merged_value_def split: option.splits json.splits)

lemma merge_self:
  assumes "wf_json v"
  shows "merged_value (Some v) v = v"
  using assms
proof (induction v)
  case (JObj m)
  from JObj.prems have sk: "sorted_keys m" by simp
  have "merge_context_constraints m m = m"
  proof (rule sorted_keys_eqI [OF sorted_keys_merge [OF sk] sk], rule ext)
    fix k
    show "map_of (merge_context_constraints m m) k = map_of m k"
    proof (cases "map_of m k")
      case None
      then show ?thesis by (simp add: map_of_merge [OF sk sk])
    next
      case (Some w)
      then have "(k, w) \<in> set m" by (rule map_of_SomeD)
      moreover have "wf_json w" by (rule wf_json_get [OF JObj.prems Some])
      ultimately have "merged_value (Some w) w = w" using JObj.IH by fastforce
      with Some show ?thesis by (simp add: map_of_merge [OF sk sk])
    qed
  qed
  then show ?case by (simp add: merged_value_self_obj)
qed simp_all

text \<open>A second merge of the same additions changes nothing.\<close>

lemma merged_value_idem:
  assumes "\<And>c. old = Some c \<Longrightarrow> wf_json c" and "wf_json v"
  shows "merged_value (Some (merged_value old v)) v = merged_value old v"
  using assms
proof (induction v arbitrary: old)
  case (JObj n)
  from JObj.prems(2) have skn: "sorted_keys n" by simp
  show ?case
  proof (cases "\<exists>e. old = Some (JObj e)")
    case False
    then have "merged_value old (JObj n) = JObj n"
      by (auto simp: merged_value_def split: option.splits json.splits)
    with merge_self [OF JObj.prems(2)] show ?thesis by simp
  next
    case True
    then obtain e where old: "old = Some (JObj e)" by blast
    with JObj.prems(1) have wfe: "wf_json (JObj e)" by blast
    then have ske: "sorted_keys e" by simp
    let ?m = "merge_context_constraints e n"
    have "merge_context_constraints ?m n = ?m"
    proof (rule sorted_keys_eqI [OF sorted_keys_merge sorted_keys_merge], rule sorted_keys_merge)
      show "sorted_keys e" "sorted_keys e" by (rule ske)+
      show "map_of (merge_context_constraints ?m n) = map_of ?m"
      proof (rule ext)
        fix k
        show "map_of (merge_context_constraints ?m n) k = map_of ?m k"
        proof (cases "map_of n k")
          case None
          then show ?thesis by (simp add: map_of_merge ske skn)
        next
          case (Some w)
          then have kw: "(k, w) \<in> set n" by (rule map_of_SomeD)
          have wfw: "wf_json w" by (rule wf_json_get [OF JObj.prems(2) Some])
          have "merged_value (Some (merged_value (map_of e k) w)) w = merged_value (map_of e k) w"
            using JObj.IH [of "(k, w)" w "map_of e k"] kw wfw wf_json_get [OF wfe] by fastforce
          with Some show ?thesis by (simp add: map_of_merge ske skn)
        qed
      qed
    qed
    with old show ?thesis by (simp add: merged_value_self_obj)
  qed
qed simp_all

text \<open>
  The value at a path of object keys, and whether additions mention a path: the last key of
  the path, or an entry on the way to it, is set by them.
\<close>

fun json_at :: "json \<Rightarrow> string list \<Rightarrow> json option" where
  "json_at v [] = Some v"
| "json_at v (k # ks) = (case json_get v k of None \<Rightarrow> None | Some w \<Rightarrow> json_at w ks)"

fun mentions :: "json \<Rightarrow> string list \<Rightarrow> bool" where
  "mentions v [] = True"
| "mentions v (k # ks) =
     (case v of
        JObj m \<Rightarrow> (case map_of m k of None \<Rightarrow> False | Some w \<Rightarrow> mentions w ks)
      | _ \<Rightarrow> True)"

lemma not_mentions_json_at: "\<not> mentions v ks \<Longrightarrow> json_at v ks = None"
proof (induction ks arbitrary: v)
  case Nil
  then show ?case by simp
next
  case (Cons k ks)
  then show ?case by (auto simp: json_get_def split: option.splits json.splits)
qed

text \<open>Entries the additions do not mention survive the merge, at every depth.\<close>

lemma merged_value_preserves:
  assumes "wf_json c" "wf_json v" "\<not> mentions v ks"
  shows "json_at (merged_value (Some c) v) ks = json_at c ks"
  using assms
proof (induction ks arbitrary: c v)
  case Nil
  then show ?case by simp
next
  case (Cons k ks)
  from Cons.prems(3) obtain n where v: "v = JObj n" by (cases v) auto
  with Cons.prems(2) have skn: "sorted_keys n" by simp
  show ?case
  proof (cases "\<exists>e. c = JObj e")
    case False
    then have "merged_value (Some c) v = v"
      by (auto simp: merged_value_def split: json.splits)
    moreover have "json_at v (k # ks) = None"
      by (rule not_mentions_json_at [OF Cons.prems(3)])
    moreover have "json_at c (k # ks) = None"
      using False by (cases c) (auto simp: json_get_def)
    ultimately show ?thesis by simp
  next
    case True
    then obtain e where c: "c = JObj e" by blast
    with Cons.prems(1) have ske: "sorted_keys e" by simp
    show ?thesis
    proof (cases "map_of n k")
      case None
      then show ?thesis by (simp add: c v merged_value_self_obj json_get_def map_of_merge ske skn)
    next
      case (Some w)
      with Cons.prems(3) v have nm: "\<not> mentions w ks" by simp
      have wfw: "wf_json w" using wf_json_get Cons.prems(2) Some v by blast
      show ?thesis
      proof (cases "map_of e k")
        case None
        have "merged_value None w = w" by (simp add: merged_value_def)
        with None Some not_mentions_json_at [OF nm] show ?thesis
          by (simp add: c v merged_value_self_obj json_get_def map_of_merge ske skn)
      next
        case (Some u)
        have "wf_json u" using wf_json_get Cons.prems(1) Some c by blast
        from Cons.IH [OF this wfw nm] \<open>map_of n k = Some w\<close> Some show ?thesis
          by (simp add: c v merged_value_self_obj json_get_def map_of_merge ske skn)
      qed
    qed
  qed
qed

text \<open>Every atomic value of the additions is in the result, at its path.\<close>

lemma merged_value_applies:
  assumes "wf_json v" "json_at v ks = Some w" "\<And>m. w \<noteq> JObj m" "\<And>c. old = Some c \<Longrightarrow> wf_json c"
  shows "json_at (merged_value old v) ks = Some w"
  using assms
proof (induction ks arbitrary: v old)
  case Nil
  then have "v = w" by simp
  with Nil.prems(3) show ?case by (cases w) auto
next
  case (Cons k ks)
  from Cons.prems(2) obtain n u where v: "v = JObj n" and u: "map_of n k = Some u" "json_at u ks = Some w"
    by (cases v) (auto simp: json_get_def split: option.splits)
  from Cons.prems(1) v have skn: "sorted_keys n" by simp
  have wfu: "wf_json u" using wf_json_get Cons.prems(1) v u by blast
  show ?case
  proof (cases "\<exists>e. old = Some (JObj e)")
    case False
    then have "merged_value old v = v"
      by (auto simp: merged_value_def split: option.splits json.splits)
    with Cons.prems(2) show ?thesis by simp
  next
    case True
    then obtain e where old: "old = Some (JObj e)" by blast
    with Cons.prems(4) have wfe: "wf_json (JObj e)" by blast
    then have ske: "sorted_keys e" by simp
    have "json_at (merged_value (map_of e k) u) ks = Some w"
      using Cons.IH [OF wfu u(2) Cons.prems(3)] wf_json_get [OF wfe] by blast
    with u show ?thesis
      by (simp add: old v merged_value_self_obj json_get_def map_of_merge ske skn)
  qed
qed

lemma wf_json_merged_value:
  assumes "wf_json v" "\<And>c. old = Some c \<Longrightarrow> wf_json c"
  shows "wf_json (merged_value old v)"
  using assms
proof (induction v arbitrary: old)
  case (JObj n)
  from JObj.prems(1) have skn: "sorted_keys n" by simp
  show ?case
  proof (cases "\<exists>e. old = Some (JObj e)")
    case False
    then have "merged_value old (JObj n) = JObj n"
      by (auto simp: merged_value_def split: option.splits json.splits)
    with JObj.prems(1) show ?thesis by simp
  next
    case True
    then obtain e where old: "old = Some (JObj e)" by blast
    with JObj.prems(2) have wfe: "wf_json (JObj e)" by blast
    then have ske: "sorted_keys e" by simp
    let ?m = "merge_context_constraints e n"
    have "wf_json w" if kw: "(k, w) \<in> set ?m" for k w
    proof -
      from kw have "map_of ?m k = Some w"
        by (simp add: map_of_eq_Some_iff sorted_keys_distinct ske)
      then show ?thesis
        using wf_json_get [OF wfe, of k w] JObj.IH JObj.prems(1) wf_json_get [OF wfe, of k]
          map_of_SomeD [of n k]
        by (fastforce simp: map_of_merge ske skn list_all_iff split: option.splits)
    qed
    then show ?thesis
      by (auto simp: old merged_value_self_obj list_all_iff ske)
  qed
qed simp_all

subsection \<open>What a merge guarantees\<close>

text \<open>
  C17. A path of object keys that the additions do not mention reads the same before and after
  a merge, at every depth; a path at which they hold a value other than an object reads that
  value after it.
\<close>

theorem merge_preserves_and_applies:
  assumes "wf_json (JObj current)" "wf_json (JObj additions)"
  shows "(mentions (JObj additions) path
      \<or> json_at (JObj (merge_context_constraints current additions)) path = json_at (JObj current) path)
    \<and> (\<forall>w. json_at (JObj additions) path = Some w \<and> (\<forall>m. w \<noteq> JObj m)
      \<longrightarrow> json_at (JObj (merge_context_constraints current additions)) path = Some w)"
proof -
  have "json_at (merged_value (Some (JObj current)) (JObj additions)) path = Some w"
    if "json_at (JObj additions) path = Some w" "\<And>m. w \<noteq> JObj m" for w
    by (rule merged_value_applies) (use assms that in auto)
  with merged_value_preserves [OF assms] show ?thesis unfolding merged_value_self_obj by blast
qed

theorem merge_preserves_and_applies_witness:
  "json_at (JObj (merge_context_constraints [(''a'', JObj [(''b'', JInt 1), (''c'', JInt 2)])]
      [(''a'', JObj [(''c'', JNull)])])) [''a'', ''b''] = Some (JInt 1)
   \<and> json_at (JObj (merge_context_constraints [(''a'', JObj [(''b'', JInt 1), (''c'', JInt 2)])]
      [(''a'', JObj [(''c'', JNull)])])) [''a'', ''c''] = Some JNull"
  using merge_preserves_and_applies
      [of "[(''a'', JObj [(''b'', JInt 1), (''c'', JInt 2)])]" "[(''a'', JObj [(''c'', JNull)])]"
        "[''a'', ''b'']"]
    merge_preserves_and_applies
      [of "[(''a'', JObj [(''b'', JInt 1), (''c'', JInt 2)])]" "[(''a'', JObj [(''c'', JNull)])]"
        "[''a'', ''c'']"]
  by (simp add: sorted_keys_def json_get_def)

text \<open>
  Merging the same additions a second time changes nothing, so a retried patch is harmless.
\<close>

theorem merge_twice:
  assumes "wf_json (JObj current)" "wf_json (JObj additions)"
  shows "merge_context_constraints (merge_context_constraints current additions) additions
    = merge_context_constraints current additions"
  using merged_value_idem [of "Some (JObj current)" "JObj additions"] assms
  by (simp add: merged_value_self_obj)

theorem merge_twice_witness:
  "merge_context_constraints (merge_context_constraints [(''a'', JObj [(''b'', JInt 1)])] [(''a'', JObj [(''c'', JNull)])])
     [(''a'', JObj [(''c'', JNull)])]
   = merge_context_constraints [(''a'', JObj [(''b'', JInt 1)])] [(''a'', JObj [(''c'', JNull)])]"
  by (rule merge_twice) (simp_all add: sorted_keys_def)

end
