(* ===== verification/Criteria.thy ===== *)
theory Criteria
  imports Json
begin

text \<open>
  The completion criteria of a working context (\<open>morrows-core/src/completion.rs\<close>): every
  item of the two declared keys becomes a criterion bound to its JSON pointer. The pointer
  syntax of RFC 6901 is written down as a specification, to state that the generated paths
  resolve to exactly the requirement they name.
\<close>

subsection \<open>Decimal numerals\<close>

text \<open>\<open>Display\<close> of \<open>usize\<close>.\<close>

fun show_nat :: "nat \<Rightarrow> string" where
  "show_nat n = (if n < 10 then [char_of (48 + n)]
                 else show_nat (n div 10) @ [char_of (48 + n mod 10)])"

declare show_nat.simps [simp del]

fun read_digits :: "string \<Rightarrow> nat \<Rightarrow> nat option" where
  "read_digits [] acc = Some acc"
| "read_digits (c # cs) acc =
     (let d = of_char c :: nat in
      if 48 \<le> d \<and> d \<le> 57 then read_digits cs (10 * acc + (d - 48)) else None)"

lemma read_digits_append:
  "read_digits (xs @ ys) acc =
     (case read_digits xs acc of None \<Rightarrow> None | Some a \<Rightarrow> read_digits ys a)"
  by (induction xs arbitrary: acc) (auto simp: Let_def)

lemma read_show_nat: "read_digits (show_nat n) 0 = Some n"
proof (induction n rule: show_nat.induct)
  case (1 n)
  show ?case
  proof (cases "n < 10")
    case True
    then show ?thesis by (subst show_nat.simps) (simp add: Let_def)
  next
    case False
    with 1 show ?thesis by (subst show_nat.simps) (simp add: read_digits_append Let_def)
  qed
qed

lemma show_nat_inj: "show_nat m = show_nat n \<Longrightarrow> m = n"
  by (metis read_show_nat option.inject)

lemma show_nat_digits: "c \<in> set (show_nat n) \<Longrightarrow> 48 \<le> (of_char c :: nat) \<and> (of_char c :: nat) \<le> 57"
proof (induction n rule: show_nat.induct)
  case (1 n)
  show ?case
  proof (cases "n < 10")
    case True
    with 1 show ?thesis by (auto simp: show_nat.simps [of n])
  next
    case False
    with 1 show ?thesis by (auto simp: show_nat.simps [of n])
  qed
qed

lemma show_nat_no_leading_zero: "10 \<le> n \<Longrightarrow> hd (show_nat n) \<noteq> CHR ''0''"
proof (induction n rule: show_nat.induct)
  case (1 n)
  have ne: "show_nat m \<noteq> []" for m by (subst show_nat.simps) simp
  show ?case
  proof (cases "n div 10 < 10")
    case True
    with 1 have "show_nat (n div 10) = [char_of (48 + n div 10)]" "0 < n div 10"
      by (simp_all add: show_nat.simps [of "n div 10"] div_greater_zero_iff)
    moreover have "char_of (48 + n div 10) \<noteq> CHR ''0''"
    proof
      assume "char_of (48 + n div 10) = CHR ''0''"
      then have "(of_char (char_of (48 + n div 10)) :: nat) = of_char CHR ''0''" by simp
      with True \<open>0 < n div 10\<close> show False by simp
    qed
    ultimately show ?thesis using 1 by (simp add: show_nat.simps [of n])
  next
    case False
    with 1 ne show ?thesis by (simp add: show_nat.simps [of n])
  qed
qed

lemma show_nat_nonempty: "show_nat n \<noteq> []"
  by (subst show_nat.simps) simp

lemma show_nat_small: "n < 10 \<Longrightarrow> show_nat n = [char_of (48 + n)]"
  by (simp add: show_nat.simps)

subsection \<open>JSON pointers\<close>

text \<open>\<open>name.replace('~', "~0").replace('/', "~1")\<close>.\<close>

definition replace_char :: "char \<Rightarrow> string \<Rightarrow> string \<Rightarrow> string" where
  "replace_char c r s = concat (map (\<lambda>x. if x = c then r else [x]) s)"

definition escape_token :: "string \<Rightarrow> string" where
  "escape_token name = replace_char (CHR ''/'') ''~1'' (replace_char (CHR ''~'') ''~0'' name)"

fun unescape_token :: "string \<Rightarrow> string" where
  "unescape_token [] = []"
| "unescape_token [c] = [c]"
| "unescape_token (c # d # cs) =
     (if c = CHR ''~'' \<and> d = CHR ''0'' then CHR ''~'' # unescape_token cs
      else if c = CHR ''~'' \<and> d = CHR ''1'' then CHR ''/'' # unescape_token cs
      else c # unescape_token (d # cs))"

lemma escape_token_simps:
  "escape_token [] = []"
  "escape_token (c # cs) =
     (if c = CHR ''~'' then ''~0'' else if c = CHR ''/'' then ''~1'' else [c]) @ escape_token cs"
  by (auto simp: escape_token_def replace_char_def)

lemma unescape_other: "c \<noteq> CHR ''~'' \<Longrightarrow> unescape_token (c # cs) = c # unescape_token cs"
  by (cases cs) auto

lemma unescape_escape: "unescape_token (escape_token s) = s"
  by (induction s) (auto simp: escape_token_simps unescape_other)

lemma escape_token_no_slash: "CHR ''/'' \<notin> set (escape_token s)"
  by (induction s) (auto simp: escape_token_simps)

lemma escape_token_inj: "escape_token s = escape_token t \<Longrightarrow> s = t"
  by (metis unescape_escape)

text \<open>RFC 6901: an array index is \<open>0\<close> or digits without a leading zero.\<close>

definition array_index :: "string \<Rightarrow> nat option" where
  "array_index t =
     (if t = [] \<or> (hd t = CHR ''0'' \<and> length t \<noteq> 1) then None else read_digits t 0)"

definition step_token :: "json \<Rightarrow> string \<Rightarrow> json option" where
  "step_token v t =
     (case v of
        JObj m \<Rightarrow> map_of m (unescape_token t)
      | JArr vs \<Rightarrow>
          (case array_index t of
             None \<Rightarrow> None
           | Some i \<Rightarrow> if i < length vs then Some (vs ! i) else None)
      | _ \<Rightarrow> None)"

fun walk_tokens :: "json \<Rightarrow> string list \<Rightarrow> json option" where
  "walk_tokens v [] = Some v"
| "walk_tokens v (t # ts) = (case step_token v t of None \<Rightarrow> None | Some w \<Rightarrow> walk_tokens w ts)"

definition rfc6901 :: "json \<Rightarrow> string \<Rightarrow> json option" where
  "rfc6901 v path =
     (case split_on (CHR ''/'') path of
        [] # ts \<Rightarrow> walk_tokens v ts
      | _ \<Rightarrow> None)"

lemma array_index_show_nat: "array_index (show_nat n) = Some n"
proof (cases "n < 10")
  case True
  then show ?thesis using read_show_nat [of n] by (simp add: array_index_def show_nat_small)
next
  case False
  then show ?thesis
    using read_show_nat [of n] show_nat_no_leading_zero [of n] show_nat_nonempty [of n]
    by (simp add: array_index_def)
qed

lemma split_on_no_sep: "c \<notin> set s \<Longrightarrow> split_on c s = [s]"
  by (induction s) auto

lemma split_on_append_sep:
  "c \<notin> set s \<Longrightarrow> split_on c (s @ c # t) = s # split_on c t"
  by (induction s) auto

subsection \<open>Completion criteria\<close>

record completion_criterion =
  cc_path :: string
  cc_requirement :: json

definition criteria_keys :: "string list" where
  "criteria_keys = [''acceptance_criteria'', ''freeze_requires'']"

definition criteria_entries :: "string \<Rightarrow> json \<Rightarrow> (string \<times> json) list" where
  "criteria_entries key v =
     (case v of
        JArr items \<Rightarrow>
          map (\<lambda>(i, w). (''/'' @ key @ ''/'' @ show_nat i, w)) (enumerate 0 items)
      | JObj items \<Rightarrow>
          map (\<lambda>(name, w). (''/'' @ key @ ''/'' @ escape_token name, w)) items
      | JNull \<Rightarrow> []
      | JStr t \<Rightarrow> if blank t then [] else [(''/'' @ key, v)]
      | _ \<Rightarrow> [(''/'' @ key, v)])"

definition criteria_of_key :: "json \<Rightarrow> string \<Rightarrow> completion_criterion list" where
  "criteria_of_key constraints key =
     (case json_get constraints key of
        None \<Rightarrow> []
      | Some v \<Rightarrow>
          map (\<lambda>e. \<lparr>cc_path = fst e, cc_requirement = snd e\<rparr>) (criteria_entries key v))"

definition completion_criteria :: "json \<Rightarrow> completion_criterion list" where
  "completion_criteria constraints = concat (map (criteria_of_key constraints) criteria_keys)"

text \<open>\<open>value_is_empty\<close> (\<open>morrows-store/src/intake.rs\<close>).\<close>

fun value_is_empty :: "json \<Rightarrow> bool" where
  "value_is_empty JNull = True"
| "value_is_empty (JStr s) = blank s"
| "value_is_empty (JArr a) = (a = [])"
| "value_is_empty (JObj m) = (m = [])"
| "value_is_empty _ = False"

lemma criteria_keys_no_slash: "key \<in> set criteria_keys \<Longrightarrow> CHR ''/'' \<notin> set key"
  by (auto simp: criteria_keys_def)

lemma rfc6901_key:
  "CHR ''/'' \<notin> set key \<Longrightarrow> rfc6901 v (''/'' @ key) = step_token v key"
  by (simp add: rfc6901_def split_on_no_sep split: option.splits)

lemma rfc6901_two:
  assumes "CHR ''/'' \<notin> set key" "CHR ''/'' \<notin> set t"
  shows "rfc6901 v (''/'' @ key @ ''/'' @ t)
       = (case step_token v key of None \<Rightarrow> None | Some w \<Rightarrow> step_token w t)"
  using assms
  by (simp add: rfc6901_def split_on_append_sep split_on_no_sep split: option.splits)

lemma show_nat_no_slash: "CHR ''/'' \<notin> set (show_nat n)"
  using show_nat_digits [of "CHR ''/''" n] by auto

lemma unescape_no_tilde: "CHR ''~'' \<notin> set s \<Longrightarrow> unescape_token s = s"
  by (induction s) (auto simp: unescape_other)

lemma criteria_keys_no_tilde: "key \<in> set criteria_keys \<Longrightarrow> CHR ''~'' \<notin> set key"
  by (auto simp: criteria_keys_def)

lemma criteria_entries_resolve:
  assumes key: "key \<in> set criteria_keys" and get: "json_get constraints key = Some v"
    and wf: "wf_json constraints" and entry: "(path, requirement) \<in> set (criteria_entries key v)"
  shows "rfc6901 constraints path = Some requirement"
proof -
  note ns = criteria_keys_no_slash [OF key]
  from get obtain m where m: "constraints = JObj m" "map_of m key = Some v"
    by (cases constraints) (auto simp: json_get_def)
  then have step: "step_token constraints key = Some v"
    by (simp add: step_token_def unescape_no_tilde criteria_keys_no_tilde [OF key])
  have wfv: "wf_json v" using wf_json_get wf m by blast
  show ?thesis
  proof (cases v)
    case (JArr items)
    with entry obtain i where i: "i < length items" "requirement = items ! i"
        "path = ''/'' @ key @ ''/'' @ show_nat i"
      by (auto simp: criteria_entries_def in_set_enumerate_eq)
    then show ?thesis
      using rfc6901_two [OF ns show_nat_no_slash] step JArr
      by (simp add: step_token_def array_index_show_nat)
  next
    case (JObj items)
    with entry obtain name where n: "(name, requirement) \<in> set items"
        "path = ''/'' @ key @ ''/'' @ escape_token name"
      by (auto simp: criteria_entries_def)
    from wfv JObj have "map_of items name = Some requirement"
      using n(1) by (simp add: sorted_keys_distinct map_of_eq_Some_iff)
    with n show ?thesis
      using rfc6901_two [OF ns escape_token_no_slash] step JObj
      by (simp add: step_token_def unescape_escape)
  qed (use entry step rfc6901_key [OF ns] in \<open>auto simp: criteria_entries_def split: if_splits\<close>)
qed

lemma in_criteria_of_key:
  "c \<in> set (criteria_of_key constraints key) \<longleftrightarrow>
     (\<exists>v. json_get constraints key = Some v
        \<and> (cc_path c, cc_requirement c) \<in> set (criteria_entries key v))"
  by (cases c) (force simp: criteria_of_key_def split: option.splits)

lemma distinct_criteria_entries:
  assumes "wf_json v"
  shows "distinct (map fst (criteria_entries key v))"
proof (cases v)
  case (JArr items)
  have "distinct (map (\<lambda>p. ''/'' @ key @ ''/'' @ show_nat (fst p)) (enumerate 0 items))"
    by (auto simp: distinct_map inj_on_def in_set_enumerate_eq distinct_enumerate dest!: show_nat_inj)
  with JArr show ?thesis by (simp add: criteria_entries_def comp_def case_prod_beta)
next
  case (JObj items)
  with assms have "distinct (map fst items)" by (simp add: sorted_keys_distinct)
  then have "distinct (map (\<lambda>p. ''/'' @ key @ ''/'' @ escape_token (fst p)) items)"
    by (auto simp: distinct_map inj_on_def dest!: escape_token_inj)
  with JObj show ?thesis by (simp add: criteria_entries_def comp_def case_prod_beta)
qed (auto simp: criteria_entries_def)

lemma criteria_entries_prefix:
  "p \<in> fst ` set (criteria_entries key v) \<Longrightarrow> starts_with (''/'' @ key) p"
  by (cases v) (auto simp: criteria_entries_def starts_with_def split: if_splits)

lemma criteria_resolve:
  assumes "wf_json constraints" "c \<in> set (completion_criteria constraints)"
  shows "rfc6901 constraints (cc_path c) = Some (cc_requirement c)"
  using assms(2) criteria_entries_resolve [OF _ _ assms(1)]
  unfolding completion_criteria_def set_concat set_map
  by (auto simp: in_criteria_of_key)

text \<open>
  The path of every completion criterion is a JSON pointer that resolves, in the very
  constraints it was generated from, to the criterion's requirement.
\<close>
theorem completion_criteria_resolve:
  assumes "wf_json constraints" "c \<in> set (completion_criteria constraints)"
  shows "rfc6901 constraints (cc_path c) = Some (cc_requirement c)"
  using assms by (rule criteria_resolve)

theorem completion_criteria_resolve_witness:
  "let constraints = JObj [(''acceptance_criteria'', JObj [(''a/b'', JStr ''x''), (''c~d'', JInt 1)]),
                           (''freeze_requires'', JArr [JBool True])]
   in map cc_path (completion_criteria constraints)
        = [''/acceptance_criteria/a~1b'', ''/acceptance_criteria/c~0d'', ''/freeze_requires/0'']
      \<and> (\<forall>c \<in> set (completion_criteria constraints).
           rfc6901 constraints (cc_path c) = Some (cc_requirement c))"
proof -
  let ?c = "JObj [(''acceptance_criteria'', JObj [(''a/b'', JStr ''x''), (''c~d'', JInt 1)]),
                  (''freeze_requires'', JArr [JBool True])]"
  have wf: "wf_json ?c" by (simp add: sorted_keys_def)
  have "map cc_path (completion_criteria ?c)
        = [''/acceptance_criteria/a~1b'', ''/acceptance_criteria/c~0d'', ''/freeze_requires/0'']"
    by code_simp
  with completion_criteria_resolve [OF wf] show ?thesis by (simp add: Let_def)
qed

lemma distinct_paths:
  assumes "wf_json constraints"
  shows "distinct (map cc_path (completion_criteria constraints))"
proof -
  let ?part = "\<lambda>key. map cc_path (criteria_of_key constraints key)"
  have part: "?part key = (case json_get constraints key of None \<Rightarrow> []
      | Some v \<Rightarrow> map fst (criteria_entries key v))" for key
    by (simp add: criteria_of_key_def comp_def split: option.splits)
  have dist: "distinct (?part key)" for key
    using assms distinct_criteria_entries wf_json_get unfolding part
    by (auto simp: json_get_def split: option.splits json.splits)
  have hd_key: "p ! 1 = hd key" if "p \<in> set (?part key)" "key \<noteq> []" for p key
  proof -
    from that(1) have "starts_with (''/'' @ key) p"
      unfolding part using criteria_entries_prefix by (auto split: option.splits)
    with that(2) show ?thesis by (cases key) (auto elim!: starts_withE)
  qed
  have "False" if "p \<in> set (?part ''acceptance_criteria'')" "p \<in> set (?part ''freeze_requires'')" for p
  proof -
    from hd_key [OF that(1)] hd_key [OF that(2)] have "CHR ''a'' = CHR ''f''" by simp
    then show False by simp
  qed
  then have "set (?part ''acceptance_criteria'') \<inter> set (?part ''freeze_requires'') = {}"
    by blast
  with dist [of "''acceptance_criteria''"] dist [of "''freeze_requires''"] show ?thesis
    unfolding completion_criteria_def criteria_keys_def by simp
qed

text \<open>
  No two criteria of one context share a path, so a completion report that names a path
  names one criterion.
\<close>
theorem completion_criteria_paths_distinct:
  assumes "wf_json constraints"
  shows "distinct (map cc_path (completion_criteria constraints))"
  using assms by (rule distinct_paths)

theorem completion_criteria_paths_distinct_witness:
  "distinct (map cc_path (completion_criteria
     (JObj [(''freeze_requires'', JArr [JBool True, JBool True])])))"
  by (rule completion_criteria_paths_distinct) (simp add: sorted_keys_def)

end
