(* ===== verification/Domain.thy ===== *)
theory Domain
  imports Criteria
begin

text \<open>
  The domain types of \<open>morrows-core\<close>: task states and assignment modes with their text
  forms, the acceptance contract and its validation, and the bounded pages list queries return.
\<close>

subsection \<open>Task states and assignment modes\<close>

datatype task_state = Backlog | Ready | InProgress | Review | Blocked | Done | Cancelled

fun task_state_display :: "task_state \<Rightarrow> string" where
  "task_state_display Backlog = ''backlog''"
| "task_state_display Ready = ''ready''"
| "task_state_display InProgress = ''in_progress''"
| "task_state_display Review = ''review''"
| "task_state_display Blocked = ''blocked''"
| "task_state_display Done = ''done''"
| "task_state_display Cancelled = ''cancelled''"

definition task_state_from_str :: "string \<Rightarrow> task_state res" where
  "task_state_from_str s =
     (if s = ''backlog'' then Inr Backlog
      else if s = ''ready'' then Inr Ready
      else if s = ''in_progress'' then Inr InProgress
      else if s = ''review'' then Inr Review
      else if s = ''blocked'' then Inr Blocked
      else if s = ''done'' then Inr Done
      else if s = ''cancelled'' then Inr Cancelled
      else Inl (InvalidState s))"

datatype assignment_mode = Open | Approval | Dispatch

fun assignment_mode_display :: "assignment_mode \<Rightarrow> string" where
  "assignment_mode_display Open = ''open''"
| "assignment_mode_display Approval = ''approval''"
| "assignment_mode_display Dispatch = ''dispatch''"

definition assignment_mode_from_str :: "string \<Rightarrow> assignment_mode res" where
  "assignment_mode_from_str s =
     (if s = ''open'' then Inr Open
      else if s = ''approval'' then Inr Approval
      else if s = ''dispatch'' then Inr Dispatch
      else Inl (InvalidInput (''invalid assignment mode '' @ [CHR 0x27] @ s @ [CHR 0x27]
                              @ ''; expected open, approval, or dispatch'')))"

lemma task_state_from_display [simp]: "task_state_from_str (task_state_display st) = Inr st"
  by (cases st) (simp_all add: task_state_from_str_def)

lemma assignment_mode_from_display [simp]:
  "assignment_mode_from_str (assignment_mode_display m) = Inr m"
  by (cases m) (simp_all add: assignment_mode_from_str_def)

lemma task_state_from_str_iff:
  "task_state_from_str s = Inr st \<longleftrightarrow> s = task_state_display st"
  by (cases st) (auto simp: task_state_from_str_def)

lemma assignment_mode_from_str_iff:
  "assignment_mode_from_str s = Inr m \<longleftrightarrow> s = assignment_mode_display m"
  by (cases m) (auto simp: assignment_mode_from_str_def)

text \<open>
  C20. The text form of a task state or an assignment mode reads back as the same value, and
  no other text reads as that value.
\<close>
theorem state_and_mode_roundtrip:
  "(task_state_from_str s = Inr st \<longleftrightarrow> s = task_state_display st)
   \<and> (assignment_mode_from_str s = Inr m \<longleftrightarrow> s = assignment_mode_display m)"
  by (simp add: task_state_from_str_iff assignment_mode_from_str_iff)

subsection \<open>The acceptance contract\<close>

datatype verification_mode =
  SelfAttested | DeterministicCheck | ArtifactCheck | IndependentReview | HumanReview

record artifact_check =
  ac_path :: string
  ac_machine :: string

record acceptance_check =
  ck_command :: string
  ck_machine :: string
  ck_cwd :: string
  ck_read_only :: bool
  ck_timeout_s :: int

record acceptance_criterion =
  cr_id :: string
  cr_requirement :: string
  cr_verification :: verification_mode
  cr_allow_not_applicable :: bool
  cr_requires_independent_review :: bool
  cr_required_artifact_kinds :: "string list"
  cr_check :: "acceptance_check option"
  cr_artifact_check :: "artifact_check option"
  cr_legacy_path :: "string option"

definition is_ascii_alphanumeric :: "char \<Rightarrow> bool" where
  "is_ascii_alphanumeric c \<longleftrightarrow>
     (let n = of_char c :: nat in
      48 \<le> n \<and> n \<le> 57 \<or> 65 \<le> n \<and> n \<le> 90 \<or> 97 \<le> n \<and> n \<le> 122)"

text \<open>The three checks of one criterion, in the order of the loop body.\<close>

definition validate_identity :: "string list \<Rightarrow> acceptance_criterion \<Rightarrow> unit res" where
  "validate_identity ids c =
     (if cr_id c = [] \<or> 100 < length (cr_id c)
         \<or> \<not> list_all (\<lambda>v. is_ascii_alphanumeric v \<or> v \<in> set ''-_.'') (cr_id c)
         \<or> cr_id c \<in> set ids
         \<or> blank (cr_requirement c)
      then Inl (InvalidInput ''criteria need unique stable IDs and nonempty requirements'')
      else if cr_legacy_path c \<noteq> None
      then Inl (InvalidInput ''legacy_path is reserved for migration'')
      else Inr ())"

definition validate_artifact_check :: "acceptance_criterion \<Rightarrow> unit res" where
  "validate_artifact_check c =
     (if cr_verification c = ArtifactCheck then
        (case cr_artifact_check c of
           None \<Rightarrow> Inl (InvalidInput ''artifact_check requires path and machine'')
         | Some a \<Rightarrow>
             ensure (starts_with ''/'' (ac_path a) \<and> \<not> blank (ac_machine a))
               (InvalidInput ''artifact check requires absolute path and machine''))
      else ensure (cr_artifact_check c = None)
             (InvalidInput ''artifact_check only applies to artifact verification''))"

definition validate_deterministic_check :: "acceptance_criterion \<Rightarrow> unit res" where
  "validate_deterministic_check c =
     (if cr_verification c = DeterministicCheck then
        (case cr_check c of
           None \<Rightarrow> Inl (InvalidInput ''deterministic_check requires check'')
         | Some k \<Rightarrow>
             if \<not> ck_read_only k \<or> blank (ck_command k) \<or> 8192 < length (ck_command k)
                \<or> blank (ck_machine k) \<or> \<not> starts_with ''/'' (ck_cwd k)
                \<or> \<not> (1 \<le> ck_timeout_s k \<and> ck_timeout_s k \<le> 30)
             then Inl (InvalidInput ''checks require a read-only command, machine, absolute cwd and timeout 1..30 seconds'')
             else Inr ())
      else ensure (cr_check c = None) (InvalidInput ''check only applies to deterministic_check''))"

fun validate_each :: "string list \<Rightarrow> acceptance_criterion list \<Rightarrow> unit res" where
  "validate_each ids [] = Inr ()"
| "validate_each ids (c # cs) =
     bind_res (validate_identity ids c) (\<lambda>_.
     bind_res (validate_artifact_check c) (\<lambda>_.
     bind_res (validate_deterministic_check c) (\<lambda>_.
     validate_each (cr_id c # ids) cs)))"

definition validate_acceptance :: "acceptance_criterion list \<Rightarrow> unit res" where
  "validate_acceptance criteria =
     (if 100 < length criteria then Inl (InvalidInput ''at most 100 criteria'')
      else validate_each [] criteria)"

text \<open>What an acceptance contract promises: the specification the validation decides.\<close>

definition stable_id :: "string \<Rightarrow> bool" where
  "stable_id s \<longleftrightarrow> s \<noteq> [] \<and> length s \<le> 100
     \<and> (\<forall>v \<in> set s. is_ascii_alphanumeric v \<or> v \<in> set ''-_.'')"

definition runnable_check :: "acceptance_check \<Rightarrow> bool" where
  "runnable_check k \<longleftrightarrow> ck_read_only k \<and> \<not> blank (ck_command k) \<and> length (ck_command k) \<le> 8192
     \<and> \<not> blank (ck_machine k) \<and> starts_with ''/'' (ck_cwd k) \<and> ck_timeout_s k \<in> {1..30}"

definition well_formed_criterion :: "acceptance_criterion \<Rightarrow> bool" where
  "well_formed_criterion c \<longleftrightarrow>
     stable_id (cr_id c) \<and> \<not> blank (cr_requirement c) \<and> cr_legacy_path c = None
     \<and> (case cr_artifact_check c of
          None \<Rightarrow> cr_verification c \<noteq> ArtifactCheck
        | Some a \<Rightarrow> cr_verification c = ArtifactCheck
            \<and> starts_with ''/'' (ac_path a) \<and> \<not> blank (ac_machine a))
     \<and> (case cr_check c of
          None \<Rightarrow> cr_verification c \<noteq> DeterministicCheck
        | Some k \<Rightarrow> cr_verification c = DeterministicCheck \<and> runnable_check k)"

lemma validate_one:
  "validate_identity ids c = Inr () \<and> validate_artifact_check c = Inr ()
     \<and> validate_deterministic_check c = Inr ()
   \<longleftrightarrow> well_formed_criterion c \<and> cr_id c \<notin> set ids"
  by (auto simp: validate_identity_def validate_artifact_check_def validate_deterministic_check_def
      well_formed_criterion_def stable_id_def runnable_check_def list_all_iff not_less not_le ensure_def
      split: option.splits if_splits)

lemma validate_each_iff:
  "validate_each ids cs = Inr () \<longleftrightarrow>
     (\<forall>c \<in> set cs. well_formed_criterion c) \<and> distinct (map cr_id cs)
     \<and> set (map cr_id cs) \<inter> set ids = {}"
proof (induction cs arbitrary: ids)
  case Nil
  then show ?case by simp
next
  case (Cons c cs)
  have "validate_each ids (c # cs) = Inr () \<longleftrightarrow>
      (well_formed_criterion c \<and> cr_id c \<notin> set ids) \<and> validate_each (cr_id c # ids) cs = Inr ()"
    unfolding validate_one [symmetric] by (simp add: res_simps) 
  with Cons.IH [of "cr_id c # ids"] show ?case by auto
qed

text \<open>
  Validation accepts a contract exactly when it has at most 100 criteria, every criterion
  is well formed on its own, and no two criteria share an identifier.
\<close>
theorem validate_acceptance_iff:
  "validate_acceptance criteria = Inr () \<longleftrightarrow>
     length criteria \<le> 100 \<and> (\<forall>c \<in> set criteria. well_formed_criterion c)
     \<and> distinct (map cr_id criteria)"
  by (auto simp: validate_acceptance_def validate_each_iff)

definition example_contract :: "acceptance_criterion list" where
  "example_contract =
     [\<lparr>cr_id = ''builds'', cr_requirement = ''r'', cr_verification = DeterministicCheck,
       cr_allow_not_applicable = False, cr_requires_independent_review = False,
       cr_required_artifact_kinds = [],
       cr_check = Some \<lparr>ck_command = ''make'', ck_machine = ''m'', ck_cwd = ''/repo'', ck_read_only = True,
         ck_timeout_s = 30\<rparr>,
       cr_artifact_check = None, cr_legacy_path = None\<rparr>]"

theorem validate_acceptance_iff_witness:
  "validate_acceptance example_contract = Inr ()
   \<and> validate_acceptance (example_contract @ example_contract) \<noteq> Inr ()"
proof -
  have "\<forall>c \<in> set example_contract. well_formed_criterion c" by code_simp
  with validate_acceptance_iff [of example_contract] validate_acceptance_iff [of "example_contract @ example_contract"]
  show ?thesis by (simp add: example_contract_def)
qed

text \<open>
  \<open>import_legacy_acceptance\<close>: every completion criterion of a context becomes a
  self-attested criterion. \<open>render\<close> stands for serde\_json's rendering of a value.
\<close>

definition import_legacy_acceptance :: "(json \<Rightarrow> string) \<Rightarrow> json \<Rightarrow> acceptance_criterion list" where
  "import_legacy_acceptance render constraints =
     map (\<lambda>(i, c).
       \<lparr>cr_id = ''legacy-'' @ show_nat (i + 1),
        cr_requirement = (case cc_requirement c of JStr s \<Rightarrow> s | v \<Rightarrow> render v),
        cr_verification = SelfAttested,
        cr_allow_not_applicable = False,
        cr_requires_independent_review = False,
        cr_required_artifact_kinds = [],
        cr_check = None,
        cr_artifact_check = None,
        cr_legacy_path = Some (cc_path c)\<rparr>)
       (enumerate 0 (completion_criteria constraints))"

text \<open>
  The imported criteria are pairwise distinct by identifier and by the context path they
  keep, and each path resolves in the context they were imported from.
\<close>
theorem import_legacy_distinct:
  assumes "wf_json constraints"
  shows "distinct (map cr_id (import_legacy_acceptance render constraints))
       \<and> distinct (map cr_legacy_path (import_legacy_acceptance render constraints))
       \<and> (\<forall>c \<in> set (import_legacy_acceptance render constraints).
            \<exists>path v. cr_legacy_path c = Some path \<and> rfc6901 constraints path = Some v)"
proof -
  let ?cs = "completion_criteria constraints"
  let ?legacy = "\<lambda>i. ''legacy-'' @ show_nat (i + 1)"
  have "map cr_id (import_legacy_acceptance render constraints) = map ?legacy (map fst (enumerate 0 ?cs))"
    unfolding import_legacy_acceptance_def map_map by (simp add: comp_def case_prod_beta del: map_fst_enumerate)
  moreover have "distinct (map ?legacy [0..<length ?cs])"
    by (auto simp: distinct_map inj_on_def dest!: show_nat_inj)
  moreover have "map cr_legacy_path (import_legacy_acceptance render constraints)
      = map Some (map cc_path (map snd (enumerate 0 ?cs)))"
    unfolding import_legacy_acceptance_def map_map by (simp add: comp_def case_prod_beta del: map_snd_enumerate)
  moreover have "distinct (map Some (map cc_path ?cs))"
    using distinct_paths [OF assms] by (subst distinct_map) simp
  moreover have "\<exists>path v. cr_legacy_path c = Some path \<and> rfc6901 constraints path = Some v"
    if "c \<in> set (import_legacy_acceptance render constraints)" for c
    using that criteria_resolve [OF assms]
    by (auto simp: import_legacy_acceptance_def in_set_enumerate_eq)
  ultimately show ?thesis
    by (simp only: map_fst_enumerate map_snd_enumerate add_0) blast
qed

theorem import_legacy_distinct_witness:
  "distinct (map cr_id (import_legacy_acceptance (\<lambda>_. ''-'')
     (JObj [(''acceptance_criteria'', JArr [JStr ''a'', JInt 2])])))"
  using import_legacy_distinct [of "JObj [(''acceptance_criteria'', JArr [JStr ''a'', JInt 2])]" "\<lambda>_. ''-''"]
  by (simp add: sorted_keys_def)

subsection \<open>Pages\<close>

record 'a page =
  pg_items :: "'a list"
  pg_next_offset :: "int option"

text \<open>
  \<open>Page::from_extra_row\<close>: the query fetched one row more than the limit. \<open>limit as usize\<close>
  reinterprets the 64 bits of the limit.
\<close>

definition as_usize :: "int \<Rightarrow> nat" where
  "as_usize i = nat (i mod 2 ^ 64)"

definition from_extra_row :: "'a list \<Rightarrow> int \<Rightarrow> int \<Rightarrow> 'a page" where
  "from_extra_row items limit offset =
     \<lparr>pg_items = take (as_usize limit) items,
      pg_next_offset = (if as_usize limit < length items then Some (offset + limit) else None)\<rparr>"

definition i64_max :: int where
  "i64_max = 2 ^ 63 - 1"

definition validate_page :: "int \<Rightarrow> int \<Rightarrow> unit res" where
  "validate_page limit offset =
     ensure (1 \<le> limit \<and> limit \<le> 100 \<and> 0 \<le> offset \<and> offset \<le> i64_max - 100)
       (InvalidInput ''limit must be 1..100 and offset must be nonnegative and below i64::MAX - 100'')"

text \<open>A list query: \<open>LIMIT limit + 1 OFFSET offset\<close> over the selected rows.\<close>

definition fetch_page :: "'a list \<Rightarrow> int \<Rightarrow> int \<Rightarrow> 'a page res" where
  "fetch_page rows limit offset =
     bind_res (validate_page limit offset) (\<lambda>_.
       Inr (from_extra_row (take (nat (limit + 1)) (drop (nat offset) rows)) limit offset))"

text \<open>A client that follows \<open>next_offset\<close> with the same limit, for at most \<open>n\<close> pages.\<close>

fun follow_pages :: "nat \<Rightarrow> 'a list \<Rightarrow> int \<Rightarrow> int \<Rightarrow> 'a list res" where
  "follow_pages 0 rows limit offset = Inl (Storage ''out of fuel'')"
| "follow_pages (Suc n) rows limit offset =
     bind_res (fetch_page rows limit offset) (\<lambda>pg.
       case pg_next_offset pg of
         None \<Rightarrow> Inr (pg_items pg)
       | Some offset' \<Rightarrow>
           bind_res (follow_pages n rows limit offset') (\<lambda>rest. Inr (pg_items pg @ rest)))"

lemma as_usize_small: "0 \<le> i \<Longrightarrow> i < 2 ^ 64 \<Longrightarrow> as_usize i = nat i"
  by (simp add: as_usize_def)

lemma validate_page_iff:
  "validate_page limit offset = Inr u \<longleftrightarrow>
     1 \<le> limit \<and> limit \<le> 100 \<and> 0 \<le> offset \<and> offset \<le> i64_max - 100"
  by (auto simp: validate_page_def res_simps)

lemma fetch_page_valid:
  assumes "1 \<le> limit" "limit \<le> 100" "0 \<le> offset" "offset \<le> i64_max - 100"
  shows "fetch_page rows limit offset =
    Inr \<lparr>pg_items = take (nat limit) (drop (nat offset) rows),
         pg_next_offset = (if nat (offset + limit) < length rows then Some (offset + limit) else None)\<rparr>"
proof -
  have "validate_page limit offset = Inr ()" using assms by (simp add: validate_page_iff)
  moreover have "min (nat limit) (nat (limit + 1)) = nat limit" using assms by simp
  ultimately show ?thesis
    using assms
    by (simp add: fetch_page_def from_extra_row_def as_usize_small nat_add_distrib min_def) linarith
qed

lemma follow_pages_all:
  assumes "1 \<le> limit" "limit \<le> 100" "0 \<le> offset" "nat offset \<le> length rows"
    and "int (length rows) \<le> i64_max - 100" and "length rows - nat offset < n"
  shows "follow_pages n rows limit offset = Inr (drop (nat offset) rows)"
  using assms
proof (induction n arbitrary: offset)
  case 0
  then show ?case by simp
next
  case (Suc n)
  then have "offset \<le> i64_max - 100" by linarith
  note pg = fetch_page_valid [OF Suc.prems(1,2,3) this, of rows]
  show ?case
  proof (cases "nat (offset + limit) < length rows")
    case True
    have "follow_pages n rows limit (offset + limit) = Inr (drop (nat (offset + limit)) rows)"
      using Suc.prems True by (intro Suc.IH) auto
    moreover have "take (nat limit) (drop (nat offset) rows) @ drop (nat (offset + limit)) rows
        = drop (nat offset) rows"
      using Suc.prems by (metis append_take_drop_id drop_drop nat_add_distrib add.commute
          order.trans zero_le_one)
    ultimately show ?thesis using True by (simp add: pg)
  next
    case False
    then have "length (drop (nat offset) rows) \<le> nat limit"
      using Suc.prems by (simp add: nat_add_distrib)
    with False show ?thesis by (simp add: pg)
  qed
qed

text \<open>
  Following \<open>next_offset\<close> with any valid limit returns every row exactly once and in
  order, after finitely many pages, and no request on the way is rejected.
\<close>
theorem follow_pages_complete:
  assumes "1 \<le> limit" "limit \<le> 100" "int (length rows) \<le> i64_max - 100"
  shows "\<exists>n. follow_pages n rows limit 0 = Inr rows"
proof
  show "follow_pages (Suc (length rows)) rows limit 0 = Inr rows"
    using follow_pages_all [of limit 0 rows "Suc (length rows)"] assms by (simp del: follow_pages.simps)
qed

theorem follow_pages_complete_witness:
  "\<exists>n. follow_pages n [1::int, 2, 3, 4, 5] 2 0 = Inr [1, 2, 3, 4, 5]"
  by (rule follow_pages_complete) (simp_all add: i64_max_def)

end
