(* ===== verification/Database.thy ===== *)
theory Database
  imports Domain
begin

text \<open>
  The SQLite database of \<open>morrows-store\<close>: one record per table (the columns the modelled
  operations read or write), the database as the record of its tables, and the statements that
  can violate a constraint. A table is a list in insertion order; JSON columns hold the value
  they serialise; the random key of an event row is not represented, an event is its position.
\<close>

subsection \<open>Event payloads\<close>

text \<open>The object \<open>json!\<close> builds for an event, in source order, with instants unrendered.\<close>

datatype pval =
    PNull
  | PStr string
  | PTime time
  | PBool bool
  | PInt int
  | PList "pval list"
  | PObj "(string \<times> pval) list"
  | PJson json

type_synonym payload = "(string \<times> pval) list"

definition p_opt :: "string option \<Rightarrow> pval" where
  "p_opt v = (case v of None \<Rightarrow> PNull | Some s \<Rightarrow> PStr s)"

definition p_time_opt :: "time option \<Rightarrow> pval" where
  "p_time_opt v = (case v of None \<Rightarrow> PNull | Some t \<Rightarrow> PTime t)"

record event =
  ev_actor_type :: string
  ev_actor_id :: string
  ev_entity_type :: string
  ev_entity_id :: id
  ev_type :: string
  ev_correlation :: "string option"
  ev_payload :: payload
  ev_created_at :: time

subsection \<open>Rows\<close>

record project_row =
  pj_id :: id
  pj_name :: string
  pj_description :: string
  pj_status :: string
  pj_created_at :: time
  pj_updated_at :: time

record task_row =
  t_id :: id
  t_project :: "id option"
  t_title :: string
  t_description :: string
  t_owner :: string
  t_state :: string
  t_mode :: string
  t_priority :: int
  t_context :: "id option"
  t_criteria :: "acceptance_criterion list"
  t_acceptance_version :: int
  t_spec_version :: int
  t_created_at :: time
  t_updated_at :: time

record agent_row =
  ag_id :: id
  ag_name :: string
  ag_status :: string
  ag_capabilities :: "string list"
  ag_heartbeat :: time
  ag_profile :: id
  ag_account :: "id option"
  ag_machine :: "id option"
  ag_display :: string
  ag_external :: "string option"
  ag_archived_at :: "time option"
  ag_created_at :: time

record profile_row =
  pf_id :: id
  pf_name :: string
  pf_provider :: string
  pf_kind :: string
  pf_capabilities :: "string list"
  pf_metadata :: json
  pf_created_at :: time
  pf_updated_at :: time

record account_row =
  au_id :: id
  au_provider :: string
  au_label :: string
  au_email :: "string option"
  au_external :: "string option"
  au_credential_kind :: "string option"
  au_credential_ref :: "string option"
  au_status :: string
  au_metadata :: json
  au_created_at :: time
  au_updated_at :: time

record machine_row =
  mc_id :: id
  mc_name :: string
  mc_hostname :: string
  mc_os :: string
  mc_arch :: string
  mc_status :: string
  mc_metadata :: json
  mc_last_seen_at :: "time option"
  mc_created_at :: time
  mc_updated_at :: time

record assignment =
  a_id :: id
  a_task :: id
  a_role :: string
  a_agent :: id
  a_status :: string
  a_phase :: string
  a_acquired_at :: time
  a_expires_at :: time
  a_renewed_at :: time
  a_released_at :: "time option"
  a_release_reason :: "string option"

record run =
  r_id :: id
  r_task :: id
  r_assignment :: id
  r_agent :: id
  r_conversation :: "string option"
  r_status :: string
  r_stop_reason :: "string option"
  r_checkpoint :: "json option"
  r_result :: "json option"
  r_started_at :: time
  r_ended_at :: "time option"

record run_context =
  rc_run :: id
  rc_context :: id
  rc_pinned_at :: time

record context_revision =
  cx_id :: id
  cx_task :: id
  cx_version :: int
  cx_parent :: "id option"
  cx_goal :: string
  cx_background :: string
  cx_constraints :: json
  cx_summary :: string
  cx_created_by :: string
  cx_created_at :: time

record job_row =
  jb_id :: id
  jb_kind :: string
  jb_attempt :: id
  jb_status :: string
  jb_available_at :: time
  jb_claimed_at :: "time option"
  jb_attempts :: int
  jb_last_error :: "string option"
  jb_created_at :: time

record launch_profile =
  lp_id :: id
  lp_name :: string
  lp_adapter :: string
  lp_agent :: id
  lp_program :: string
  lp_cwd :: "string option"
  lp_model :: "string option"
  lp_enabled :: bool
  lp_metadata :: json
  lp_created_at :: time
  lp_updated_at :: time

record launch_attempt =
  la_id :: id
  la_assignment :: id
  la_task :: id
  la_agent :: id
  la_profile :: id
  la_run :: "id option"
  la_job :: "id option"
  la_resume_from :: "id option"
  la_restart_run :: "id option"
  la_status :: string
  la_cwd :: "string option"
  la_pid :: "int option"
  la_exit_code :: "int option"
  la_stdout :: "string option"
  la_stderr :: "string option"
  la_error :: "string option"
  la_created_at :: time
  la_started_at :: "time option"
  la_ended_at :: "time option"

record runtime_binding =
  rb_run :: id
  rb_scope :: string
  rb_capability :: "string option"
  rb_restart_deadline :: "time option"
  rb_terminalized_at :: "time option"
  rb_created_at :: time
  rb_updated_at :: time

record provisioning =
  pv_run :: id
  pv_subject :: string
  pv_restart_deadline :: "time option"
  pv_created_at :: time
  pv_updated_at :: time

record job_wait =
  jw_id :: id
  jw_run :: id
  jw_machine :: string
  jw_job :: string
  jw_scope :: string
  jw_status :: string
  jw_resume_mode :: "string option"
  jw_resume_plan :: string
  jw_reason :: string
  jw_event :: "string option"
  jw_terminal_status :: "string option"
  jw_terminal_reason :: "string option"
  jw_resume_attempt :: "id option"
  jw_registered_at :: time
  jw_ready_at :: "time option"
  jw_queued_at :: "time option"

record terminal_event =
  te_id :: string
  te_job :: string
  te_machine :: string
  te_scope :: "string option"
  te_attempt :: int
  te_status :: string
  te_exit_code :: "int option"
  te_completed_at :: time
  te_reason :: string
  te_summary_ref :: "string option"
  te_result :: "json option"
  te_received_at :: time

text \<open>\<open>ob_wait\<close> is the member \<open>wait_id\<close> of the payload, by which the row is found.\<close>

record outbox_row =
  ob_id :: id
  ob_topic :: string
  ob_wait :: "id option"
  ob_payload :: payload
  ob_status :: string
  ob_created_at :: time
  ob_delivered_at :: "time option"

record adhoc_binding =
  ab_agent :: id
  ab_machine :: id
  ab_scope :: "string option"
  ab_generation :: int
  ab_created_at :: time
  ab_updated_at :: time

record assignment_request =
  ar_id :: id
  ar_task :: id
  ar_agent :: id
  ar_role :: string
  ar_reason :: string
  ar_status :: string
  ar_assignment :: "id option"
  ar_resolution :: "string option"
  ar_created_at :: time
  ar_resolved_at :: "time option"

record task_spec =
  ts_title :: string
  ts_description :: string
  ts_goal :: string
  ts_scope :: string
  ts_criteria :: "acceptance_criterion list"

record task_revision =
  tr_id :: id
  tr_task :: id
  tr_version :: int
  tr_base_version :: int
  tr_status :: string
  tr_author :: string
  tr_reason :: string
  tr_before :: task_spec
  tr_after :: task_spec
  tr_context_before :: "id option"
  tr_context_after :: "id option"
  tr_ack_run :: "id option"
  tr_ack_agent :: "id option"
  tr_ack_impact :: "string option"
  tr_ack_plan :: "string list option"
  tr_created_at :: time
  tr_resolved_at :: "time option"

datatype edge_condition = Unconditional | ResultEquals string json

record dependency =
  d_task :: id
  d_on :: id
  d_created_by :: "id option"
  d_actor :: string
  d_created_at :: time
  d_chain :: "id option"
  d_condition :: edge_condition

record collection =
  tc_id :: id
  tc_name :: string
  tc_description :: string
  tc_archived :: bool
  tc_created_at :: time
  tc_updated_at :: time
  tc_owner :: "id option"

record chain_member =
  cm_chain :: id
  cm_task :: id
  cm_join :: string

record group_member =
  gm_group :: id
  gm_task :: id

record intake =
  in_assignment :: id
  in_task :: id
  in_agent :: id
  in_project :: "id option"
  in_memory_head :: "string option"
  in_memory_next_offset :: "int option"
  in_memory_complete :: bool
  in_memory_read_at :: "time option"
  in_package :: "id option"
  in_context :: "id option"
  in_package_read_at :: "time option"
  in_understanding :: string
  in_constraints :: json
  in_plan :: json
  in_questions :: "string list"
  in_unresolved :: "string list"
  in_interview_status :: string
  in_conversation_state :: string
  in_human_response :: "string option"
  in_approved_by :: "string option"
  in_approved_at :: "time option"
  in_thread :: "id option"
  in_interview_started_at :: "time option"
  in_final_summary :: "id option"
  in_confirmation :: "id option"
  in_converged_at :: "time option"
  in_created_at :: time
  in_updated_at :: time

record takeover_receipt =
  tk_actor :: string
  tk_key :: string
  tk_task :: id
  tk_successor :: id
  tk_reason :: string
  tk_force :: bool
  tk_assignment :: id
  tk_run :: id
  tk_created_at :: time

record dispatch_policy =
  dp_task :: id
  dp_role :: string
  dp_capabilities :: "string list"
  dp_profile :: "id option"
  dp_account :: "id option"
  dp_machine :: "id option"
  dp_heartbeat_ttl :: int
  dp_capacity_ttl :: int
  dp_lease :: int
  dp_enabled :: bool
  dp_created_at :: time
  dp_updated_at :: time

record continuation_policy =
  cp_task :: id
  cp_enabled :: bool
  cp_agents :: "id list"
  cp_updated_at :: time

record capacity_snapshot =
  cs_agent :: id
  cs_status :: string
  cs_available_slots :: int
  cs_active_assignments :: int
  cs_active_runs :: int
  cs_max_concurrency :: "int option"
  cs_quota_state :: "string option"
  cs_observed_at :: time

record dispatch_candidate =
  dc_agent :: id
  dc_name :: string
  dc_eligible :: bool
  dc_slots :: int
  dc_active :: int
  dc_heartbeat_age :: int
  dc_capacity_age :: "int option"
  dc_capacity_status :: "string option"
  dc_quota_state :: "string option"
  dc_reasons :: "string list"

record dispatch_preview =
  dv_task :: id
  dv_role :: string
  dv_policy :: dispatch_policy
  dv_dispatchable :: bool
  dv_reasons :: "string list"
  dv_candidates :: "dispatch_candidate list"
  dv_selected :: "id option"

record dispatch_decision_row =
  dd_id :: id
  dd_task :: id
  dd_role :: string
  dd_outcome :: string
  dd_selected :: "id option"
  dd_assignment :: "id option"
  dd_preview :: dispatch_preview
  dd_created_at :: time

record scheduler_settings =
  ss_role :: string
  ss_enabled :: bool
  ss_interval :: int
  ss_auto_launch :: bool
  ss_created_at :: time
  ss_updated_at :: time

record memory_row =
  me_id :: id
  me_scope :: string
  me_project :: "id option"
  me_agent :: "id option"
  me_task :: "id option"
  me_visibility :: string
  me_supersedes :: "id option"

record publication =
  pb_agent :: id
  pb_key :: string
  pb_memory :: id
  pb_task :: id

record git_domain =
  gd_domain :: id
  gd_backend :: string

record git_operation =
  go_domain :: id
  go_kind :: string
  go_actor :: "string option"
  go_key :: "string option"
  go_state :: string
  go_created_at :: time

record artifact_row =
  af_id :: id
  af_task :: id
  af_kind :: string
  af_uri :: string
  af_title :: string
  af_description :: string
  af_created_by :: id
  af_created_at :: time

record decision_row =
  dn_id :: id
  dn_task :: id
  dn_title :: string
  dn_rationale :: string
  dn_created_by :: id
  dn_created_at :: time

text \<open>\<open>CreateRunMilestone\<close> and \<open>CreateHandoff\<close>, the documents of the columns \<open>content_json\<close>.\<close>

record milestone_input =
  mi_kind :: string
  mi_summary :: string
  mi_completed :: "string list"
  mi_verified :: "string list"
  mi_remaining :: "string list"
  mi_blockers :: "string list"
  mi_next_step :: string
  mi_next_plan :: "string list"
  mi_locations :: "string list"
  mi_artifacts :: "string list"
  mi_decisions :: "string list"

record milestone_row =
  ml_id :: id
  ml_run :: id
  ml_task :: id
  ml_created_by :: id
  ml_sequence :: int
  ml_context :: "id option"
  ml_content :: milestone_input
  ml_created_at :: time

record handoff_input =
  hi_milestone :: "string option"
  hi_summary :: string
  hi_completed :: "string list"
  hi_remaining :: "string list"
  hi_blockers :: "string list"
  hi_artifacts :: "string list"
  hi_decisions :: "string list"

record handoff_row =
  ho_id :: id
  ho_task :: id
  ho_run :: id
  ho_status :: string
  ho_accepted_by :: "id option"
  ho_created_by :: id
  ho_context :: id
  ho_milestone :: "id option"
  ho_content :: handoff_input
  ho_created_at :: time

text \<open>
  The instants inside \<open>detail_json\<close> are the column \<open>vr_finished_at\<close>; the rest of the document
  is \<open>vr_detail\<close>.
\<close>

record receipt =
  vr_id :: id
  vr_task :: id
  vr_run :: id
  vr_reviewer :: "id option"
  vr_criterion :: string
  vr_version :: int
  vr_context :: "id option"
  vr_kind :: string
  vr_verdict :: string
  vr_detail :: "(string \<times> json) list"
  vr_finished_at :: "time option"
  vr_created_at :: time

record completion_record =
  co_id :: id
  co_task :: id
  co_run :: id
  co_version :: int
  co_context :: "id option"
  co_verdicts :: "(string \<times> string) list"
  co_created_at :: time

record context_package_row =
  pk_id :: id
  pk_task :: id
  pk_context :: "id option"
  pk_created_at :: time

record thread_row =
  th_id :: id
  th_task :: id
  th_kind :: string
  th_target :: "id option"
  th_created_by :: "id option"
  th_title :: string
  th_created_at :: time

record message_row =
  ms_id :: id
  ms_thread :: id
  ms_author_type :: string
  ms_created_by :: "id option"
  ms_body :: string
  ms_status :: string
  ms_created_at :: time
  ms_recalled_at :: "time option"
  ms_type :: string
  ms_recipient :: "id option"
  ms_requires_response :: bool
  ms_recipient_role :: "string option"
  ms_reply_to :: "id option"
  ms_correlation :: "string option"
  ms_client :: "string option"

record delivery =
  dl_id :: id
  dl_agent :: id
  dl_task :: "id option"
  dl_kind :: string
  dl_source :: id
  dl_payload :: payload
  dl_status :: string
  dl_attempt :: "id option"
  dl_claimed_at :: "time option"
  dl_by :: "string option"
  dl_delivered_at :: "time option"
  dl_created_at :: time

record instruction =
  li_id :: id
  li_attempt :: id
  li_actor_type :: string
  li_actor :: string
  li_body :: string
  li_created_at :: time

record relationship_row =
  rl_source :: id
  rl_target :: id
  rl_type :: string
  rl_created_by :: string
  rl_metadata :: json
  rl_created_at :: time

subsection \<open>The database\<close>

record db =
  projects :: "project_row list"
  tasks :: "task_row list"
  agents :: "agent_row list"
  profiles :: "profile_row list"
  accounts :: "account_row list"
  machines :: "machine_row list"
  assignments :: "assignment list"
  runs :: "run list"
  run_contexts :: "run_context list"
  contexts :: "context_revision list"
  events :: "event list"
  jobs :: "job_row list"
  launch_profiles :: "launch_profile list"
  launch_attempts :: "launch_attempt list"
  runtime_bindings :: "runtime_binding list"
  provisionings :: "provisioning list"
  job_waits :: "job_wait list"
  terminal_events :: "terminal_event list"
  adhoc_bindings :: "adhoc_binding list"
  outbox :: "outbox_row list"
  requests :: "assignment_request list"
  revisions :: "task_revision list"
  dependencies :: "dependency list"
  task_chains :: "collection list"
  chain_members :: "chain_member list"
  task_groups :: "collection list"
  group_members :: "group_member list"
  intakes :: "intake list"
  takeovers :: "takeover_receipt list"
  policies :: "dispatch_policy list"
  continuations :: "continuation_policy list"
  capacities :: "capacity_snapshot list"
  dispatch_decisions :: "dispatch_decision_row list"
  schedulers :: "scheduler_settings list"
  memories :: "memory_row list"
  packages :: "context_package_row list"
  threads :: "thread_row list"
  messages :: "message_row list"
  artifacts :: "artifact_row list"
  publications :: "publication list"
  git_domains :: "git_domain list"
  git_operations :: "git_operation list"
  receipts :: "receipt list"
  completion_records :: "completion_record list"
  decisions :: "decision_row list"
  handoffs :: "handoff_row list"
  handoff_refs :: "(id \<times> string \<times> id) list"
  milestones :: "milestone_row list"
  milestone_refs :: "(id \<times> string \<times> id) list"
  deliveries :: "delivery list"
  instructions :: "instruction list"
  relationships :: "relationship_row list"

definition empty_db :: db where
  "empty_db = \<lparr>projects = [], tasks = [], agents = [], profiles = [], accounts = [], machines = [],
     assignments = [], runs = [],
     run_contexts = [], contexts = [], events = [], jobs = [], launch_profiles = [],
     launch_attempts = [], runtime_bindings = [], provisionings = [], job_waits = [], terminal_events = [], adhoc_bindings = [],
     outbox = [], requests = [], revisions = [], dependencies = [], task_chains = [],
     chain_members = [], task_groups = [], group_members = [], intakes = [], takeovers = [],
     policies = [], continuations = [], capacities = [], dispatch_decisions = [], schedulers = [],
     memories = [], packages = [], threads = [], messages = [], artifacts = [], publications = [], git_domains = [], git_operations = [],
     receipts = [], completion_records = [], decisions = [], handoffs = [], handoff_refs = [],
     milestones = [], milestone_refs = [], deliveries = [], instructions = [], relationships = []\<rparr>"

subsection \<open>Statements\<close>

datatype sql_error = UniqueViolation | PrimaryKeyViolation | ForeignKeyViolation | CheckViolation

text \<open>
  \<open>storage\<close> renders the driver's error; the model keeps SQLite's extended result code of it.
\<close>

fun sql_code :: "sql_error \<Rightarrow> string" where
  "sql_code UniqueViolation = ''2067''"
| "sql_code PrimaryKeyViolation = ''1555''"
| "sql_code ForeignKeyViolation = ''787''"
| "sql_code CheckViolation = ''275''"

definition storage :: "sql_error \<Rightarrow> domain_error" where
  "storage e = Storage (sql_code e)"

text \<open>\<open>fetch_one\<close> on a query without a row.\<close>

definition no_rows :: domain_error where
  "no_rows = Storage ''no rows returned by a query that expected to return at least one row''"

text \<open>A statement of a transaction, its error rendered.\<close>

definition exec :: "(sql_error + 'a) \<Rightarrow> 'a res" where
  "exec r = (case r of Inl e \<Rightarrow> Inl (storage e) | Inr x \<Rightarrow> Inr x)"

lemma exec_iff [res_simps]:
  "exec r = Inr x \<longleftrightarrow> r = Inr x"
  "exec r = Inl e \<longleftrightarrow> (\<exists>e'. r = Inl e' \<and> e = storage e')"
  by (auto simp: exec_def split: sum.splits)

lemma exec_simps [simp]: "exec (Inr x) = Inr x" "exec (Inl e) = Inl (storage e)"
  by (simp_all add: exec_def)

definition append_event_tx ::
  "string \<Rightarrow> string \<Rightarrow> string \<Rightarrow> id \<Rightarrow> string \<Rightarrow> payload \<Rightarrow> string option \<Rightarrow> time \<Rightarrow> db \<Rightarrow> db" where
  "append_event_tx actor_type actor_id entity_type entity_id event_type payload correlation now s =
     s\<lparr>events := events s @
        [\<lparr>ev_actor_type = actor_type, ev_actor_id = actor_id, ev_entity_type = entity_type,
          ev_entity_id = entity_id, ev_type = event_type, ev_correlation = correlation,
          ev_payload = payload, ev_created_at = now\<rparr>]\<rparr>"

definition find_task :: "id \<Rightarrow> db \<Rightarrow> task_row option" where
  "find_task i s = find (\<lambda>t. t_id t = i) (tasks s)"

definition find_agent :: "id \<Rightarrow> db \<Rightarrow> agent_row option" where
  "find_agent i s = find (\<lambda>a. ag_id a = i) (agents s)"

definition find_assignment :: "id \<Rightarrow> db \<Rightarrow> assignment option" where
  "find_assignment i s = find (\<lambda>a. a_id a = i) (assignments s)"

definition find_run :: "id \<Rightarrow> db \<Rightarrow> run option" where
  "find_run i s = find (\<lambda>r. r_id r = i) (runs s)"

definition update_tasks :: "(task_row \<Rightarrow> bool) \<Rightarrow> (task_row \<Rightarrow> task_row) \<Rightarrow> db \<Rightarrow> db" where
  "update_tasks P f s = s\<lparr>tasks := update_where P f (tasks s)\<rparr>"

definition update_assignments :: "(assignment \<Rightarrow> bool) \<Rightarrow> (assignment \<Rightarrow> assignment) \<Rightarrow> db \<Rightarrow> db" where
  "update_assignments P f s = s\<lparr>assignments := update_where P f (assignments s)\<rparr>"

definition update_runs :: "(run \<Rightarrow> bool) \<Rightarrow> (run \<Rightarrow> run) \<Rightarrow> db \<Rightarrow> db" where
  "update_runs P f s = s\<lparr>runs := update_where P f (runs s)\<rparr>"

lemma find_task_in: "find_task i s \<noteq> None \<longleftrightarrow> i \<in> t_id ` set (tasks s)"
  by (auto simp: find_task_def find_None_iff)

lemma find_task_SomeD: "find_task i s = Some t \<Longrightarrow> t \<in> set (tasks s) \<and> t_id t = i"
  by (auto simp: find_task_def dest: find_Some_in)

lemma find_task_in_ids: "find_task i s = Some t \<Longrightarrow> i \<in> t_id ` set (tasks s)"
  by (auto dest: find_task_SomeD)

lemma find_assignment_SomeD: "find_assignment i s = Some a \<Longrightarrow> a \<in> set (assignments s) \<and> a_id a = i"
  by (auto simp: find_assignment_def dest: find_Some_in)

lemma find_run_SomeD: "find_run i s = Some r \<Longrightarrow> r \<in> set (runs s) \<and> r_id r = i"
  by (auto simp: find_run_def dest: find_Some_in)

text \<open>
  \<open>INSERT INTO assignments\<close> under the primary key, the foreign keys and the partial unique
  index \<open>idx_one_active_assignment_per_role\<close> (\<open>migrations/0001_init.sql\<close>).
\<close>

definition insert_assignment :: "assignment \<Rightarrow> db \<Rightarrow> sql_error + db" where
  "insert_assignment a s =
     (if list_ex (\<lambda>b. a_id b = a_id a) (assignments s) then Inl PrimaryKeyViolation
      else if a_status a = ''active'' \<and>
        list_ex (\<lambda>b. a_task b = a_task a \<and> a_role b = a_role a \<and> a_status b = ''active'') (assignments s)
      then Inl UniqueViolation
      else if find_task (a_task a) s = None \<or> find_agent (a_agent a) s = None
      then Inl ForeignKeyViolation
      else Inr (s\<lparr>assignments := assignments s @ [a]\<rparr>))"

definition insert_run :: "run \<Rightarrow> db \<Rightarrow> sql_error + db" where
  "insert_run r s =
     (if list_ex (\<lambda>b. r_id b = r_id r) (runs s) then Inl PrimaryKeyViolation
      else if find_task (r_task r) s = None \<or> find_agent (r_agent r) s = None
        \<or> find_assignment (r_assignment r) s = None
      then Inl ForeignKeyViolation
      else Inr (s\<lparr>runs := runs s @ [r]\<rparr>))"

lemma insert_assignment_Inr:
  "insert_assignment a s = Inr s' \<longleftrightarrow>
     s' = s\<lparr>assignments := assignments s @ [a]\<rparr>
     \<and> \<not> list_ex (\<lambda>b. a_id b = a_id a) (assignments s)
     \<and> (a_status a = ''active'' \<longrightarrow>
          \<not> list_ex (\<lambda>b. a_task b = a_task a \<and> a_role b = a_role a \<and> a_status b = ''active'') (assignments s))
     \<and> find_task (a_task a) s \<noteq> None \<and> find_agent (a_agent a) s \<noteq> None"
  by (auto simp: insert_assignment_def)

lemma insert_run_Inr:
  "insert_run r s = Inr s' \<longleftrightarrow>
     s' = s\<lparr>runs := runs s @ [r]\<rparr> \<and> \<not> list_ex (\<lambda>b. r_id b = r_id r) (runs s)
     \<and> find_task (r_task r) s \<noteq> None \<and> find_agent (r_agent r) s \<noteq> None
     \<and> find_assignment (r_assignment r) s \<noteq> None"
  by (auto simp: insert_run_def)

subsection \<open>Reading rows\<close>

text \<open>\<open>row_to_task\<close>: the state and the mode are parsed, and a bad text is an error.\<close>

record task =
  k_row :: task_row
  k_state :: task_state
  k_mode :: assignment_mode

definition row_to_task :: "task_row \<Rightarrow> task res" where
  "row_to_task row =
     bind_res (task_state_from_str (t_state row)) (\<lambda>st.
     bind_res (assignment_mode_from_str (t_mode row)) (\<lambda>m.
     Inr \<lparr>k_row = row, k_state = st, k_mode = m\<rparr>))"

definition get_task :: "id \<Rightarrow> db \<Rightarrow> task res" where
  "get_task i s =
     bind_res (ok_or (NotFound (''task '' @ i)) (find_task i s)) row_to_task"

definition get_agent :: "id \<Rightarrow> db \<Rightarrow> agent_row res" where
  "get_agent i s = ok_or (NotFound (''agent '' @ i)) (find_agent i s)"

definition get_assignment :: "id \<Rightarrow> db \<Rightarrow> assignment res" where
  "get_assignment i s = ok_or (NotFound (''assignment '' @ i)) (find_assignment i s)"

text \<open>
  \<open>row_to_run\<close>: the run with the context revision pinned to it and the derived
  \<open>failure_reason\<close>, which is the stop reason of a failed run only.
\<close>

record run_view =
  v_run :: run
  v_failure_reason :: "string option"
  v_context :: "id option"

definition row_to_run :: "db \<Rightarrow> run \<Rightarrow> run_view" where
  "row_to_run s r =
     \<lparr>v_run = r,
      v_failure_reason = (if r_status r = ''failed'' then r_stop_reason r else None),
      v_context = map_option rc_context (find (\<lambda>c. rc_run c = r_id r) (run_contexts s))\<rparr>"

definition get_run :: "id \<Rightarrow> db \<Rightarrow> run_view res" where
  "get_run i s = bind_res (ok_or (NotFound (''run '' @ i)) (find_run i s)) (\<lambda>r. Inr (row_to_run s r))"

text \<open>The texts of states and modes in the database are the ones the enums print.\<close>

definition readable_task :: "task_row \<Rightarrow> bool" where
  "readable_task t \<longleftrightarrow>
     t_state t \<in> set (map task_state_display
       [Backlog, Ready, InProgress, Review, Blocked, Done, Cancelled])
     \<and> t_mode t \<in> set (map assignment_mode_display [Open, Approval, Dispatch])"

lemma row_to_task_readable: "readable_task t \<longleftrightarrow> (\<exists>k. row_to_task t = Inr k)"
proof
  assume "readable_task t"
  then show "\<exists>k. row_to_task t = Inr k"
    by (auto simp: readable_task_def row_to_task_def task_state_from_str_def assignment_mode_from_str_def)
next
  assume "\<exists>k. row_to_task t = Inr k"
  then obtain st m where "task_state_from_str (t_state t) = Inr st" "assignment_mode_from_str (t_mode t) = Inr m"
    by (auto simp: row_to_task_def res_simps)
  then have "t_state t = task_state_display st" "t_mode t = assignment_mode_display m"
    by (simp_all add: task_state_from_str_iff assignment_mode_from_str_iff)
  then show "readable_task t" by (cases st; cases m) (simp_all add: readable_task_def)
qed

lemma row_to_task_Inr:
  "row_to_task t = Inr k \<longleftrightarrow>
     k_row k = t \<and> t_state t = task_state_display (k_state k) \<and> t_mode t = assignment_mode_display (k_mode k)"
  by (cases k) (auto simp: row_to_task_def res_simps task_state_from_str_iff assignment_mode_from_str_iff)

lemma run_table: "runs (s\<lparr>runs := x\<rparr>) = x"
  by simp

lemmas table_defs = update_tasks_def update_assignments_def update_runs_def append_event_tx_def

lemma append_event_tables [simp]:
  "tasks (append_event_tx at ai et ei ty pl co now s) = tasks s"
  "assignments (append_event_tx at ai et ei ty pl co now s) = assignments s"
  "runs (append_event_tx at ai et ei ty pl co now s) = runs s"
  "agents (append_event_tx at ai et ei ty pl co now s) = agents s"
  "dependencies (append_event_tx at ai et ei ty pl co now s) = dependencies s"
  "contexts (append_event_tx at ai et ei ty pl co now s) = contexts s"
  "chain_members (append_event_tx at ai et ei ty pl co now s) = chain_members s"
  by (simp_all add: append_event_tx_def)

end
