(* ===== verification/Examples.thy ===== *)
theory Examples
  imports Database
begin

text \<open>
  Rows with plain values, from which the witnesses build small stores: a task in a given
  state, an agent, an assignment and a run.
\<close>

definition example_task :: "id \<Rightarrow> string \<Rightarrow> task_row" where
  "example_task i st =
     \<lparr>t_id = i, t_project = None, t_title = ''Title'', t_description = '''', t_owner = ''human:owner'',
      t_state = st, t_mode = ''open'', t_priority = 0, t_context = None, t_criteria = [],
      t_acceptance_version = 1, t_spec_version = 1, t_created_at = 0, t_updated_at = 0\<rparr>"

definition example_agent :: "id \<Rightarrow> agent_row" where
  "example_agent i =
     \<lparr>ag_id = i, ag_name = i, ag_status = ''online'', ag_capabilities = [], ag_heartbeat = 0,
      ag_profile = ''p'', ag_account = None, ag_machine = None,
      ag_display = i, ag_external = None, ag_archived_at = None, ag_created_at = 0\<rparr>"

definition example_assignment :: "id \<Rightarrow> id \<Rightarrow> string \<Rightarrow> id \<Rightarrow> string \<Rightarrow> time \<Rightarrow> assignment" where
  "example_assignment i task role agent st expires =
     \<lparr>a_id = i, a_task = task, a_role = role, a_agent = agent, a_status = st,
      a_phase = ''implementing'', a_acquired_at = 0, a_expires_at = expires, a_renewed_at = 0,
      a_released_at = None, a_release_reason = None\<rparr>"

definition example_run :: "id \<Rightarrow> id \<Rightarrow> id \<Rightarrow> id \<Rightarrow> string \<Rightarrow> run" where
  "example_run i task assignment agent st =
     \<lparr>r_id = i, r_task = task, r_assignment = assignment, r_agent = agent, r_conversation = None,
      r_status = st, r_stop_reason = None, r_checkpoint = None, r_result = None, r_started_at = 0,
      r_ended_at = None\<rparr>"

definition example_edge :: "id \<Rightarrow> id \<Rightarrow> dependency" where
  "example_edge task on =
     \<lparr>d_task = task, d_on = on, d_created_by = None, d_actor = ''operator'', d_created_at = 0,
      d_chain = None, d_condition = Unconditional\<rparr>"

lemmas example_defs = example_task_def example_agent_def example_assignment_def example_run_def
  example_edge_def empty_db_def

end
