(* ===== verification/Gate.thy ===== *)
theory Gate
  imports Examples
begin

text \<open>
  The prerequisite gate of a task (\<open>morrows-store/src/task_graph.rs\<close>): one snapshot of the
  whole dependency graph is evaluated by rounds over a work set. The iteration order of the
  \<open>HashSet\<close> in a round is unknown, so it is a parameter: a rank \<open>h n\<close> of the identifiers
  for round \<open>n\<close>. \<open>Value::pointer\<close> of serde\_json is the parameter \<open>ptr\<close>. The gate is
  compared with an order-free specification, the least predicate \<open>resolves\<close>.
\<close>

subsection \<open>Gate states\<close>

datatype join_mode = JoinAll | JoinAny

datatype gate_state = Eligible | Waiting | Excluded

text \<open>How much a gate permits: \<open>Excluded < Waiting < Eligible\<close>.\<close>

fun permission :: "gate_state \<Rightarrow> nat" where
  "permission Excluded = 0"
| "permission Waiting = 1"
| "permission Eligible = 2"

lemma permission_inj [simp]: "permission a = permission b \<longleftrightarrow> a = b"
  by (cases a; cases b) simp_all

instantiation gate_state :: linorder
begin

definition less_eq_gate_state :: "gate_state \<Rightarrow> gate_state \<Rightarrow> bool" where
  "less_eq_gate_state a b \<longleftrightarrow> permission a \<le> permission b"

definition less_gate_state :: "gate_state \<Rightarrow> gate_state \<Rightarrow> bool" where
  "less_gate_state a b \<longleftrightarrow> permission a < permission b"

instance
  by standard (auto simp: less_eq_gate_state_def less_gate_state_def)

end

definition combine :: "gate_state list \<Rightarrow> join_mode \<Rightarrow> gate_state" where
  "combine states mode =
     (if states = [] then Eligible
      else if mode = JoinAll \<and> Excluded \<in> set states then Excluded
      else if mode = JoinAny \<and> Eligible \<in> set states then Eligible
      else if Waiting \<in> set states then Waiting
      else if mode = JoinAll then Eligible
      else Excluded)"

lemma gate_state_bounds [simp]: "Excluded \<le> g" "g \<le> Eligible"
  by (cases g; simp add: less_eq_gate_state_def)+

lemma combine_all: "combine gs JoinAll = Min (insert Eligible (set gs))"
proof (rule sym, rule Min_eqI)
  fix g assume "g \<in> insert Eligible (set gs)"
  then show "combine gs JoinAll \<le> g"
    by (cases g rule: gate_state.exhaust) (auto simp: combine_def less_eq_gate_state_def)
next
  have "set gs \<subseteq> {Eligible} \<or> Excluded \<in> set gs \<or> Waiting \<in> set gs"
    by (metis gate_state.exhaust insertI1 subsetI)
  then show "combine gs JoinAll \<in> insert Eligible (set gs)"
    by (auto simp: combine_def)
qed simp

lemma combine_any: "gs \<noteq> [] \<Longrightarrow> combine gs JoinAny = Max (set gs)"
proof (rule sym, rule Max_eqI)
  fix g assume "g \<in> set gs"
  then show "g \<le> combine gs JoinAny"
    by (cases g rule: gate_state.exhaust) (auto simp: combine_def less_eq_gate_state_def)
next
  assume "gs \<noteq> []"
  moreover have "set gs \<subseteq> {Excluded} \<or> Eligible \<in> set gs \<or> Waiting \<in> set gs"
    by (metis gate_state.exhaust insertI1 subsetI)
  ultimately show "combine gs JoinAny \<in> set gs"
    by (cases gs) (auto simp: combine_def)
qed simp

lemma combine_all_Eligible: "combine gs JoinAll = Eligible \<longleftrightarrow> set gs \<subseteq> {Eligible}"
proof -
  have "g = Eligible" if "Excluded \<notin> set gs" "Waiting \<notin> set gs" "g \<in> set gs" for g
    using that by (cases g) auto
  then show ?thesis by (auto simp: combine_def)
qed

lemma combine_any_Eligible: "combine gs JoinAny = Eligible \<longleftrightarrow> gs = [] \<or> Eligible \<in> set gs"
  by (auto simp: combine_def)

subsection \<open>The evaluation\<close>

record edge_gate =
  eg_predecessor :: id
  eg_condition :: edge_condition
  eg_state :: gate_state
  eg_reason :: string

record task_gate =
  tg_task :: id
  tg_join :: join_mode
  tg_state :: gate_state
  tg_predecessors :: "edge_gate list"
  tg_successors :: "id list"

definition null_first :: "time option \<Rightarrow> nat \<times> time" where
  "null_first t = (case t of None \<Rightarrow> (0, 0) | Some x \<Rightarrow> (1, x))"

text \<open>The \<open>completion_result\<close> column: the latest completed executor run of a task.\<close>

definition completion_result :: "db \<Rightarrow> id \<Rightarrow> json option" where
  "completion_result s p =
     Option.bind
       (last_max (\<lambda>r. null_first (r_ended_at r))
          (filter (\<lambda>r. r_task r = p \<and> r_status r = ''completed''
             \<and> list_ex (\<lambda>a. a_id a = r_assignment r \<and> a_role a = ''executor'') (assignments s))
             (runs s)))
       r_result"

definition condition_matches :: "(json \<Rightarrow> string \<Rightarrow> json option) \<Rightarrow> db \<Rightarrow> dependency \<Rightarrow> bool" where
  "condition_matches ptr s d =
     (case d_condition d of
        Unconditional \<Rightarrow> True
      | ResultEquals path v \<Rightarrow>
          Option.bind (completion_result s (d_on d)) (\<lambda>r. ptr r path) = Some v)"

definition edge_status :: "(json \<Rightarrow> string \<Rightarrow> json option) \<Rightarrow> db \<Rightarrow> dependency \<Rightarrow> gate_state \<times> string" where
  "edge_status ptr s d =
     (case map_option t_state (find_task (d_on d) s) of
        Some st \<Rightarrow>
          if st = ''cancelled'' then (Excluded, ''predecessor_cancelled'')
          else if st = ''done'' then
            (if condition_matches ptr s d then (Eligible, ''satisfied'')
             else (Excluded, ''result_condition_not_matched''))
          else (Waiting, ''predecessor_unfinished'')
      | None \<Rightarrow> (Waiting, ''predecessor_unfinished''))"

definition ordered_dependencies :: "db \<Rightarrow> dependency list" where
  "ordered_dependencies s = sort_key (\<lambda>d. (d_created_at d, d_on d)) (dependencies s)"

definition incoming_edges ::
  "(json \<Rightarrow> string \<Rightarrow> json option) \<Rightarrow> db \<Rightarrow> id \<Rightarrow> (edge_gate \<times> bool) list" where
  "incoming_edges ptr s i =
     map (\<lambda>d. (\<lparr>eg_predecessor = d_on d, eg_condition = d_condition d,
                eg_state = fst (edge_status ptr s d), eg_reason = snd (edge_status ptr s d)\<rparr>,
               d_chain d \<noteq> None))
       (filter (\<lambda>d. d_task d = i) (ordered_dependencies s))"

definition join_mode_of :: "db \<Rightarrow> id \<Rightarrow> join_mode" where
  "join_mode_of s i =
     (case find (\<lambda>m. cm_task m = i) (chain_members s) of
        Some m \<Rightarrow> if cm_join m = ''any'' then JoinAny else JoinAll
      | None \<Rightarrow> JoinAll)"

record gate_work =
  gw_incoming :: "id \<Rightarrow> (edge_gate \<times> bool) list"
  gw_resolved :: "id \<Rightarrow> gate_state option"
  gw_pending :: "id list"
  gw_progressed :: bool

text \<open>An unfinished predecessor that is itself excluded excludes the edge.\<close>

definition propagate :: "(id \<Rightarrow> gate_state option) \<Rightarrow> edge_gate \<times> bool \<Rightarrow> edge_gate \<times> bool" where
  "propagate resolved p =
     (if eg_state (fst p) = Waiting \<and> resolved (eg_predecessor (fst p)) = Some Excluded
      then ((fst p)\<lparr>eg_state := Excluded, eg_reason := ''predecessor_branch_excluded''\<rparr>, snd p)
      else p)"

definition node_state :: "join_mode \<Rightarrow> (edge_gate \<times> bool) list \<Rightarrow> gate_state" where
  "node_state mode edges =
     combine
       [combine (map (\<lambda>p. eg_state (fst p)) (filter (\<lambda>p. \<not> snd p) edges)) JoinAll,
        combine (map (\<lambda>p. eg_state (fst p)) (filter snd edges)) mode]
       JoinAll"

definition visit :: "(id \<Rightarrow> join_mode) \<Rightarrow> id \<Rightarrow> gate_work \<Rightarrow> gate_work" where
  "visit modes i w =
     (let edges = gw_incoming w i in
      if list_ex (\<lambda>p. gw_resolved w (eg_predecessor (fst p)) = None) edges then w
      else let edges' = map (propagate (gw_resolved w)) edges in
        w\<lparr>gw_incoming := (gw_incoming w)(i := edges'),
          gw_resolved := (gw_resolved w)(i \<mapsto> node_state (modes i) edges'),
          gw_pending := filter (\<lambda>j. j \<noteq> i) (gw_pending w),
          gw_progressed := True\<rparr>)"

definition gate_round :: "(id \<Rightarrow> join_mode) \<Rightarrow> (id \<Rightarrow> nat) \<Rightarrow> gate_work \<Rightarrow> gate_work" where
  "gate_round modes rank w =
     fold (visit modes) (sort_key rank (gw_pending w)) (w\<lparr>gw_progressed := False\<rparr>)"

lemma visit_pending_length: "length (gw_pending (visit modes i w)) \<le> length (gw_pending w)"
  by (simp add: visit_def Let_def)

lemma fold_visit_pending_length:
  "length (gw_pending (fold (visit modes) is w)) \<le> length (gw_pending w)"
proof (induction "is" arbitrary: w)
  case Nil
  then show ?case by simp
next
  case (Cons i "is")
  then show ?case using visit_pending_length order.trans by fastforce
qed

lemma fold_visit_progress:
  assumes "gw_progressed (fold (visit modes) is w)" "\<not> gw_progressed w"
    and "set is \<subseteq> set (gw_pending w)"
  shows "length (gw_pending (fold (visit modes) is w)) < length (gw_pending w)"
  using assms
proof (induction "is" arbitrary: w)
  case Nil
  then show ?case by simp
next
  case (Cons i "is")
  show ?case
  proof (cases "list_ex (\<lambda>p. gw_resolved w (eg_predecessor (fst p)) = None) (gw_incoming w i)")
    case True
    then have "visit modes i w = w" by (simp add: visit_def)
    with Cons show ?thesis by simp
  next
    case False
    then have "gw_pending (visit modes i w) = filter (\<lambda>j. j \<noteq> i) (gw_pending w)"
      by (simp add: visit_def Let_def)
    moreover have "length (filter (\<lambda>j. j \<noteq> i) (gw_pending w)) < length (gw_pending w)"
      using Cons.prems(3) by (intro length_filter_less [of i]) auto
    ultimately show ?thesis
      using fold_visit_pending_length [of modes "is" "visit modes i w"] by simp
  qed
qed

lemma gate_round_progress:
  "gw_progressed (gate_round modes rank w) \<Longrightarrow>
   length (gw_pending (gate_round modes rank w)) < length (gw_pending w)"
  unfolding gate_round_def using fold_visit_progress [of modes _ "w\<lparr>gw_progressed := False\<rparr>"] by simp

function resolve_loop ::
  "(id \<Rightarrow> join_mode) \<Rightarrow> (nat \<Rightarrow> id \<Rightarrow> nat) \<Rightarrow> nat \<Rightarrow> gate_work \<Rightarrow> gate_work res" where
  "resolve_loop modes h n w =
     (if gw_pending w = [] then Inr w
      else let w' = gate_round modes (h n) w in
        if gw_progressed w' then resolve_loop modes h (Suc n) w'
        else Inl (Conflict ''dependency cycle''))"
  by pat_completeness auto
termination
  by (relation "measure (\<lambda>(modes, h, n, w). length (gw_pending w))") (auto dest: gate_round_progress)

declare resolve_loop.simps [simp del]

definition initial_work :: "(json \<Rightarrow> string \<Rightarrow> json option) \<Rightarrow> db \<Rightarrow> gate_work" where
  "initial_work ptr s =
     \<lparr>gw_incoming = incoming_edges ptr s, gw_resolved = Map.empty,
      gw_pending = remdups (map t_id (tasks s)), gw_progressed = False\<rparr>"

definition gate_conn_ordered ::
  "(nat \<Rightarrow> id \<Rightarrow> nat) \<Rightarrow> (json \<Rightarrow> string \<Rightarrow> json option) \<Rightarrow> id \<Rightarrow> db \<Rightarrow> task_gate res" where
  "gate_conn_ordered h ptr i s =
     (if find_task i s = None then Inl (NotFound (''task '' @ i))
      else bind_res (resolve_loop (join_mode_of s) h 0 (initial_work ptr s)) (\<lambda>w.
        Inr \<lparr>tg_task = i, tg_join = join_mode_of s i, tg_state = the (gw_resolved w i),
             tg_predecessors = map fst (gw_incoming w i),
             tg_successors = map d_task (filter (\<lambda>d. d_on d = i) (ordered_dependencies s))\<rparr>))"


subsection \<open>The specification\<close>

text \<open>
  The least predicate closed under the evaluation of a task whose predecessors are all
  evaluated: no rounds, no order, no work set.
\<close>

inductive resolves :: "(json \<Rightarrow> string \<Rightarrow> json option) \<Rightarrow> db \<Rightarrow> id \<Rightarrow> gate_state \<Rightarrow> bool"
  for ptr s where
  resolve:
    "\<lbrakk>i \<in> t_id ` set (tasks s);
      \<forall>p \<in> set (incoming_edges ptr s i).
         \<exists>g. resolved (eg_predecessor (fst p)) = Some g \<and> resolves ptr s (eg_predecessor (fst p)) g;
      g = node_state (join_mode_of s i) (map (propagate resolved) (incoming_edges ptr s i))\<rbrakk>
     \<Longrightarrow> resolves ptr s i g"

inductive_cases resolvesE: "resolves ptr s i g"

lemma propagate_cong:
  assumes "r (eg_predecessor (fst p)) = r' (eg_predecessor (fst p))"
  shows "propagate r p = propagate r' p"
  using assms by (simp add: propagate_def)

lemma resolves_unique: "resolves ptr s i g \<Longrightarrow> resolves ptr s i g' \<Longrightarrow> g = g'"
proof (induction arbitrary: g' rule: resolves.induct)
  case (resolve i r g)
  from resolve.prems obtain r' where r':
      "\<forall>p \<in> set (incoming_edges ptr s i). \<exists>g. r' (eg_predecessor (fst p)) = Some g
         \<and> resolves ptr s (eg_predecessor (fst p)) g"
      "g' = node_state (join_mode_of s i) (map (propagate r') (incoming_edges ptr s i))"
    by (elim resolvesE) blast
  have "propagate r p = propagate r' p" if "p \<in> set (incoming_edges ptr s i)" for p
  proof (rule propagate_cong)
    from r'(1) that obtain g2 where g2: "r' (eg_predecessor (fst p)) = Some g2"
      "resolves ptr s (eg_predecessor (fst p)) g2" by blast
    from resolve.IH that g2(2) have "r (eg_predecessor (fst p)) = Some g2" by fastforce
    with g2(1) show "r (eg_predecessor (fst p)) = r' (eg_predecessor (fst p))" by simp
  qed
  then have "map (propagate r) (incoming_edges ptr s i) = map (propagate r') (incoming_edges ptr s i)"
    by simp
  with resolve.hyps(2) r'(2) show ?case by simp
qed

text \<open>What the work state of the loop means.\<close>

definition work_ok :: "(json \<Rightarrow> string \<Rightarrow> json option) \<Rightarrow> db \<Rightarrow> gate_work \<Rightarrow> bool" where
  "work_ok ptr s w \<longleftrightarrow>
     set (gw_pending w) = t_id ` set (tasks s) - dom (gw_resolved w)
     \<and> dom (gw_resolved w) \<subseteq> t_id ` set (tasks s)
     \<and> (\<forall>i. gw_resolved w i = None \<longrightarrow> gw_incoming w i = incoming_edges ptr s i)
     \<and> (\<forall>i g. gw_resolved w i = Some g \<longrightarrow>
          (\<forall>p \<in> set (incoming_edges ptr s i). gw_resolved w (eg_predecessor (fst p)) \<noteq> None)
          \<and> gw_incoming w i = map (propagate (gw_resolved w)) (incoming_edges ptr s i)
          \<and> g = node_state (join_mode_of s i) (gw_incoming w i)
          \<and> resolves ptr s i g)"

lemma work_okI:
  assumes "gw_pending w = pend" "gw_resolved w = r" "gw_incoming w = inc"
    and "set pend = t_id ` set (tasks s) - dom r" "dom r \<subseteq> t_id ` set (tasks s)"
    and "\<forall>i. r i = None \<longrightarrow> inc i = incoming_edges ptr s i"
    and "\<And>i g. r i = Some g \<Longrightarrow>
          (\<forall>p \<in> set (incoming_edges ptr s i). r (eg_predecessor (fst p)) \<noteq> None)
          \<and> inc i = map (propagate r) (incoming_edges ptr s i)
          \<and> g = node_state (join_mode_of s i) (inc i) \<and> resolves ptr s i g"
  shows "work_ok ptr s w"
  using assms unfolding work_ok_def by blast

lemma work_ok_initial: "work_ok ptr s (initial_work ptr s)"
  by (simp add: work_ok_def initial_work_def)

lemma propagate_predecessor [simp]: "eg_predecessor (fst (propagate r p)) = eg_predecessor (fst p)"
  by (simp add: propagate_def)

lemma propagate_idem [simp]: "propagate r (propagate r p) = propagate r p"
  by (simp add: propagate_def)

lemma visit_resolved_again:
  assumes "work_ok ptr s w" "gw_resolved w i = Some g"
  shows "visit (join_mode_of s) i w = w\<lparr>gw_progressed := True\<rparr>"
proof -
  from assms have inc: "gw_incoming w i = map (propagate (gw_resolved w)) (incoming_edges ptr s i)"
    and preds: "\<forall>p \<in> set (incoming_edges ptr s i). gw_resolved w (eg_predecessor (fst p)) \<noteq> None"
    and g: "g = node_state (join_mode_of s i) (gw_incoming w i)"
    unfolding work_ok_def by blast+
  from assms have notin: "i \<notin> set (gw_pending w)" by (simp add: work_ok_def domI)
  have again: "map (propagate (gw_resolved w)) (gw_incoming w i) = gw_incoming w i"
    by (simp add: inc)
  have "\<not> list_ex (\<lambda>p. gw_resolved w (eg_predecessor (fst p)) = None) (gw_incoming w i)"
    using preds by (auto simp: inc list_ex_iff)
  moreover have "filter (\<lambda>j. j \<noteq> i) (gw_pending w) = gw_pending w"
    using notin by (auto simp: filter_id_conv)
  moreover have "(gw_resolved w)(i \<mapsto> g) = gw_resolved w" using assms(2) by (simp add: map_upd_triv)
  ultimately show ?thesis
    by (simp add: visit_def Let_def again flip: g)
qed

lemma work_ok_progressed [simp]: "work_ok ptr s (w\<lparr>gw_progressed := b\<rparr>) = work_ok ptr s w"
  by (simp add: work_ok_def)

lemma work_ok_visit:
  assumes ok: "work_ok ptr s w" and i: "i \<in> t_id ` set (tasks s)"
  shows "work_ok ptr s (visit (join_mode_of s) i w)"
proof (cases "gw_resolved w i")
  case (Some g)
  then show ?thesis by (simp add: visit_resolved_again [OF ok] ok)
next
  case None
  with ok have inc: "gw_incoming w i = incoming_edges ptr s i" by (simp add: work_ok_def)
  show ?thesis
  proof (cases "list_ex (\<lambda>p. gw_resolved w (eg_predecessor (fst p)) = None) (gw_incoming w i)")
    case True
    with ok show ?thesis by (simp add: visit_def)
  next
    case False
    let ?es = "map (propagate (gw_resolved w)) (incoming_edges ptr s i)"
    let ?g = "node_state (join_mode_of s i) ?es"
    let ?r = "(gw_resolved w)(i \<mapsto> ?g)"
    from False have preds:
      "\<forall>p \<in> set (incoming_edges ptr s i). gw_resolved w (eg_predecessor (fst p)) \<noteq> None"
      by (auto simp: inc list_ex_iff)
    have res_i: "resolves ptr s i ?g"
    proof (rule resolves.resolve [OF i _ refl], rule ballI)
      fix p assume "p \<in> set (incoming_edges ptr s i)"
      with preds obtain gp where "gw_resolved w (eg_predecessor (fst p)) = Some gp" by blast
      with ok show "\<exists>g. gw_resolved w (eg_predecessor (fst p)) = Some g
          \<and> resolves ptr s (eg_predecessor (fst p)) g"
        by (auto simp: work_ok_def)
    qed
    have same: "map (propagate ?r) (incoming_edges ptr s j) = map (propagate (gw_resolved w)) (incoming_edges ptr s j)"
      if "\<forall>p \<in> set (incoming_edges ptr s j). gw_resolved w (eg_predecessor (fst p)) \<noteq> None" for j
    proof (rule map_cong [OF refl], rule propagate_cong)
      fix p assume "p \<in> set (incoming_edges ptr s j)"
      with that None show "?r (eg_predecessor (fst p)) = gw_resolved w (eg_predecessor (fst p))"
        by (metis fun_upd_other)
    qed
    have v: "visit (join_mode_of s) i w =
      w\<lparr>gw_incoming := (gw_incoming w)(i := ?es), gw_resolved := ?r,
        gw_pending := filter (\<lambda>j. j \<noteq> i) (gw_pending w), gw_progressed := True\<rparr>"
      using False by (simp add: visit_def inc Let_def)
    have old: "(\<forall>p \<in> set (incoming_edges ptr s j). gw_resolved w (eg_predecessor (fst p)) \<noteq> None)
          \<and> gw_incoming w j = map (propagate (gw_resolved w)) (incoming_edges ptr s j)
          \<and> g = node_state (join_mode_of s j) (gw_incoming w j) \<and> resolves ptr s j g"
      if "gw_resolved w j = Some g" for j g
      using ok that unfolding work_ok_def by blast
    have new: "(\<forall>p \<in> set (incoming_edges ptr s j). ?r (eg_predecessor (fst p)) \<noteq> None)
          \<and> ((gw_incoming w)(i := ?es)) j = map (propagate ?r) (incoming_edges ptr s j)
          \<and> g = node_state (join_mode_of s j) (((gw_incoming w)(i := ?es)) j) \<and> resolves ptr s j g"
      if "?r j = Some g" for j g
    proof (cases "j = i")
      case True
      with that preds res_i same [OF preds] show ?thesis by auto
    next
      case False
      with that have "gw_resolved w j = Some g" by simp
      from old [OF this] same [of j] False show ?thesis by auto
    qed
    have f: "set (filter (\<lambda>j. j \<noteq> i) (gw_pending w)) = t_id ` set (tasks s) - dom ?r"
      "dom ?r \<subseteq> t_id ` set (tasks s)"
      "\<forall>j. ?r j = None \<longrightarrow> ((gw_incoming w)(i := ?es)) j = incoming_edges ptr s j"
      using ok i None by (auto simp: work_ok_def)
    show ?thesis
      unfolding v
    proof (rule work_okI [OF _ _ _ f])
      fix j g assume "?r j = Some g"
      then show "(\<forall>p \<in> set (incoming_edges ptr s j). ?r (eg_predecessor (fst p)) \<noteq> None)
          \<and> ((gw_incoming w)(i := ?es)) j = map (propagate ?r) (incoming_edges ptr s j)
          \<and> g = node_state (join_mode_of s j) (((gw_incoming w)(i := ?es)) j) \<and> resolves ptr s j g"
        by (rule new)
    qed (simp_all add: fun_upd_def)
  qed
qed

lemma work_ok_fold:
  assumes "work_ok ptr s w" "set is \<subseteq> t_id ` set (tasks s)"
  shows "work_ok ptr s (fold (visit (join_mode_of s)) is w)"
  using assms by (induction "is" arbitrary: w) (simp_all add: work_ok_visit)

lemma work_ok_round:
  assumes "work_ok ptr s w"
  shows "work_ok ptr s (gate_round (join_mode_of s) rank w)"
  unfolding gate_round_def
proof (rule work_ok_fold)
  show "set (sort_key rank (gw_pending w)) \<subseteq> t_id ` set (tasks s)"
    using assms by (auto simp: work_ok_def)
qed (use assms in simp)

text \<open>Once a round has made progress, the flag stays set.\<close>

lemma fold_visit_keeps_progress:
  "gw_progressed w \<Longrightarrow> gw_progressed (fold (visit modes) is w)"
  by (induction "is" arbitrary: w) (simp_all add: visit_def Let_def)

lemma fold_visit_stuck:
  assumes "\<not> gw_progressed (fold (visit modes) is w)" "\<not> gw_progressed w"
  shows "\<forall>i \<in> set is. list_ex (\<lambda>p. gw_resolved w (eg_predecessor (fst p)) = None) (gw_incoming w i)"
  using assms
proof (induction "is" arbitrary: w)
  case Nil
  then show ?case by simp
next
  case (Cons i "is")
  have stuck: "list_ex (\<lambda>p. gw_resolved w (eg_predecessor (fst p)) = None) (gw_incoming w i)"
  proof (rule ccontr)
    assume "\<not> ?thesis"
    then have "gw_progressed (visit modes i w)" by (simp add: visit_def Let_def)
    with Cons.prems(1) fold_visit_keeps_progress show False by fastforce
  qed
  then have "visit modes i w = w" by (simp add: visit_def)
  with Cons stuck show ?case by simp
qed

text \<open>
  A round without progress: every pending task waits for a task that has no value, so no
  pending task has a derivation.
\<close>

lemma stuck_round:
  assumes ok: "work_ok ptr s w" and stuck: "\<not> gw_progressed (gate_round (join_mode_of s) rank w)"
    and i: "resolves ptr s i g"
  shows "i \<notin> set (gw_pending w)"
  using i
proof (induction rule: resolves.induct)
  case (resolve i r g)
  show ?case
  proof
    assume pend: "i \<in> set (gw_pending w)"
    with ok have inc: "gw_incoming w i = incoming_edges ptr s i"
      by (auto simp: work_ok_def)
    from stuck fold_visit_stuck [of "join_mode_of s" _ "w\<lparr>gw_progressed := False\<rparr>"] pend
    have "list_ex (\<lambda>p. gw_resolved w (eg_predecessor (fst p)) = None) (incoming_edges ptr s i)"
      by (simp add: gate_round_def flip: inc)
    then obtain p where p: "p \<in> set (incoming_edges ptr s i)"
      "gw_resolved w (eg_predecessor (fst p)) = None"
      by (auto simp: list_ex_iff)
    with resolve.IH obtain g' where g': "resolves ptr s (eg_predecessor (fst p)) g'"
      "eg_predecessor (fst p) \<notin> set (gw_pending w)" by blast
    from g'(1) have "eg_predecessor (fst p) \<in> t_id ` set (tasks s)" by (rule resolvesE)
    with g'(2) p(2) ok show False by (auto simp: work_ok_def)
  qed
qed

lemma resolve_loop_Inr:
  assumes "work_ok ptr s w" "resolve_loop (join_mode_of s) h n w = Inr w'"
  shows "work_ok ptr s w' \<and> gw_pending w' = []"
  using assms
proof (induction "join_mode_of s" h n w rule: resolve_loop.induct)
  case (1 h n w)
  then show ?case
    by (simp add: resolve_loop.simps [of _ h n w] Let_def work_ok_round split: if_splits)
qed

lemma resolve_loop_Inl:
  assumes "work_ok ptr s w" "resolve_loop (join_mode_of s) h n w = Inl e"
  shows "e = Conflict ''dependency cycle'' \<and> (\<exists>i \<in> t_id ` set (tasks s). \<forall>g. \<not> resolves ptr s i g)"
  using assms
proof (induction "join_mode_of s" h n w rule: resolve_loop.induct)
  case (1 h n w)
  show ?case
  proof (cases "gw_progressed (gate_round (join_mode_of s) (h n) w)")
    case True
    with 1 show ?thesis
      by (simp add: resolve_loop.simps [of _ h n w] Let_def work_ok_round split: if_splits)
  next
    case False
    with 1 have ne: "gw_pending w \<noteq> []" and e: "e = Conflict ''dependency cycle''"
      by (simp_all add: resolve_loop.simps [of _ h n w] Let_def split: if_splits)
    from ne have "hd (gw_pending w) \<in> set (gw_pending w)" by simp
    moreover from 1(2) this have "hd (gw_pending w) \<in> t_id ` set (tasks s)"
      by (auto simp: work_ok_def)
    ultimately show ?thesis using e stuck_round [OF 1(2) False] by blast
  qed
qed

lemma gate_conn_Inr:
  assumes "gate_conn_ordered h ptr i s = Inr g"
  obtains r where "dom r = t_id ` set (tasks s)" "\<forall>j v. r j = Some v \<longrightarrow> resolves ptr s j v"
    "i \<in> dom r" "tg_task g = i" "tg_join g = join_mode_of s i" "r i = Some (tg_state g)"
    "tg_predecessors g = map (\<lambda>p. fst (propagate r p)) (incoming_edges ptr s i)"
    "tg_successors g = map d_task (filter (\<lambda>d. d_on d = i) (ordered_dependencies s))"
    "tg_state g = node_state (join_mode_of s i) (map (propagate r) (incoming_edges ptr s i))"
proof -
  from assms obtain w where i: "find_task i s \<noteq> None"
    and loop: "resolve_loop (join_mode_of s) h 0 (initial_work ptr s) = Inr w"
    and g: "g = \<lparr>tg_task = i, tg_join = join_mode_of s i, tg_state = the (gw_resolved w i),
             tg_predecessors = map fst (gw_incoming w i),
             tg_successors = map d_task (filter (\<lambda>d. d_on d = i) (ordered_dependencies s))\<rparr>"
    by (auto simp: gate_conn_ordered_def bind_res_Inr_iff split: if_splits)
  from resolve_loop_Inr [OF work_ok_initial loop]
  have ok: "work_ok ptr s w" and empty: "gw_pending w = []" by simp_all
  from ok empty have dom: "dom (gw_resolved w) = t_id ` set (tasks s)"
    unfolding work_ok_def by auto
  from i have "i \<in> t_id ` set (tasks s)" by (auto simp: find_task_def find_None_iff)
  with dom obtain v where v: "gw_resolved w i = Some v" by blast
  show thesis
  proof (rule that [OF dom])
    show "\<forall>j v. gw_resolved w j = Some v \<longrightarrow> resolves ptr s j v" "i \<in> dom (gw_resolved w)"
      using ok v unfolding work_ok_def by blast+
    from v ok have inc: "gw_incoming w i = map (propagate (gw_resolved w)) (incoming_edges ptr s i)"
      and "v = node_state (join_mode_of s i) (gw_incoming w i)"
      unfolding work_ok_def by blast+
    with v show "tg_state g = node_state (join_mode_of s i)
        (map (propagate (gw_resolved w)) (incoming_edges ptr s i))"
      by (simp add: g)
    show "tg_predecessors g = map (\<lambda>p. fst (propagate (gw_resolved w) p)) (incoming_edges ptr s i)"
      by (simp add: g inc)
  qed (simp_all add: g v)
qed

lemma gate_conn_Inl:
  assumes "gate_conn_ordered h ptr i s = Inl e"
  shows "e = NotFound (''task '' @ i) \<and> find_task i s = None
    \<or> e = Conflict ''dependency cycle'' \<and> (\<exists>j \<in> t_id ` set (tasks s). \<forall>v. \<not> resolves ptr s j v)"
  using assms resolve_loop_Inl [OF work_ok_initial]
  by (auto simp: gate_conn_ordered_def bind_res_Inl_iff split: if_splits)

lemma gate_conn_total:
  "(\<exists>g. gate_conn_ordered h ptr i s = Inr g) \<longleftrightarrow>
   find_task i s \<noteq> None \<and> (\<forall>j \<in> t_id ` set (tasks s). \<exists>v. resolves ptr s j v)"
proof
  assume "\<exists>g. gate_conn_ordered h ptr i s = Inr g"
  then obtain g where g: "gate_conn_ordered h ptr i s = Inr g" by blast
  then have "find_task i s \<noteq> None" by (auto simp: gate_conn_ordered_def split: if_splits)
  moreover from g have "\<forall>j \<in> t_id ` set (tasks s). \<exists>v. resolves ptr s j v"
    by (elim gate_conn_Inr) blast
  ultimately show "find_task i s \<noteq> None \<and> (\<forall>j \<in> t_id ` set (tasks s). \<exists>v. resolves ptr s j v)" ..
next
  assume "find_task i s \<noteq> None \<and> (\<forall>j \<in> t_id ` set (tasks s). \<exists>v. resolves ptr s j v)"
  then show "\<exists>g. gate_conn_ordered h ptr i s = Inr g"
    using gate_conn_Inl [of h ptr i s] by (cases "gate_conn_ordered h ptr i s") auto
qed

lemma gate_conn_order_independent: "gate_conn_ordered h ptr i s = gate_conn_ordered h' ptr i s"
proof (cases "\<exists>g. gate_conn_ordered h ptr i s = Inr g")
  case True
  then obtain g where g: "gate_conn_ordered h ptr i s = Inr g" by blast
  from True obtain g' where g': "gate_conn_ordered h' ptr i s = Inr g'"
    by (simp only: gate_conn_total) (simp only: gate_conn_total [of h', symmetric], blast)
  from g obtain r where r: "dom r = t_id ` set (tasks s)" "\<forall>j v. r j = Some v \<longrightarrow> resolves ptr s j v"
    "tg_task g = i" "tg_join g = join_mode_of s i" "r i = Some (tg_state g)"
    "tg_predecessors g = map (\<lambda>p. fst (propagate r p)) (incoming_edges ptr s i)"
    "tg_successors g = map d_task (filter (\<lambda>d. d_on d = i) (ordered_dependencies s))"
    by (elim gate_conn_Inr) (rule that)
  from g' obtain r' where r': "dom r' = t_id ` set (tasks s)"
    "\<forall>j v. r' j = Some v \<longrightarrow> resolves ptr s j v"
    "tg_task g' = i" "tg_join g' = join_mode_of s i" "r' i = Some (tg_state g')"
    "tg_predecessors g' = map (\<lambda>p. fst (propagate r' p)) (incoming_edges ptr s i)"
    "tg_successors g' = map d_task (filter (\<lambda>d. d_on d = i) (ordered_dependencies s))"
    by (elim gate_conn_Inr) (rule that)
  have "r j = r' j" for j
  proof (cases "j \<in> t_id ` set (tasks s)")
    case True
    with r(1) r'(1) obtain v v' where "r j = Some v" "r' j = Some v'" by blast
    with r(2) r'(2) show ?thesis using resolves_unique by metis
  next
    case False
    with r(1) r'(1) show ?thesis by (metis domIff)
  qed
  then have "r = r'" by blast
  with r r' have "g = g'" by (intro task_gate.equality) simp_all
  with g g' show ?thesis by simp
next
  case False
  then obtain e where e: "gate_conn_ordered h ptr i s = Inl e"
    by (cases "gate_conn_ordered h ptr i s") auto
  from False have "\<not> (\<exists>g. gate_conn_ordered h' ptr i s = Inr g)"
    by (simp only: gate_conn_total not_False_eq_True)
  then obtain e' where e': "gate_conn_ordered h' ptr i s = Inl e'"
    by (cases "gate_conn_ordered h' ptr i s") auto
  have "e = e'"
    using e e' by (auto simp: gate_conn_ordered_def bind_res_Inl_iff split: if_splits
        dest!: resolve_loop_Inl [OF work_ok_initial])
  with e e' show ?thesis by simp
qed

definition gate_conn :: "(json \<Rightarrow> string \<Rightarrow> json option) \<Rightarrow> id \<Rightarrow> db \<Rightarrow> task_gate res" where
  "gate_conn = gate_conn_ordered (\<lambda>_ _. 0)"

text \<open>The text of the error carries the serialised gate, which the model drops.\<close>

definition enforce_gate_conn :: "(json \<Rightarrow> string \<Rightarrow> json option) \<Rightarrow> id \<Rightarrow> db \<Rightarrow> unit res" where
  "enforce_gate_conn ptr i s =
     bind_res (gate_conn ptr i s) (\<lambda>g.
       ensure (tg_state g = Eligible) (Conflict ''task chain gate''))"

subsection \<open>Cycles\<close>

definition dep_rel :: "dependency list \<Rightarrow> (id \<times> id) set" where
  "dep_rel ds = (\<lambda>d. (d_on d, d_task d)) ` set ds"

definition deps_in_tasks :: "db \<Rightarrow> bool" where
  "deps_in_tasks s \<longleftrightarrow> (\<forall>d \<in> set (dependencies s). d_on d \<in> t_id ` set (tasks s)
     \<and> d_task d \<in> t_id ` set (tasks s))"

lemma incoming_edges_on:
  "(\<lambda>p. eg_predecessor (fst p)) ` set (incoming_edges ptr s i) = {j. (j, i) \<in> dep_rel (dependencies s)}"
  by (auto simp: incoming_edges_def ordered_dependencies_def dep_rel_def image_iff)

lemma resolves_acc: "resolves ptr s i g \<Longrightarrow> i \<in> Wellfounded.acc (dep_rel (dependencies s))"
proof (induction rule: resolves.induct)
  case (resolve i r g)
  show ?case
  proof (rule accI)
    fix j assume "(j, i) \<in> dep_rel (dependencies s)"
    then have "j \<in> (\<lambda>p. eg_predecessor (fst p)) ` set (incoming_edges ptr s i)"
      by (simp add: incoming_edges_on)
    with resolve.IH show "j \<in> Wellfounded.acc (dep_rel (dependencies s))" by blast
  qed
qed

lemma resolves_total_iff_acyclic:
  assumes fk: "deps_in_tasks s"
  shows "(\<forall>j \<in> t_id ` set (tasks s). \<exists>v. resolves ptr s j v) \<longleftrightarrow> acyclic (dep_rel (dependencies s))"
proof
  assume all: "\<forall>j \<in> t_id ` set (tasks s). \<exists>v. resolves ptr s j v"
  have "j \<in> Wellfounded.acc (dep_rel (dependencies s))" for j
  proof (cases "j \<in> t_id ` set (tasks s)")
    case True
    with all show ?thesis using resolves_acc by blast
  next
    case False
    with fk have "\<not> (k, j) \<in> dep_rel (dependencies s)" for k
      by (auto simp: deps_in_tasks_def dep_rel_def)
    then show ?thesis by (blast intro: accI)
  qed
  then show "acyclic (dep_rel (dependencies s))" by (blast intro: acc_wfI wf_acyclic)
next
  assume "acyclic (dep_rel (dependencies s))"
  then have wf: "wf (dep_rel (dependencies s))"
    by (simp add: finite_acyclic_wf dep_rel_def)
  have "j \<in> t_id ` set (tasks s) \<longrightarrow> (\<exists>v. resolves ptr s j v)" for j
    using wf
  proof (induction j rule: wf_induct_rule)
    case (less i)
    define r where "r j = (if \<exists>v. resolves ptr s j v then Some (SOME v. resolves ptr s j v) else None)" for j
    have "\<exists>v. r (eg_predecessor (fst p)) = Some v \<and> resolves ptr s (eg_predecessor (fst p)) v"
      if "p \<in> set (incoming_edges ptr s i)" for p
    proof -
      from that have e: "(eg_predecessor (fst p), i) \<in> dep_rel (dependencies s)"
        using incoming_edges_on [of ptr s i] by blast
      moreover from e fk have "eg_predecessor (fst p) \<in> t_id ` set (tasks s)"
        by (auto simp: deps_in_tasks_def dep_rel_def)
      ultimately have "\<exists>v. resolves ptr s (eg_predecessor (fst p)) v" using less.IH by blast
      then show ?thesis unfolding r_def by (metis someI)
    qed
    then show ?case by (metis resolves.resolve)
  qed
  then show "\<forall>j \<in> t_id ` set (tasks s). \<exists>v. resolves ptr s j v" by blast
qed

subsection \<open>What an eligible gate means\<close>

definition dependency_satisfied :: "(json \<Rightarrow> string \<Rightarrow> json option) \<Rightarrow> db \<Rightarrow> dependency \<Rightarrow> bool" where
  "dependency_satisfied ptr s d \<longleftrightarrow>
     (\<exists>t. find_task (d_on d) s = Some t \<and> t_state t = ''done'') \<and> condition_matches ptr s d"

definition prerequisites_met :: "(json \<Rightarrow> string \<Rightarrow> json option) \<Rightarrow> db \<Rightarrow> id \<Rightarrow> bool" where
  "prerequisites_met ptr s i \<longleftrightarrow>
     (\<forall>d \<in> set (dependencies s). d_task d = i \<and> d_chain d = None \<longrightarrow> dependency_satisfied ptr s d)
     \<and> (let bound = filter (\<lambda>d. d_task d = i \<and> d_chain d \<noteq> None) (dependencies s) in
        if join_mode_of s i = JoinAny
        then bound = [] \<or> (\<exists>d \<in> set bound. dependency_satisfied ptr s d)
        else \<forall>d \<in> set bound. dependency_satisfied ptr s d)"

lemma edge_status_Eligible: "fst (edge_status ptr s d) = Eligible \<longleftrightarrow> dependency_satisfied ptr s d"
  by (auto simp: edge_status_def dependency_satisfied_def split: option.splits)

lemma propagate_Eligible [simp]: "eg_state (fst (propagate r p)) = Eligible \<longleftrightarrow> eg_state (fst p) = Eligible"
  by (auto simp: propagate_def)

lemma propagate_snd [simp]: "snd (propagate r p) = snd p"
  by (simp add: propagate_def)

lemma node_state_Eligible:
  "node_state mode es = Eligible \<longleftrightarrow>
     (\<forall>p \<in> set es. \<not> snd p \<longrightarrow> eg_state (fst p) = Eligible)
     \<and> (if mode = JoinAny then (\<forall>p \<in> set es. \<not> snd p) \<or> (\<exists>p \<in> set es. snd p \<and> eg_state (fst p) = Eligible)
        else \<forall>p \<in> set es. snd p \<longrightarrow> eg_state (fst p) = Eligible)"
proof (cases mode)
  case JoinAny
  have "Eligible \<in> (\<lambda>p. eg_state (fst p)) ` {p \<in> set es. snd p}
      \<longleftrightarrow> (\<exists>p \<in> set es. snd p \<and> eg_state (fst p) = Eligible)"
    by (metis (mono_tags, lifting) imageE image_eqI mem_Collect_eq)
  then show ?thesis using JoinAny
    by (simp add: node_state_def combine_all_Eligible combine_any_Eligible filter_empty_conv) blast
qed (auto simp: node_state_def combine_all_Eligible)

lemma gate_Eligible:
  assumes "gate_conn_ordered h ptr i s = Inr g"
  shows "tg_state g = Eligible \<longleftrightarrow> prerequisites_met ptr s i"
proof -
  from assms obtain r where
    "tg_state g = node_state (join_mode_of s i) (map (propagate r) (incoming_edges ptr s i))"
    by (elim gate_conn_Inr) (rule that)
  then show ?thesis
    by (auto simp: node_state_Eligible prerequisites_met_def incoming_edges_def
        ordered_dependencies_def Let_def edge_status_Eligible filter_empty_conv)
qed

lemma enforce_gate_iff:
  assumes "deps_in_tasks s"
  shows "enforce_gate_conn ptr i s = Inr () \<longleftrightarrow>
    find_task i s \<noteq> None \<and> acyclic (dep_rel (dependencies s)) \<and> prerequisites_met ptr s i"
proof -
  have "enforce_gate_conn ptr i s = Inr () \<longleftrightarrow>
      (\<exists>g. gate_conn ptr i s = Inr g) \<and> prerequisites_met ptr s i"
    by (auto simp: enforce_gate_conn_def bind_res_Inr_iff ensure_iff gate_conn_def gate_Eligible)
  then show ?thesis
    unfolding gate_conn_def gate_conn_total resolves_total_iff_acyclic [OF assms] by simp
qed

subsection \<open>What the gate guarantees\<close>

text \<open>
  C14. The gate of a task does not depend on the order in which the hash set of unresolved tasks
  is iterated: every order gives the value of \<open>gate_conn\<close>, error or gate.
\<close>

theorem gate_order_irrelevant: "gate_conn_ordered hash ptr i s = gate_conn ptr i s"
  unfolding gate_conn_def by (rule gate_conn_order_independent)

text \<open>
  C13. When every edge joins tasks of the store, the evaluation of the prerequisite graph ends
  with a gate exactly when the task exists and the graph has no cycle.
\<close>

theorem gate_answers_iff_acyclic:
  assumes "deps_in_tasks s"
  shows "(\<exists>g. gate_conn ptr i s = Inr g) \<longleftrightarrow> find_task i s \<noteq> None \<and> acyclic (dep_rel (dependencies s))"
  unfolding gate_conn_def gate_conn_total resolves_total_iff_acyclic [OF assms] ..

theorem gate_answers_iff_acyclic_witness:
  "let s = empty_db\<lparr>tasks := [example_task ''a'' ''done'', example_task ''b'' ''ready''],
                   dependencies := [example_edge ''b'' ''a'']\<rparr> in
   \<exists>g. gate_conn (\<lambda>_ _. None) ''b'' s = Inr g"
proof -
  let ?s = "empty_db\<lparr>tasks := [example_task ''a'' ''done'', example_task ''b'' ''ready''],
                   dependencies := [example_edge ''b'' ''a'']\<rparr>"
  have "deps_in_tasks ?s" by (simp add: deps_in_tasks_def example_defs)
  moreover have "find_task ''b'' ?s \<noteq> None" by (simp add: find_task_def example_defs)
  moreover have "acyclic (dep_rel (dependencies ?s))"
    by (simp add: dep_rel_def example_defs acyclic_insert wf_acyclic)
  ultimately show ?thesis using gate_answers_iff_acyclic [of ?s] by (simp add: Let_def)
qed

text \<open>
  C7. Execution of a task is let through exactly when the task exists, the graph has no cycle
  and its prerequisites are met: every prerequisite outside the chains is done, and of those in
  its chain all or, for an \<open>any\<close> join, at least one is done with a result that matches.
\<close>

theorem enforce_gate_iff_prerequisites:
  assumes "deps_in_tasks s"
  shows "enforce_gate_conn ptr i s = Inr () \<longleftrightarrow>
    find_task i s \<noteq> None \<and> acyclic (dep_rel (dependencies s)) \<and> prerequisites_met ptr s i"
  using assms by (rule enforce_gate_iff)

theorem enforce_gate_iff_prerequisites_witness:
  "let s = empty_db\<lparr>tasks := [example_task ''a'' ''ready'', example_task ''b'' ''ready''],
                   dependencies := [example_edge ''b'' ''a'']\<rparr> in
   enforce_gate_conn (\<lambda>_ _. None) ''a'' s = Inr () \<and> enforce_gate_conn (\<lambda>_ _. None) ''b'' s \<noteq> Inr ()"
proof -
  let ?s = "empty_db\<lparr>tasks := [example_task ''a'' ''ready'', example_task ''b'' ''ready''],
                   dependencies := [example_edge ''b'' ''a'']\<rparr>"
  have ok: "deps_in_tasks ?s" by (simp add: deps_in_tasks_def example_defs)
  have "find_task ''a'' ?s \<noteq> None" by (simp add: find_task_def example_defs)
  moreover have "acyclic (dep_rel (dependencies ?s))"
    by (simp add: dep_rel_def example_defs acyclic_insert wf_acyclic)
  moreover have "prerequisites_met (\<lambda>_ _. None) ?s ''a''"
    by (simp add: prerequisites_met_def example_defs join_mode_of_def)
  moreover have "\<not> prerequisites_met (\<lambda>_ _. None) ?s ''b''"
    by (simp add: prerequisites_met_def example_defs dependency_satisfied_def find_task_def)
  ultimately show ?thesis
    using enforce_gate_iff_prerequisites [OF ok, of _ "''a''"] enforce_gate_iff_prerequisites [OF ok, of _ "''b''"]
    by (simp add: Let_def)
qed

end
