(* ===== verification/Chains.thy ===== *)
theory Chains
  imports Gate
begin

text \<open>
  Task chains, task groups and dependencies (\<open>morrows-store/src/task_graph.rs\<close> and the
  dependency operations of \<open>collaboration.rs\<close>): who may add an edge, the recursive query that
  refuses cycles, and the operations that edit collections, members and edges.
\<close>

subsection \<open>Reachability\<close>

text \<open>
  The recursive common table expression of \<open>save_chain_edge\<close> and \<open>add_dependency\<close>, evaluated
  the way SQLite evaluates \<open>UNION\<close>: a row is taken from the queue, the rows it yields that
  were not seen before are appended. The result is the table \<open>reachable\<close>.
\<close>

definition prerequisites_of :: "dependency list \<Rightarrow> id \<Rightarrow> id list" where
  "prerequisites_of ds i = map d_on (filter (\<lambda>d. d_task d = i) ds)"

lemma diff_shrinks: "A \<subseteq> D - S \<Longrightarrow> A \<noteq> {} \<Longrightarrow> D - (S \<union> A) \<subset> D - S"
  by blast

function cte_loop :: "dependency list \<Rightarrow> id list \<Rightarrow> id list \<Rightarrow> id list" where
  "cte_loop ds [] seen = seen"
| "cte_loop ds (x # queue) seen =
     (let new = remdups (filter (\<lambda>j. j \<notin> set seen) (prerequisites_of ds x))
      in cte_loop ds (queue @ new) (seen @ new))"
  by pat_completeness auto
termination
proof (relation "measures [\<lambda>(ds, queue, seen). card (d_on ` set ds - set seen), \<lambda>(ds, queue, seen). length queue]",
    simp, goal_cases)
  case (1 ds x queue seen new)
  show ?case
  proof (cases "new = []")
    case True
    then show ?thesis by simp
  next
    case False
    from 1 have "set new \<subseteq> d_on ` set ds - set seen"
      by (auto simp: prerequisites_of_def)
    moreover from False have "set new \<noteq> {}" by simp
    ultimately have "d_on ` set ds - set (seen @ new) \<subset> d_on ` set ds - set seen"
      unfolding set_append by (rule diff_shrinks)
    then have "card (d_on ` set ds - set (seen @ new)) < card (d_on ` set ds - set seen)"
      by (intro psubset_card_mono) simp_all
    then show ?thesis by simp
  qed
qed

definition reachable :: "dependency list \<Rightarrow> id \<Rightarrow> id list" where
  "reachable ds i = (let start = remdups (prerequisites_of ds i) in cte_loop ds start start)"

lemma prerequisites_dep_rel: "set (prerequisites_of ds i) = {j. (j, i) \<in> dep_rel ds}"
  by (auto simp: prerequisites_of_def dep_rel_def)

lemma cte_loop_reaches:
  assumes "set queue \<subseteq> set seen"
    and "\<forall>i \<in> set seen - set queue. set (prerequisites_of ds i) \<subseteq> set seen"
  shows "set seen \<subseteq> set (cte_loop ds queue seen)
    \<and> (\<forall>i \<in> set (cte_loop ds queue seen). set (prerequisites_of ds i) \<subseteq> set (cte_loop ds queue seen))"
  using assms
proof (induction ds queue seen rule: cte_loop.induct)
  case (1 ds seen)
  then show ?case by simp
next
  case (2 ds x queue seen)
  define new where "new = remdups (filter (\<lambda>j. j \<notin> set seen) (prerequisites_of ds x))"
  have "set (queue @ new) \<subseteq> set (seen @ new)" using "2.prems"(1) by auto
  moreover have "\<forall>i \<in> set (seen @ new) - set (queue @ new). set (prerequisites_of ds i) \<subseteq> set (seen @ new)"
    using "2.prems"(2) by (auto simp: new_def)
  ultimately show ?case using "2.IH" [OF new_def] by (auto simp: Let_def simp flip: new_def)
qed

lemma cte_loop_sound:
  assumes "set queue \<subseteq> {j. (j, i) \<in> (dep_rel ds)\<^sup>+}" "set seen \<subseteq> {j. (j, i) \<in> (dep_rel ds)\<^sup>+}"
  shows "set (cte_loop ds queue seen) \<subseteq> {j. (j, i) \<in> (dep_rel ds)\<^sup>+}"
  using assms
proof (induction ds queue seen rule: cte_loop.induct)
  case (1 ds seen)
  then show ?case by simp
next
  case (2 ds x queue seen)
  define new where "new = remdups (filter (\<lambda>j. j \<notin> set seen) (prerequisites_of ds x))"
  have "set new \<subseteq> {j. (j, i) \<in> (dep_rel ds)\<^sup>+}"
    using "2.prems"(1) by (auto simp: new_def prerequisites_dep_rel intro: trancl_into_trancl2)
  with "2.prems" show ?case using "2.IH" [OF new_def] by (simp add: Let_def flip: new_def)
qed

lemma set_reachable: "set (reachable ds i) = {j. (j, i) \<in> (dep_rel ds)\<^sup>+}"
proof
  show "set (reachable ds i) \<subseteq> {j. (j, i) \<in> (dep_rel ds)\<^sup>+}"
    unfolding reachable_def Let_def
    by (rule cte_loop_sound) (auto simp: prerequisites_dep_rel)
  have start: "set (prerequisites_of ds i) \<subseteq> set (reachable ds i)"
    and closed: "\<forall>j \<in> set (reachable ds i). set (prerequisites_of ds j) \<subseteq> set (reachable ds i)"
    using cte_loop_reaches [of "remdups (prerequisites_of ds i)" "remdups (prerequisites_of ds i)" ds]
    by (simp_all add: reachable_def Let_def)
  show "{j. (j, i) \<in> (dep_rel ds)\<^sup>+} \<subseteq> set (reachable ds i)"
  proof clarify
    fix j assume "(j, i) \<in> (dep_rel ds)\<^sup>+"
    then show "j \<in> set (reachable ds i)"
    proof (induction rule: converse_trancl_induct)
      case (base y)
      with start show ?case by (auto simp: prerequisites_dep_rel)
    next
      case (step y z)
      with closed show ?case by (auto simp: prerequisites_dep_rel)
    qed
  qed
qed

subsection \<open>The edge interface\<close>

text \<open>
  What the two operations that add an edge rely on: a reachability test that answers the
  transitive closure, asked for the dependent task from its new prerequisite.
\<close>

locale edge_guard =
  fixes reach :: "dependency list \<Rightarrow> id \<Rightarrow> id list"
  assumes reach_trancl: "set (reach ds i) = {j. (j, i) \<in> (dep_rel ds)\<^sup>+}"
begin

lemma guarded_edge_acyclic:
  assumes "acyclic (dep_rel ds)" "d_task d \<notin> set (reach ds (d_on d))" "d_task d \<noteq> d_on d"
  shows "acyclic (dep_rel (ds @ [d]))"
proof -
  have "(d_task d, d_on d) \<notin> (dep_rel ds)\<^sup>*"
    using assms(2,3) by (simp add: reach_trancl rtrancl_eq_or_trancl)
  moreover have "dep_rel (ds @ [d]) = insert (d_on d, d_task d) (dep_rel ds)"
    by (auto simp: dep_rel_def)
  ultimately show ?thesis using assms(1) by (simp add: acyclic_insert)
qed

lemma unguarded_edge_cyclic:
  assumes "d_task d \<in> set (reach ds (d_on d))"
  shows "\<not> acyclic (dep_rel (ds @ [d]))"
proof -
  have "(d_task d, d_on d) \<in> (dep_rel ds)\<^sup>*"
    using assms by (simp add: reach_trancl trancl_into_rtrancl)
  moreover have "dep_rel (ds @ [d]) = insert (d_on d, d_task d) (dep_rel ds)"
    by (auto simp: dep_rel_def)
  ultimately show ?thesis by (simp add: acyclic_insert)
qed

end

interpretation cte: edge_guard reachable
  by unfold_locales (rule set_reachable)

subsection \<open>Collections\<close>

text \<open>\<open>tables(chain)\<close>: the table a flag names.\<close>

definition collection_table :: "bool \<Rightarrow> string" where
  "collection_table chain = (if chain then ''task_chains'' else ''task_groups'')"

definition collections :: "bool \<Rightarrow> db \<Rightarrow> collection list" where
  "collections chain s = (if chain then task_chains s else task_groups s)"

definition set_collections :: "bool \<Rightarrow> collection list \<Rightarrow> db \<Rightarrow> db" where
  "set_collections chain rows s =
     (if chain then s\<lparr>task_chains := rows\<rparr> else s\<lparr>task_groups := rows\<rparr>)"

definition find_collection :: "bool \<Rightarrow> id \<Rightarrow> db \<Rightarrow> collection option" where
  "find_collection chain i s = find (\<lambda>c. tc_id c = i) (collections chain s)"

definition active_collection :: "bool \<Rightarrow> id \<Rightarrow> db \<Rightarrow> unit res" where
  "active_collection chain i s =
     bind_res (ok_or (NotFound ''collection'') (find_collection chain i s)) (\<lambda>c.
       ensure (\<not> tc_archived c) (Conflict ''collection is archived''))"

definition list_task_collections :: "bool \<Rightarrow> db \<Rightarrow> collection list" where
  "list_task_collections chain s = sort_key (\<lambda>c. (tc_created_at c, tc_id c)) (collections chain s)"

record save_collection =
  sc_name :: string
  sc_description :: string
  sc_archived :: bool

definition save_task_collection_tx ::
  "bool \<Rightarrow> id option \<Rightarrow> id \<Rightarrow> save_collection \<Rightarrow> time \<Rightarrow> (db, collection) tx" where
  "save_task_collection_tx chain i fresh input now s =
     (let cid = (case i of Some x \<Rightarrow> x | None \<Rightarrow> fresh);
          written =
            (if i \<noteq> None
             then if rows_affected (\<lambda>c. tc_id c = cid) (collections chain s) = 0
                  then Inl (NotFound ''collection'')
                  else Inr (set_collections chain
                    (update_where (\<lambda>c. tc_id c = cid)
                       (\<lambda>c. c\<lparr>tc_name := trim (sc_name input), tc_description := sc_description input,
                             tc_archived := sc_archived input, tc_updated_at := now\<rparr>)
                       (collections chain s)) s)
             else if list_ex (\<lambda>c. tc_id c = cid) (collections chain s)
             then Inl (storage PrimaryKeyViolation)
             else Inr (set_collections chain
               (collections chain s @
                  [\<lparr>tc_id = cid, tc_name = trim (sc_name input),
                    tc_description = sc_description input, tc_archived = sc_archived input,
                    tc_created_at = now, tc_updated_at = now, tc_owner = None\<rparr>]) s))
      in bind_res written (\<lambda>s1.
         let s2 = append_event_tx ''operator'' ''operator'' (collection_table chain) cid
           ''collection.saved''
           [(''name'', PStr (sc_name input)), (''description'', PStr (sc_description input)),
            (''archived'', PBool (sc_archived input))] None now s1
         in bind_res (ok_or no_rows (find_collection chain cid s2)) (\<lambda>c. Inr (c, s2))))"

definition save_task_collection ::
  "bool \<Rightarrow> id option \<Rightarrow> id \<Rightarrow> save_collection \<Rightarrow> time \<Rightarrow> (db, collection) operation" where
  "save_task_collection chain i fresh input now =
     checked (\<lambda>s. ensure (\<not> blank (sc_name input)) (InvalidInput ''name cannot be empty''))
       (\<lambda>_. commit (save_task_collection_tx chain i fresh input now))"

definition create_agent_task_group_tx ::
  "id \<Rightarrow> id \<Rightarrow> save_collection \<Rightarrow> time \<Rightarrow> (db, collection) tx" where
  "create_agent_task_group_tx agent fresh input now s =
     bind_res (ensure (find_agent agent s \<noteq> None) (NotFound ''agent instance'')) (\<lambda>_.
     bind_res (ensure (\<not> list_ex (\<lambda>c. tc_id c = fresh) (task_groups s)) (storage PrimaryKeyViolation)) (\<lambda>_.
     let c = \<lparr>tc_id = fresh, tc_name = trim (sc_name input), tc_description = sc_description input,
              tc_archived = False, tc_created_at = now, tc_updated_at = now, tc_owner = Some agent\<rparr>
     in Inr (c, append_event_tx ''agent_instance'' agent ''task_groups'' fresh ''collection.created''
          [(''name'', PStr (trim (sc_name input)))] None now
          (s\<lparr>task_groups := task_groups s @ [c]\<rparr>))))"

definition create_agent_task_group ::
  "id \<Rightarrow> id \<Rightarrow> save_collection \<Rightarrow> time \<Rightarrow> (db, collection) operation" where
  "create_agent_task_group agent fresh input now =
     checked (\<lambda>s.
       bind_res (ensure (\<not> blank (sc_name input) \<and> chars_count (trim (sc_name input)) \<le> 160)
         (InvalidInput ''group name must contain 1..160 characters'')) (\<lambda>_.
       ensure (length (sc_description input) \<le> 8192 \<and> \<not> sc_archived input)
         (InvalidInput ''invalid new group description or archived state'')))
       (\<lambda>_. commit (create_agent_task_group_tx agent fresh input now))"

definition archive_task_collection_tx :: "bool \<Rightarrow> id \<Rightarrow> time \<Rightarrow> (db, unit) tx" where
  "archive_task_collection_tx chain i now s =
     bind_res (ensure (rows_affected (\<lambda>c. tc_id c = i) (collections chain s) \<noteq> 0)
       (NotFound ''collection'')) (\<lambda>_.
     Inr ((), append_event_tx ''operator'' ''operator'' (collection_table chain) i
        ''collection.archived'' [] None now
        (set_collections chain
          (update_where (\<lambda>c. tc_id c = i) (\<lambda>c. c\<lparr>tc_archived := True, tc_updated_at := now\<rparr>)
             (collections chain s)) s)))"

definition archive_task_collection :: "bool \<Rightarrow> id \<Rightarrow> time \<Rightarrow> (db, unit) operation" where
  "archive_task_collection chain i now = commit (archive_task_collection_tx chain i now)"

subsection \<open>Members\<close>

text \<open>
  \<open>task_writer_conn\<close> (\<open>memory.rs\<close>): the owner of a task and every instance that ever held
  an assignment of it may write to it.
\<close>

definition task_writer_conn :: "id \<Rightarrow> id \<Rightarrow> db \<Rightarrow> task res" where
  "task_writer_conn i agent s =
     bind_res (bind_res (ok_or (NotFound (''task '' @ i)) (find_task i s)) row_to_task) (\<lambda>k.
     bind_res (ensure
       (list_ex (\<lambda>a. ag_id a = agent \<and>
          (t_owner (k_row k) = ''agent:'' @ agent
           \<or> list_ex (\<lambda>b. a_task b = i \<and> a_agent b = agent) (assignments s))) (agents s))
       (Conflict ''task is not owned by or assigned to the authenticated agent instance'')) (\<lambda>_.
     Inr k))"

definition join_text :: "join_mode \<Rightarrow> string" where
  "join_text m = (if m = JoinAny then ''any'' else ''all'')"

text \<open>
  \<open>INSERT ... ON CONFLICT(chain_id,task_id) DO UPDATE\<close>: the column \<open>task_id\<close> alone is unique
  too, so a task of another chain is refused.
\<close>

definition upsert_chain_member :: "chain_member \<Rightarrow> db \<Rightarrow> sql_error + db" where
  "upsert_chain_member m s =
     (let same = (\<lambda>x. cm_chain x = cm_chain m \<and> cm_task x = cm_task m) in
      if list_ex same (chain_members s)
      then Inr (s\<lparr>chain_members := update_where same (\<lambda>x. x\<lparr>cm_join := cm_join m\<rparr>) (chain_members s)\<rparr>)
      else if list_ex (\<lambda>x. cm_task x = cm_task m) (chain_members s) then Inl UniqueViolation
      else if find_task (cm_task m) s = None \<or> find_collection True (cm_chain m) s = None
      then Inl ForeignKeyViolation
      else Inr (s\<lparr>chain_members := chain_members s @ [m]\<rparr>))"

definition insert_or_ignore_group_member :: "group_member \<Rightarrow> db \<Rightarrow> sql_error + db" where
  "insert_or_ignore_group_member m s =
     (if m \<in> set (group_members s) then Inr s
      else if find_task (gm_task m) s = None \<or> find_collection False (gm_group m) s = None
      then Inl ForeignKeyViolation
      else Inr (s\<lparr>group_members := group_members s @ [m]\<rparr>))"

definition change_agent_task_group_member_tx ::
  "id \<Rightarrow> id \<Rightarrow> id \<Rightarrow> bool \<Rightarrow> time \<Rightarrow> (db, unit) tx" where
  "change_agent_task_group_member_tx agent gid task remove now s =
     bind_res (ok_or (NotFound ''task group'') (find_collection False gid s)) (\<lambda>g.
     bind_res (ensure (\<not> tc_archived g) (Conflict ''group is archived'')) (\<lambda>_.
     bind_res (ensure (tc_owner g = Some agent)
       (Conflict ''only the creating agent may modify this group'')) (\<lambda>_.
     bind_res (task_writer_conn task agent s) (\<lambda>_.
     bind_res
       (if remove
        then Inr (s\<lparr>group_members := filter (\<lambda>m. \<not> (gm_group m = gid \<and> gm_task m = task)) (group_members s)\<rparr>)
        else exec (insert_or_ignore_group_member \<lparr>gm_group = gid, gm_task = task\<rparr> s)) (\<lambda>s1.
     Inr ((), append_event_tx ''agent_instance'' agent ''task_groups'' gid
       ''collection.member_changed'' [(''task_id'', PStr task), (''removed'', PBool remove)] None now s1))))))"

definition change_agent_task_group_member ::
  "id \<Rightarrow> id \<Rightarrow> id \<Rightarrow> bool \<Rightarrow> time \<Rightarrow> (db, unit) operation" where
  "change_agent_task_group_member agent gid task remove now =
     commit (change_agent_task_group_member_tx agent gid task remove now)"

definition set_collection_member_tx ::
  "bool \<Rightarrow> id \<Rightarrow> id \<Rightarrow> join_mode \<Rightarrow> bool \<Rightarrow> time \<Rightarrow> (db, unit) tx" where
  "set_collection_member_tx chain i task join remove now s =
     bind_res (active_collection chain i s) (\<lambda>_.
     bind_res
       (if remove then
          if chain then
            if list_ex (\<lambda>d. d_chain d = Some i \<and> (d_task d = task \<or> d_on d = task)) (dependencies s)
            then Inl (Conflict ''remove the member's chain edges first'')
            else Inr (s\<lparr>chain_members :=
              filter (\<lambda>m. \<not> (cm_chain m = i \<and> cm_task m = task)) (chain_members s)\<rparr>)
          else Inr (s\<lparr>group_members :=
            filter (\<lambda>m. \<not> (gm_group m = i \<and> gm_task m = task)) (group_members s)\<rparr>)
        else if chain
        then exec (upsert_chain_member \<lparr>cm_chain = i, cm_task = task, cm_join = join_text join\<rparr> s)
        else exec (insert_or_ignore_group_member \<lparr>gm_group = i, gm_task = task\<rparr> s)) (\<lambda>s1.
     Inr ((), append_event_tx ''operator'' ''operator'' (collection_table chain) i
       ''collection.member_changed''
       [(''task_id'', PStr task), (''removed'', PBool remove), (''join_mode'', PStr (join_text join))]
       None now s1)))"

definition set_collection_member ::
  "bool \<Rightarrow> id \<Rightarrow> id \<Rightarrow> join_mode \<Rightarrow> bool \<Rightarrow> time \<Rightarrow> (db, unit) operation" where
  "set_collection_member chain i task join remove now =
     commit (set_collection_member_tx chain i task join remove now)"

subsection \<open>Edges\<close>

definition validate_condition :: "edge_condition \<Rightarrow> unit res" where
  "validate_condition c =
     (case c of
        Unconditional \<Rightarrow> Inr ()
      | ResultEquals path v \<Rightarrow>
          let valid_escapes =
            list_all (\<lambda>w. starts_with ''0'' w \<or> starts_with ''1'' w) (drop 1 (split_on (CHR ''~'') path))
          in ensure (\<not> ((path \<noteq> [] \<and> \<not> starts_with ''/'' path) \<or> \<not> valid_escapes))
               (InvalidInput ''result path must be an RFC 6901 JSON Pointer''))"

record save_edge =
  se_task :: id
  se_on :: id
  se_condition :: edge_condition

definition condition_json :: "edge_condition \<Rightarrow> pval" where
  "condition_json c =
     (case c of
        Unconditional \<Rightarrow> PObj [(''kind'', PStr ''unconditional'')]
      | ResultEquals path v \<Rightarrow>
          PObj [(''kind'', PStr ''result_equals''), (''path'', PStr path), (''value'', PJson v)])"

definition same_edge :: "id \<Rightarrow> id \<Rightarrow> dependency \<Rightarrow> bool" where
  "same_edge task on d \<longleftrightarrow> d_task d = task \<and> d_on d = on"

definition edge_keys_exist :: "dependency \<Rightarrow> db \<Rightarrow> bool" where
  "edge_keys_exist d s \<longleftrightarrow>
     find_task (d_task d) s \<noteq> None \<and> find_task (d_on d) s \<noteq> None
     \<and> (case d_chain d of None \<Rightarrow> True | Some c \<Rightarrow> find_collection True c s \<noteq> None)
     \<and> (case d_created_by d of None \<Rightarrow> True | Some a \<Rightarrow> find_agent a s \<noteq> None)"

text \<open>
  \<open>INSERT ... ON CONFLICT(task_id,depends_on_task_id) DO UPDATE\<close> under the table's
  \<open>CHECK(task_id != depends_on_task_id)\<close> and its foreign keys.
\<close>

definition upsert_edge :: "dependency \<Rightarrow> db \<Rightarrow> sql_error + db" where
  "upsert_edge d s =
     (let same = same_edge (d_task d) (d_on d) in
      if d_task d = d_on d then Inl CheckViolation
      else if list_ex same (dependencies s)
      then Inr (s\<lparr>dependencies := update_where same
        (\<lambda>x. x\<lparr>d_condition := d_condition d, d_chain := d_chain d, d_actor := d_actor d\<rparr>)
        (dependencies s)\<rparr>)
      else if \<not> edge_keys_exist d s then Inl ForeignKeyViolation
      else Inr (s\<lparr>dependencies := dependencies s @ [d]\<rparr>))"

definition save_chain_edge_tx :: "id \<Rightarrow> save_edge \<Rightarrow> time \<Rightarrow> (db, unit) tx" where
  "save_chain_edge_tx chain input now s =
     bind_res (active_collection True chain s) (\<lambda>_.
     bind_res (ensure
       (rows_affected (\<lambda>m. cm_chain m = chain \<and> (cm_task m = se_task input \<or> cm_task m = se_on input))
          (chain_members s) = 2)
       (InvalidInput ''edge requires two distinct chain members'')) (\<lambda>_.
     bind_res (ensure (se_task input \<notin> set (reachable (dependencies s) (se_on input)))
       (Conflict ''dependency cycle'')) (\<lambda>_.
     bind_res (ensure
       (case find (same_edge (se_task input) (se_on input)) (dependencies s) of
          None \<Rightarrow> True | Some d \<Rightarrow> d_chain d = Some chain)
       (Conflict ''edge already exists outside this chain'')) (\<lambda>_.
     bind_res (exec (upsert_edge
       \<lparr>d_task = se_task input, d_on = se_on input, d_created_by = None,
        d_actor = ''operator:control-plane'', d_created_at = now, d_chain = Some chain,
        d_condition = se_condition input\<rparr> s)) (\<lambda>s1.
     Inr ((), append_event_tx ''operator'' ''operator'' ''task_chain'' chain ''chain.edge_saved''
       [(''task_id'', PStr (se_task input)), (''depends_on_task_id'', PStr (se_on input)),
        (''condition'', condition_json (se_condition input))] None now s1))))))"

definition save_chain_edge :: "id \<Rightarrow> save_edge \<Rightarrow> time \<Rightarrow> (db, unit) operation" where
  "save_chain_edge chain input now =
     checked (\<lambda>s. validate_condition (se_condition input))
       (\<lambda>_. commit (save_chain_edge_tx chain input now))"

definition remove_chain_edge_tx :: "id \<Rightarrow> id \<Rightarrow> id \<Rightarrow> time \<Rightarrow> (db, unit) tx" where
  "remove_chain_edge_tx chain task predecessor now s =
     bind_res (active_collection True chain s) (\<lambda>_.
     let gone = (\<lambda>d. d_chain d = Some chain \<and> same_edge task predecessor d) in
     bind_res (ensure (rows_affected gone (dependencies s) \<noteq> 0) (NotFound ''chain edge'')) (\<lambda>_.
     Inr ((), append_event_tx ''operator'' ''operator'' ''task_chain'' chain ''chain.edge_removed''
       [(''task_id'', PStr task), (''depends_on_task_id'', PStr predecessor)] None now
       (s\<lparr>dependencies := filter (\<lambda>d. \<not> gone d) (dependencies s)\<rparr>))))"

definition remove_chain_edge :: "id \<Rightarrow> id \<Rightarrow> id \<Rightarrow> time \<Rightarrow> (db, unit) operation" where
  "remove_chain_edge chain task predecessor now = commit (remove_chain_edge_tx chain task predecessor now)"

definition add_dependency_tx :: "id \<Rightarrow> id \<Rightarrow> id \<Rightarrow> time \<Rightarrow> (db, dependency) tx" where
  "add_dependency_tx task on actor now s =
     bind_res (ensure (task \<notin> set (reachable (dependencies s) on)) (Conflict ''dependency cycle'')) (\<lambda>_.
     let d = \<lparr>d_task = task, d_on = on, d_created_by = Some actor, d_actor = ''agent:'' @ actor,
              d_created_at = now, d_chain = None, d_condition = Unconditional\<rparr> in
     bind_res (ensure (\<not> list_ex (same_edge task on) (dependencies s) \<and> task \<noteq> on)
       (Conflict ''dependency already exists'')) (\<lambda>_.
     bind_res (ensure (edge_keys_exist d s) (storage ForeignKeyViolation)) (\<lambda>_.
     Inr (d, append_event_tx ''agent_instance'' actor ''task'' task ''dependency.added''
       [(''depends_on_task_id'', PStr on)] None now
       (s\<lparr>dependencies := dependencies s @ [d]\<rparr>)))))"

definition add_dependency :: "id \<Rightarrow> id \<Rightarrow> id \<Rightarrow> time \<Rightarrow> (db, dependency) operation" where
  "add_dependency task on actor now =
     checked (\<lambda>s.
       bind_res (get_agent actor s) (\<lambda>_.
       bind_res (get_task task s) (\<lambda>_.
       bind_res (get_task on s) (\<lambda>_.
       ensure (task \<noteq> on) (InvalidInput ''self dependency'')))))
       (\<lambda>_. commit (add_dependency_tx task on actor now))"

definition remove_dependency_tx :: "id \<Rightarrow> id \<Rightarrow> id \<Rightarrow> time \<Rightarrow> (db, unit) tx" where
  "remove_dependency_tx task on actor now s =
     bind_res (ensure (rows_affected (same_edge task on) (dependencies s) \<noteq> 0) (NotFound ''dependency'')) (\<lambda>_.
     Inr ((), append_event_tx ''agent_instance'' actor ''task'' task ''dependency.removed''
       [(''depends_on_task_id'', PStr on)] None now
       (s\<lparr>dependencies := filter (\<lambda>d. \<not> same_edge task on d) (dependencies s)\<rparr>)))"

definition remove_dependency :: "id \<Rightarrow> id \<Rightarrow> id \<Rightarrow> time \<Rightarrow> (db, unit) operation" where
  "remove_dependency task on actor now =
     checked (get_agent actor) (\<lambda>_. commit (remove_dependency_tx task on actor now))"

subsection \<open>The invariant of the graph\<close>

definition edge_key :: "dependency \<Rightarrow> id \<times> id" where
  "edge_key d = (d_task d, d_on d)"

definition graph_ok :: "db \<Rightarrow> bool" where
  "graph_ok s \<longleftrightarrow>
     acyclic (dep_rel (dependencies s))
     \<and> distinct (map edge_key (dependencies s))
     \<and> deps_in_tasks s
     \<and> distinct (map cm_task (chain_members s))
     \<and> cm_task ` set (chain_members s) \<subseteq> t_id ` set (tasks s)
     \<and> (\<forall>d \<in> set (dependencies s). \<forall>c. d_chain d = Some c \<longrightarrow>
          {(c, d_task d), (c, d_on d)} \<subseteq> (\<lambda>m. (cm_chain m, cm_task m)) ` set (chain_members s))"

lemma refs_mono: "A \<subseteq> B \<Longrightarrow> \<forall>d \<in> D. f d \<in> A \<and> g d \<in> A \<Longrightarrow> \<forall>d \<in> D. f d \<in> B \<and> g d \<in> B"
  by blast

lemma graph_ok_cong:
  assumes "dependencies s' = dependencies s" "chain_members s' = chain_members s"
    "t_id ` set (tasks s) \<subseteq> t_id ` set (tasks s')"
  shows "graph_ok s \<Longrightarrow> graph_ok s'"
  using refs_mono [OF assms(3), of "set (dependencies s)" d_on d_task]
    order.trans [OF _ assms(3), of "cm_task ` set (chain_members s)"]
  unfolding graph_ok_def deps_in_tasks_def assms(1,2) by (intro conjI) (elim conjE, assumption | blast)+

lemma deps_in_tasks_append_event [simp]:
  "deps_in_tasks (append_event_tx at ai et ei ty pl co now s) = deps_in_tasks s"
  by (simp add: deps_in_tasks_def)

lemma graph_ok_append_event [simp]:
  "graph_ok (append_event_tx at ai et ei ty pl co now s) = graph_ok s"
  by (simp add: graph_ok_def deps_in_tasks_def)

lemma set_collections_tables [simp]:
  "dependencies (set_collections chain rows s) = dependencies s"
  "chain_members (set_collections chain rows s) = chain_members s"
  "tasks (set_collections chain rows s) = tasks s"
  by (simp_all add: set_collections_def)

lemma edge_keys_in_tasks:
  "edge_keys_exist d s \<Longrightarrow> d_task d \<in> t_id ` set (tasks s) \<and> d_on d \<in> t_id ` set (tasks s)"
  unfolding edge_keys_exist_def find_task_in by blast

lemma dep_rel_mono: "set ds \<subseteq> set es \<Longrightarrow> dep_rel ds \<subseteq> dep_rel es"
  by (auto simp: dep_rel_def)

lemma dep_rel_same: "map edge_key ds = map edge_key es \<Longrightarrow> dep_rel ds = dep_rel es"
proof -
  have key: "dep_rel ds = (\<lambda>(i, j). (j, i)) ` set (map edge_key ds)" for ds
    by (force simp: dep_rel_def edge_key_def)
  show "map edge_key ds = map edge_key es \<Longrightarrow> dep_rel ds = dep_rel es"
    by (simp only: key [of ds] key [of es])
qed

lemma graph_ok_remove_edges:
  assumes "graph_ok s"
  shows "graph_ok (s\<lparr>dependencies := filter P (dependencies s)\<rparr>)"
proof -
  have "dep_rel (filter P (dependencies s)) \<subseteq> dep_rel (dependencies s)"
    by (rule dep_rel_mono) simp
  with assms show ?thesis
    by (auto simp: graph_ok_def deps_in_tasks_def distinct_map_filter intro: acyclic_subset)
qed

lemma graph_ok_remove_member:
  assumes "graph_ok s"
    and "\<And>m d. m \<in> set (chain_members s) \<Longrightarrow> \<not> P m \<Longrightarrow> d \<in> set (dependencies s) \<Longrightarrow>
      d_chain d = Some (cm_chain m) \<Longrightarrow> cm_task m \<noteq> d_task d \<and> cm_task m \<noteq> d_on d"
  shows "graph_ok (s\<lparr>chain_members := filter P (chain_members s)\<rparr>)"
proof -
  have "(c, i) \<in> (\<lambda>m. (cm_chain m, cm_task m)) ` set (filter P (chain_members s))"
    if d: "d \<in> set (dependencies s)" "d_chain d = Some c" "i = d_task d \<or> i = d_on d" for d c i
  proof -
    from assms(1) d have "(c, i) \<in> (\<lambda>m. (cm_chain m, cm_task m)) ` set (chain_members s)"
      unfolding graph_ok_def by blast
    then obtain m where "m \<in> set (chain_members s)" "cm_chain m = c" "cm_task m = i" by auto
    with assms(2) [of m d] d show ?thesis by auto
  qed
  with assms(1) show ?thesis
    unfolding graph_ok_def deps_in_tasks_def by (auto simp: distinct_map_filter)
qed

text \<open>Two rows counted among the members \<open>i\<close> and \<open>j\<close> of a chain are the two of them.\<close>

lemma two_members:
  assumes "distinct (map cm_task ms)"
    and "rows_affected (\<lambda>m. cm_chain m = c \<and> (cm_task m = i \<or> cm_task m = j)) ms = 2"
  shows "i \<noteq> j \<and> {(c, i), (c, j)} \<subseteq> (\<lambda>m. (cm_chain m, cm_task m)) ` set ms"
proof -
  let ?two = "filter (\<lambda>m. cm_chain m = c \<and> (cm_task m = i \<or> cm_task m = j)) ms"
  from assms(1) have "distinct (map cm_task ?two)" by (rule distinct_map_filter)
  moreover from assms(2) have "length (map cm_task ?two) = 2" by (simp add: rows_affected_def)
  ultimately have card: "card (cm_task ` set ?two) = 2"
    using distinct_card [of "map cm_task ?two"] unfolding list.set_map by argo
  have sub: "cm_task ` set ?two \<subseteq> {i, j}" by auto
  have ne: "i \<noteq> j"
  proof
    assume "i = j"
    with sub have "card (cm_task ` set ?two) \<le> card {i}" by (intro card_mono) auto
    with card show False by simp
  qed
  with sub card have two: "cm_task ` set ?two = {i, j}" by (intro card_subset_eq) simp_all
  have "(c, k) \<in> (\<lambda>m. (cm_chain m, cm_task m)) ` set ms" if "k \<in> {i, j}" for k
  proof -
    have "k \<in> cm_task ` set ?two" using that two by blast
    then obtain m where "m \<in> set ms" "cm_chain m = c" "cm_task m = k" by auto
    then show ?thesis by (intro image_eqI [of _ _ m]) simp_all
  qed
  then show ?thesis using ne by simp
qed

lemma graph_ok_upsert_edge:
  assumes ok: "graph_ok s" and up: "upsert_edge d s = Inr s'" and chain: "d_chain d = Some c"
    and two: "rows_affected (\<lambda>m. cm_chain m = c \<and> (cm_task m = d_task d \<or> cm_task m = d_on d)) (chain_members s) = 2"
    and no_cycle: "d_task d \<notin> set (reachable (dependencies s) (d_on d))"
  shows "graph_ok s'"
proof -
  from ok two have ne: "d_task d \<noteq> d_on d"
    and members: "{(c, d_task d), (c, d_on d)} \<subseteq> (\<lambda>m. (cm_chain m, cm_task m)) ` set (chain_members s)"
    using two_members [of "chain_members s" c "d_task d" "d_on d"] by (simp_all add: graph_ok_def)
  show ?thesis
  proof (cases "list_ex (same_edge (d_task d) (d_on d)) (dependencies s)")
    case True
    let ?f = "\<lambda>x. x\<lparr>d_condition := d_condition d, d_chain := d_chain d, d_actor := d_actor d\<rparr>"
    let ?ds = "update_where (same_edge (d_task d) (d_on d)) ?f (dependencies s)"
    from True up ne have s': "s' = s\<lparr>dependencies := ?ds\<rparr>"
      by (simp add: upsert_edge_def Let_def)
    have keys: "map edge_key ?ds = map edge_key (dependencies s)"
      by (rule map_update_where) (simp add: edge_key_def)
    have "{(c', d_task x), (c', d_on x)} \<subseteq> (\<lambda>m. (cm_chain m, cm_task m)) ` set (chain_members s)"
      if "x \<in> set ?ds" "d_chain x = Some c'" for x c'
    proof -
      from that(1) obtain y where y: "y \<in> set (dependencies s)"
        "x = (if same_edge (d_task d) (d_on d) y then ?f y else y)"
        by (auto simp: set_update_where)
      show ?thesis
      proof (cases "same_edge (d_task d) (d_on d) y")
        case True
        with y that(2) chain members show ?thesis by (simp add: same_edge_def)
      next
        case False
        with y that(2) ok show ?thesis by (simp add: graph_ok_def)
      qed
    qed
    moreover from ok have "deps_in_tasks (s\<lparr>dependencies := ?ds\<rparr>)"
      by (auto simp: graph_ok_def deps_in_tasks_def set_update_where)
    moreover have "distinct (map edge_key ?ds)" "acyclic (dep_rel ?ds)"
      using ok keys dep_rel_same [OF keys] by (simp_all add: graph_ok_def)
    ultimately show ?thesis using ok unfolding graph_ok_def s' by simp
  next
    case False
    with up ne have s': "s' = s\<lparr>dependencies := dependencies s @ [d]\<rparr>"
      and keys: "edge_keys_exist d s"
      by (auto simp: upsert_edge_def Let_def split: if_splits)
    from ok no_cycle ne have "acyclic (dep_rel (dependencies s @ [d]))"
      by (intro cte.guarded_edge_acyclic) (simp_all add: graph_ok_def)
    moreover from False have "edge_key d \<notin> set (map edge_key (dependencies s))"
      by (auto simp: list_ex_iff same_edge_def edge_key_def)
    moreover from keys ok have "deps_in_tasks s'"
      using edge_keys_in_tasks [of d s] by (auto simp: deps_in_tasks_def graph_ok_def s')
    ultimately show ?thesis using ok members chain unfolding graph_ok_def s' by simp
  qed
qed

lemma graph_ok_save_chain_edge_tx:
  assumes ok: "graph_ok s" and tx: "save_chain_edge_tx chain input now s = Inr (x, s')"
  shows "graph_ok s'"
proof -
  let ?d = "\<lparr>d_task = se_task input, d_on = se_on input, d_created_by = None,
        d_actor = ''operator:control-plane'', d_created_at = now, d_chain = Some chain,
        d_condition = se_condition input\<rparr>"
  from tx obtain s1 where
    "rows_affected (\<lambda>m. cm_chain m = chain \<and> (cm_task m = se_task input \<or> cm_task m = se_on input))
       (chain_members s) = 2"
    "se_task input \<notin> set (reachable (dependencies s) (se_on input))"
    "upsert_edge ?d s = Inr s1"
    "graph_ok s' = graph_ok s1"
    by (auto simp: save_chain_edge_tx_def res_simps)
  then show ?thesis using graph_ok_upsert_edge [OF ok, of ?d s1 chain] by simp
qed

lemma graph_ok_add_dependency_tx:
  assumes ok: "graph_ok s" and tx: "add_dependency_tx task on actor now s = Inr (x, s')"
  shows "graph_ok s'"
proof -
  from tx have no_cycle: "task \<notin> set (reachable (dependencies s) on)"
    and fresh: "\<not> list_ex (same_edge task on) (dependencies s)" "task \<noteq> on"
    and keys: "edge_keys_exist x s"
    and x: "d_task x = task" "d_on x = on" "d_chain x = None"
    and s': "s' = append_event_tx ''agent_instance'' actor ''task'' task ''dependency.added''
       [(''depends_on_task_id'', PStr on)] None now (s\<lparr>dependencies := dependencies s @ [x]\<rparr>)"
    by (auto simp: add_dependency_tx_def res_simps Let_def)
  from ok no_cycle fresh(2) x have "acyclic (dep_rel (dependencies s @ [x]))"
    by (intro cte.guarded_edge_acyclic) (simp_all add: graph_ok_def)
  moreover from fresh(1) x have "edge_key x \<notin> set (map edge_key (dependencies s))"
    by (auto simp: list_ex_iff same_edge_def edge_key_def)
  moreover from keys ok have "deps_in_tasks (s\<lparr>dependencies := dependencies s @ [x]\<rparr>)"
    using edge_keys_in_tasks [of x s] by (auto simp: deps_in_tasks_def graph_ok_def)
  ultimately show ?thesis using ok x by (simp add: graph_ok_def s')
qed

lemma graph_ok_set_collection_member_tx:
  assumes ok: "graph_ok s" and tx: "set_collection_member_tx chain i task join remove now s = Inr (x, s')"
  shows "graph_ok s'"
proof -
  have member: "graph_ok s1" if "upsert_chain_member m s = Inr s1" for m s1
  proof (cases "list_ex (\<lambda>x. cm_chain x = cm_chain m \<and> cm_task x = cm_task m) (chain_members s)")
    case True
    let ?P = "\<lambda>x. cm_chain x = cm_chain m \<and> cm_task x = cm_task m"
    let ?ms = "update_where ?P (\<lambda>x. x\<lparr>cm_join := cm_join m\<rparr>) (chain_members s)"
    from True that have s1: "s1 = s\<lparr>chain_members := ?ms\<rparr>" by (simp add: upsert_chain_member_def)
    have same: "map cm_task ?ms = map cm_task (chain_members s)"
      "map (\<lambda>m. (cm_chain m, cm_task m)) ?ms = map (\<lambda>m. (cm_chain m, cm_task m)) (chain_members s)"
      by (rule map_update_where, simp)+
    from arg_cong [OF same(2), of set] arg_cong [OF same(1), of set]
    have "(\<lambda>m. (cm_chain m, cm_task m)) ` set ?ms = (\<lambda>m. (cm_chain m, cm_task m)) ` set (chain_members s)"
      "cm_task ` set ?ms = cm_task ` set (chain_members s)"
      unfolding list.set_map .
    then show ?thesis
      using ok same(1) unfolding graph_ok_def deps_in_tasks_def s1 by simp
  next
    case False
    with that have s1: "s1 = s\<lparr>chain_members := chain_members s @ [m]\<rparr>"
      and new: "cm_task m \<notin> cm_task ` set (chain_members s)" "cm_task m \<in> t_id ` set (tasks s)"
      by (auto simp: upsert_chain_member_def Let_def list_ex_iff find_task_in_ids split: if_splits)
    show ?thesis
      using ok new unfolding graph_ok_def deps_in_tasks_def s1 by simp
  qed
  have gone: "graph_ok (s\<lparr>chain_members := filter (\<lambda>m. \<not> (cm_chain m = i \<and> cm_task m = task)) (chain_members s)\<rparr>)"
    if "\<not> list_ex (\<lambda>d. d_chain d = Some i \<and> (d_task d = task \<or> d_on d = task)) (dependencies s)"
    using that by (intro graph_ok_remove_member ok) (auto simp: list_ex_iff)
  have members: "graph_ok (s\<lparr>group_members := ms\<rparr>)" for ms
    using ok by (rule graph_ok_cong [rotated 3]) simp_all
  from tx show ?thesis
    using ok member gone members
    by (auto simp: set_collection_member_tx_def res_simps insert_or_ignore_group_member_def
        split: if_splits)
qed

lemma graph_ok_edge_removals:
  assumes "graph_ok s"
  shows "remove_chain_edge_tx chain task predecessor now s = Inr (x, s') \<Longrightarrow> graph_ok s'"
    and "remove_dependency_tx task on actor now s = Inr (x, s') \<Longrightarrow> graph_ok s'"
  using graph_ok_remove_edges [OF assms]
  by (auto simp: remove_chain_edge_tx_def remove_dependency_tx_def res_simps Let_def)

subsection \<open>What the operations guarantee\<close>

text \<open>
  C15. The recursive query the two edge operations run, evaluated with SQLite's queue, ends and
  yields exactly the transitive prerequisites of a task.
\<close>

theorem reachable_is_transitive_closure:
  "set (reachable edges i) = {j. (j, i) \<in> (dep_rel edges)\<^sup>+}"
  by (rule set_reachable)

lemma get_task_in: "get_task i s = Inr k \<Longrightarrow> find_task i s \<noteq> None"
  by (auto simp: get_task_def res_simps)

lemma not_reachable_iff:
  assumes "acyclic (dep_rel ds)" "task \<noteq> on"
  shows "task \<notin> set (reachable ds on) \<longleftrightarrow> acyclic (insert (on, task) (dep_rel ds))"
  using assms by (simp add: set_reachable acyclic_insert rtrancl_eq_or_trancl)

text \<open>
  Between existing tasks, \<open>add_dependency\<close> succeeds exactly when the two tasks differ, the
  edge is not there yet, and the graph with the edge is still acyclic; so the cycle test refuses
  no edge that is harmless.
\<close>

theorem add_dependency_iff:
  assumes "graph_ok s" "get_agent actor s = Inr g" "get_task task s = Inr k" "get_task on s = Inr k'"
  shows "(\<exists>d s'. add_dependency task on actor now s = (Inr d, s')) \<longleftrightarrow>
    task \<noteq> on \<and> (task, on) \<notin> edge_key ` set (dependencies s)
    \<and> acyclic (insert (on, task) (dep_rel (dependencies s)))"
proof -
  have ac: "acyclic (dep_rel (dependencies s))" using assms(1) by (simp add: graph_ok_def)
  have edge: "list_ex (same_edge task on) (dependencies s) \<longleftrightarrow> (task, on) \<in> edge_key ` set (dependencies s)"
    by (auto simp: list_ex_iff same_edge_def edge_key_def image_iff)
  have "find_agent actor s \<noteq> None" using assms(2) by (auto simp: get_agent_def res_simps)
  then have keys: "edge_keys_exist \<lparr>d_task = task, d_on = on, d_created_by = Some actor, d_actor = ''agent:'' @ actor,
              d_created_at = now, d_chain = None, d_condition = Unconditional\<rparr> s"
    using get_task_in [OF assms(3)] get_task_in [OF assms(4)] by (simp add: edge_keys_exist_def)
  show ?thesis
    using assms(2-4) not_reachable_iff [OF ac, of task on] keys edge
    by (auto simp: add_dependency_def add_dependency_tx_def res_simps Let_def)
qed

theorem add_dependency_iff_witness:
  "let s = empty_db\<lparr>tasks := [example_task ''a'' ''ready'', example_task ''b'' ''ready''],
                   agents := [example_agent ''g''], dependencies := [example_edge ''b'' ''a'']\<rparr> in
   \<not> (\<exists>d s'. add_dependency ''a'' ''b'' ''g'' 0 s = (Inr d, s'))"
proof -
  let ?s = "empty_db\<lparr>tasks := [example_task ''a'' ''ready'', example_task ''b'' ''ready''],
                   agents := [example_agent ''g''], dependencies := [example_edge ''b'' ''a'']\<rparr>"
  have ok: "graph_ok ?s"
    by (simp add: graph_ok_def deps_in_tasks_def dep_rel_def edge_key_def example_defs acyclic_insert wf_acyclic)
  have g: "get_agent ''g'' ?s = Inr (example_agent ''g'')"
    by (simp add: get_agent_def find_agent_def example_defs)
  have k: "get_task ''a'' ?s = Inr \<lparr>k_row = example_task ''a'' ''ready'', k_state = Ready, k_mode = Open\<rparr>"
    "get_task ''b'' ?s = Inr \<lparr>k_row = example_task ''b'' ''ready'', k_state = Ready, k_mode = Open\<rparr>"
    by (simp_all add: get_task_def find_task_def row_to_task_def task_state_from_str_def
        assignment_mode_from_str_def example_defs)
  have no: "\<not> acyclic (insert (''b'', ''a'') (dep_rel (dependencies ?s)))"
    by (simp add: dep_rel_def example_defs acyclic_insert r_into_rtrancl)
  show ?thesis
    unfolding Let_def using add_dependency_iff [OF ok g k, of 0] no by blast
qed

text \<open>
  C16. Every operation on edges and chain members keeps the graph acyclic, its edges unique and
  between existing tasks, a task in at most one chain, and a chain's edges between its members.
\<close>

theorem graph_operations_keep_graph_ok:
  assumes "graph_ok s"
  shows "graph_ok (snd (add_dependency task on actor now s))
    \<and> graph_ok (snd (remove_dependency task on actor now s))
    \<and> graph_ok (snd (save_chain_edge chain edge now s))
    \<and> graph_ok (snd (remove_chain_edge chain task on now s))
    \<and> graph_ok (snd (set_collection_member is_chain chain task join remove now s))"
proof (intro conjI)
  show "graph_ok (snd (add_dependency task on actor now s))"
    unfolding add_dependency_def
    by (rule checked_invariant [where I = graph_ok, OF assms], rule commit_invariant [where I = graph_ok, OF assms], erule graph_ok_add_dependency_tx [OF assms])
  show "graph_ok (snd (remove_dependency task on actor now s))"
    unfolding remove_dependency_def
    by (rule checked_invariant [where I = graph_ok, OF assms], rule commit_invariant [where I = graph_ok, OF assms], erule graph_ok_edge_removals(2) [OF assms])
  show "graph_ok (snd (save_chain_edge chain edge now s))"
    unfolding save_chain_edge_def
    by (rule checked_invariant [where I = graph_ok, OF assms], rule commit_invariant [where I = graph_ok, OF assms], erule graph_ok_save_chain_edge_tx [OF assms])
  show "graph_ok (snd (remove_chain_edge chain task on now s))"
    unfolding remove_chain_edge_def
    by (rule commit_invariant [where I = graph_ok, OF assms], erule graph_ok_edge_removals(1) [OF assms])
  show "graph_ok (snd (set_collection_member is_chain chain task join remove now s))"
    unfolding set_collection_member_def
    by (rule commit_invariant [where I = graph_ok, OF assms], erule graph_ok_set_collection_member_tx [OF assms])
qed

theorem graph_operations_keep_graph_ok_witness:
  "graph_ok (snd (add_dependency ''b'' ''a'' ''g'' 0
     (empty_db\<lparr>tasks := [example_task ''a'' ''ready'', example_task ''b'' ''ready''], agents := [example_agent ''g'']\<rparr>)))"
proof -
  have "graph_ok (empty_db\<lparr>tasks := [example_task ''a'' ''ready'', example_task ''b'' ''ready''], agents := [example_agent ''g'']\<rparr>)"
    by (simp add: graph_ok_def deps_in_tasks_def dep_rel_def example_defs wf_acyclic)
  from graph_operations_keep_graph_ok [OF this] show ?thesis by blast
qed

end
