(* ===== verification/Intake.thy ===== *)
theory Intake
  imports Chains
begin

text \<open>
  Assignment intake (\<open>morrows-store/src/intake.rs\<close>, \<open>morrows-core/src/intake.rs\<close>): the phases
  an executor assignment passes before its run may start, what blocks them, and the thread of
  the human interview (\<open>task_message.rs\<close>). The code that is not under \<open>src/\<close> is a parameter
  \<open>x\<close>: the JSON pointer lookup and the rendering of serde\_json (of a document and of a gate), the parser of the uuid crate
  and the Git repository behind \<open>project_memory_head_conn\<close>.
\<close>

record external =
  x_pointer :: "json \<Rightarrow> string \<Rightarrow> json option"
  x_render :: "json \<Rightarrow> string"
  x_gate :: "task_gate \<Rightarrow> string"
  x_parse_id :: "string \<Rightarrow> id option"
  x_memory_head :: "db \<Rightarrow> id \<Rightarrow> string option res"

subsection \<open>Rows\<close>

definition context_review :: string where "context_review = ''context_review''"
definition human_interview :: string where "human_interview = ''human_interview''"
definition ready_phase :: string where "ready_phase = ''ready''"
definition implementing :: string where "implementing = ''implementing''"

lemmas phase_defs = context_review_def human_interview_def ready_phase_def implementing_def

definition update_intake :: "id \<Rightarrow> (intake \<Rightarrow> intake) \<Rightarrow> db \<Rightarrow> db" where
  "update_intake i f s = s\<lparr>intakes := update_where (\<lambda>n. in_assignment n = i) f (intakes s)\<rparr>"

definition find_intake :: "id \<Rightarrow> db \<Rightarrow> intake option" where
  "find_intake i s = find (\<lambda>n. in_assignment n = i) (intakes s)"

definition load_intake_tx :: "id \<Rightarrow> db \<Rightarrow> intake res" where
  "load_intake_tx i s = ok_or (NotFound (''assignment intake '' @ i)) (find_intake i s)"

text \<open>\<open>UPDATE assignments SET phase=? WHERE id=? AND status='active'\<close>.\<close>

definition set_phase :: "id \<Rightarrow> string \<Rightarrow> db \<Rightarrow> db" where
  "set_phase i p = update_assignments (\<lambda>a. a_id a = i \<and> a_status a = ''active'') (\<lambda>a. a\<lparr>a_phase := p\<rparr>)"

definition create_assignment_intake_tx :: "id \<Rightarrow> id \<Rightarrow> id \<Rightarrow> time \<Rightarrow> db \<Rightarrow> db res" where
  "create_assignment_intake_tx i task agent now s =
     (let project = Option.bind (find_task task s) t_project in
      if list_ex (\<lambda>n. in_assignment n = i) (intakes s) then Inl (storage PrimaryKeyViolation)
      else if find_assignment i s = None \<or> find_task task s = None \<or> find_agent agent s = None
      then Inl (storage ForeignKeyViolation)
      else Inr (s\<lparr>intakes := intakes s @
        [\<lparr>in_assignment = i, in_task = task, in_agent = agent, in_project = project,
          in_memory_head = None, in_memory_next_offset = None, in_memory_complete = False,
          in_memory_read_at = None, in_package = None, in_context = None,
          in_package_read_at = None, in_understanding = [], in_constraints = JObj [],
          in_plan = JArr [], in_questions = [], in_unresolved = [],
          in_interview_status = ''not_started'', in_conversation_state = ''not_started'',
          in_human_response = None, in_approved_by = None, in_approved_at = None,
          in_thread = None, in_interview_started_at = None, in_final_summary = None,
          in_confirmation = None, in_converged_at = None, in_created_at = now,
          in_updated_at = now\<rparr>]\<rparr>))"

definition hours :: "int \<Rightarrow> time" where
  "hours n = n * 3600 * 1000000000"

definition extend_intake_lease_tx :: "id \<Rightarrow> time \<Rightarrow> db \<Rightarrow> db" where
  "extend_intake_lease_tx i now =
     update_assignments (\<lambda>a. a_id a = i \<and> a_status a = ''active'')
       (\<lambda>a. a\<lparr>a_expires_at := max (a_expires_at a) (now + hours 24), a_renewed_at := now\<rparr>)"

definition active_executor_assignment :: "id \<Rightarrow> id \<Rightarrow> time \<Rightarrow> db \<Rightarrow> assignment res" where
  "active_executor_assignment task agent now s =
     ok_or (Conflict ''no active executor assignment for caller'')
       (last_max a_acquired_at
          (filter (\<lambda>a. a_task a = task \<and> a_agent a = agent \<and> a_role a = ''executor''
             \<and> a_status a = ''active'' \<and> now < a_expires_at a) (assignments s)))"

subsection \<open>Blockers\<close>

definition latest_package :: "id \<Rightarrow> db \<Rightarrow> context_package_row option" where
  "latest_package task s = last_max pk_created_at (filter (\<lambda>p. pk_task p = task) (packages s))"

text \<open>\<open>git_backend\<close> (\<open>git_memory.rs\<close>), and the head a project's memory has in either backend.\<close>

definition git_backend :: "id \<Rightarrow> db \<Rightarrow> bool" where
  "git_backend project s =
     (map_option gd_backend (find (\<lambda>g. gd_domain g = project) (git_domains s)) = Some ''git'')"

definition current_head :: "external \<Rightarrow> id \<Rightarrow> db \<Rightarrow> string option res" where
  "current_head x project s = (if git_backend project s then x_memory_head x s project else Inr None)"

definition intake_read_blockers_tx :: "external \<Rightarrow> assignment \<Rightarrow> intake \<Rightarrow> db \<Rightarrow> string list res" where
  "intake_read_blockers_tx x a n s =
     bind_res (ok_or no_rows (find_task (a_task a) s)) (\<lambda>t.
       case t_project t of
         None \<Rightarrow> Inr [''missing_project'']
       | Some project \<Rightarrow>
           bind_res (current_head x project s) (\<lambda>head.
           Inr ((if in_project n \<noteq> Some project then [''project_changed_or_unread''] else [])
             @ (if \<not> in_memory_complete n \<or> in_memory_read_at n = None then [''project_memory_unread'']
                else if in_memory_head n \<noteq> head then [''project_memory_stale''] else [])
             @ (case latest_package (a_task a) s of
                  None \<Rightarrow> [''context_package_missing'']
                | Some p \<Rightarrow>
                    (if in_package n \<noteq> Some (pk_id p) \<or> in_package_read_at n = None
                     then [''context_package_unread_or_stale''] else [])
                    @ (if pk_context p \<noteq> t_context t \<or> in_context n \<noteq> t_context t
                       then [''task_context_changed''] else [])))))"

definition intake_execution_blockers_tx :: "external \<Rightarrow> assignment \<Rightarrow> intake \<Rightarrow> db \<Rightarrow> string list res" where
  "intake_execution_blockers_tx x a n s =
     bind_res (intake_read_blockers_tx x a n s) (\<lambda>blockers.
       let converged = in_conversation_state n = ''converged'' \<and> in_approved_at n \<noteq> None
             \<and> in_converged_at n \<noteq> None in
       Inr (blockers
         @ (if \<not> converged then [''human_interview_not_converged''] else [])
         @ (if in_unresolved n \<noteq> [] then [''unresolved_questions''] else [])))"

text \<open>What an assignment without blockers has read and agreed.\<close>

definition intake_current :: "external \<Rightarrow> assignment \<Rightarrow> intake \<Rightarrow> db \<Rightarrow> bool" where
  "intake_current x a n s \<longleftrightarrow>
     (\<exists>t project p. find_task (a_task a) s = Some t \<and> t_project t = Some project
        \<and> in_project n = Some project
        \<and> in_memory_complete n \<and> in_memory_read_at n \<noteq> None
        \<and> current_head x project s = Inr (in_memory_head n)
        \<and> latest_package (a_task a) s = Some p
        \<and> in_package n = Some (pk_id p) \<and> in_package_read_at n \<noteq> None
        \<and> pk_context p = t_context t \<and> in_context n = t_context t)"

definition interview_agreed :: "intake \<Rightarrow> bool" where
  "interview_agreed n \<longleftrightarrow> in_conversation_state n = ''converged'' \<and> in_approved_at n \<noteq> None
     \<and> in_converged_at n \<noteq> None \<and> in_unresolved n = []"

lemma read_blockers_none:
  "intake_read_blockers_tx x a n s = Inr [] \<longleftrightarrow> intake_current x a n s"
proof (cases "find_task (a_task a) s")
  case None
  then show ?thesis by (simp add: intake_read_blockers_tx_def intake_current_def)
next
  case (Some t)
  show ?thesis
  proof (cases "t_project t")
    case None
    with Some show ?thesis by (simp add: intake_read_blockers_tx_def intake_current_def)
  next
    case project: (Some p)
    show ?thesis
    proof (cases "current_head x p s")
      case (Inl e)
      with Some project show ?thesis by (simp add: intake_read_blockers_tx_def intake_current_def)
    next
      case (Inr head)
      with Some project show ?thesis
        by (cases "latest_package (a_task a) s")
          (auto simp: intake_read_blockers_tx_def intake_current_def)
    qed
  qed
qed

lemma execution_blockers_none:
  "intake_execution_blockers_tx x a n s = Inr [] \<longleftrightarrow> intake_current x a n s \<and> interview_agreed n"
  by (auto simp: intake_execution_blockers_tx_def interview_agreed_def res_simps Let_def
      simp flip: read_blockers_none split: if_splits)

subsection \<open>Gates on execution\<close>

definition enforce_execution_phase_tx :: "external \<Rightarrow> assignment \<Rightarrow> db \<Rightarrow> db res" where
  "enforce_execution_phase_tx x a s =
     (if a_role a \<noteq> ''executor'' then Inr s
      else
        bind_res (enforce_gate_conn (x_pointer x) (a_task a) s) (\<lambda>_.
        if a_phase a = implementing then Inr s
        else
          bind_res (ensure (a_phase a = ready_phase)
            (Conflict (''task execution blocked: intake phase is '' @ a_phase a
               @ ''; complete task_intake and human interview first''))) (\<lambda>_.
          bind_res (load_intake_tx (a_id a) s) (\<lambda>n.
          bind_res (intake_execution_blockers_tx x a n s) (\<lambda>blockers.
          bind_res (ensure (blockers = [])
            (Conflict (''task execution blocked by intake: '' @ join_with '', '' blockers))) (\<lambda>_.
          Inr (update_assignments
            (\<lambda>b. a_id b = a_id a \<and> a_status b = ''active'' \<and> a_phase b = ready_phase)
            (\<lambda>b. b\<lparr>a_phase := implementing\<rparr>) s)))))))"

definition begin_task_execution_tx ::
  "external \<Rightarrow> id \<Rightarrow> id \<Rightarrow> assignment \<Rightarrow> time \<Rightarrow> (db, unit) tx" where
  "begin_task_execution_tx x task agent a now s =
     bind_res (enforce_gate_conn (x_pointer x) task s) (\<lambda>_.
     bind_res (load_intake_tx (a_id a) s) (\<lambda>n.
     bind_res (intake_execution_blockers_tx x a n s) (\<lambda>blockers.
     bind_res (ensure (blockers = [])
       (Conflict (''task execution blocked by intake: '' @ join_with '', '' blockers))) (\<lambda>_.
     let changed = (\<lambda>b. a_id b = a_id a \<and> a_status b = ''active'' \<and> a_phase b = ready_phase) in
     bind_res (ensure (rows_affected changed (assignments s) = 1)
       (Conflict ''assignment intake phase changed concurrently'')) (\<lambda>_.
     Inr ((), append_event_tx ''agent_instance'' agent ''task'' task ''intake.execution_started''
       [(''assignment_id'', PStr (a_id a))] None now
       (update_assignments changed (\<lambda>b. b\<lparr>a_phase := implementing\<rparr>) s)))))))"

definition begin_task_execution :: "external \<Rightarrow> id \<Rightarrow> id \<Rightarrow> time \<Rightarrow> (db, assignment) operation" where
  "begin_task_execution x task agent now =
     checked (active_executor_assignment task agent now) (\<lambda>a.
       if a_phase a = implementing
       then commit (\<lambda>s. bind_res (enforce_gate_conn (x_pointer x) task s) (\<lambda>_. Inr (a, s)))
       else checked (\<lambda>s. ensure (a_phase a = ready_phase)
           (Conflict (''task execution blocked: assignment intake phase is '' @ a_phase a)))
         (\<lambda>_. commit_then (begin_task_execution_tx x task agent a now) (\<lambda>_. get_assignment (a_id a))))"

subsection \<open>The interview\<close>

text \<open>\<open>ensure_task_agent_thread_tx\<close> (\<open>task_message.rs\<close>).\<close>

definition ensure_task_agent_thread_tx :: "id \<Rightarrow> id \<Rightarrow> id \<Rightarrow> time \<Rightarrow> (db, id) tx" where
  "ensure_task_agent_thread_tx task agent fresh now s =
     (case last_max (\<lambda>h. (th_created_at h, th_id h))
        (filter (\<lambda>h. th_task h = task \<and> th_kind h = ''human_agent'' \<and> th_target h = Some agent) (threads s)) of
        Some h \<Rightarrow> Inr (th_id h, s)
      | None \<Rightarrow>
          bind_res (ok_or (NotFound (''task '' @ task)) (find_task task s)) (\<lambda>t.
          bind_res (ok_or (NotFound (''agent '' @ agent)) (find_agent agent s)) (\<lambda>g.
          bind_res (ensure (\<not> list_ex (\<lambda>h. th_id h = fresh) (threads s)) (storage PrimaryKeyViolation)) (\<lambda>_.
          Inr (fresh, append_event_tx ''system'' ''task-messaging'' ''task'' task ''thread.created''
            [(''thread_id'', PStr fresh), (''kind'', PStr ''human_agent''),
             (''target_agent_instance_id'', PStr agent)] None now
            (s\<lparr>threads := threads s @
              [\<lparr>th_id = fresh, th_task = task, th_kind = ''human_agent'', th_target = Some agent,
                th_created_by = Some agent,
                th_title = t_title t @ map char_of [32, 194, 183, 32::nat] @ ag_display g,
                th_created_at = now\<rparr>]\<rparr>))))))"

definition start_intake_interview_tx ::
  "external \<Rightarrow> id \<Rightarrow> id \<Rightarrow> assignment \<Rightarrow> id \<Rightarrow> time \<Rightarrow> (db, unit) tx" where
  "start_intake_interview_tx x task agent a fresh now s =
     bind_res (enforce_gate_conn (x_pointer x) task s) (\<lambda>_.
     bind_res (load_intake_tx (a_id a) s) (\<lambda>n.
     bind_res (intake_read_blockers_tx x a n s) (\<lambda>blockers.
     bind_res (ensure (blockers = [])
       (Conflict (''task intake context review is incomplete: '' @ join_with '', '' blockers))) (\<lambda>_.
     bind_res (case in_thread n of
         Some t \<Rightarrow> Inr (t, s)
       | None \<Rightarrow> ensure_task_agent_thread_tx task agent fresh now s) (\<lambda>(thread, s1).
     let s2 = update_intake (a_id a) (\<lambda>n. n\<lparr>in_thread := Some thread,
           in_conversation_state := ''waiting_for_agent'',
           in_interview_started_at :=
             (case in_interview_started_at n of None \<Rightarrow> Some now | Some t \<Rightarrow> Some t),
           in_interview_status := ''pending'', in_human_response := None, in_approved_by := None,
           in_approved_at := None, in_final_summary := None, in_confirmation := None,
           in_converged_at := None, in_updated_at := now\<rparr>) s1;
         s3 = set_phase (a_id a) human_interview (extend_intake_lease_tx (a_id a) now s2)
     in Inr ((), append_event_tx ''agent_instance'' agent ''task'' task ''intake.interview_started''
          [(''assignment_id'', PStr (a_id a)), (''thread_id'', PStr thread)] None now s3))))))"

definition start_intake_interview ::
  "external \<Rightarrow> id \<Rightarrow> id \<Rightarrow> id \<Rightarrow> time \<Rightarrow> (db, intake) operation" where
  "start_intake_interview x task agent fresh now =
     checked (active_executor_assignment task agent now) (\<lambda>a.
     checked (\<lambda>s. ensure (a_phase a = context_review \<or> a_phase a = human_interview)
         (Conflict (''assignment intake phase is '' @ a_phase a
            @ ''; interview may only start during context_review or human_interview'')))
       (\<lambda>_. commit_then (start_intake_interview_tx x task agent a fresh now) (\<lambda>_. load_intake_tx (a_id a))))"

record interview_finalize =
  if_understanding :: string
  if_constraints :: json
  if_plan :: json
  if_unresolved :: "string list"
  if_final_summary :: "id option"
  if_confirmation :: "id option"

definition find_message :: "id \<Rightarrow> id \<Rightarrow> db \<Rightarrow> message_row option" where
  "find_message m thread s = find (\<lambda>r. ms_id r = m \<and> ms_thread r = thread) (messages s)"

definition validate_optional_interview_audit_tx ::
  "id \<Rightarrow> id \<Rightarrow> id \<Rightarrow> time option \<Rightarrow> id option \<Rightarrow> id option \<Rightarrow> db \<Rightarrow> unit res" where
  "validate_optional_interview_audit_tx thread task agent started final_summary confirmation s =
     bind_res (ok_or (NotFound (''thread '' @ thread)) (find (\<lambda>h. th_id h = thread) (threads s))) (\<lambda>h.
     bind_res (ensure (th_task h = task \<and> th_kind h = ''human_agent'' \<and> th_target h = Some agent)
       (Conflict ''human interview thread is not the task-scoped Human/Agent thread for this Agent'')) (\<lambda>_.
     bind_res
       (case final_summary of None \<Rightarrow> Inr ()
        | Some m \<Rightarrow>
            bind_res (ok_or (NotFound (''task message '' @ m)) (find_message m thread s)) (\<lambda>r.
            bind_res (ensure (ms_author_type r = ''agent'' \<and> ms_created_by r = Some agent \<and> ms_recalled_at r = None)
              (Conflict ''optional final_summary_message_id must identify a current Agent-authored message in the interview thread'')) (\<lambda>_.
            case started of None \<Rightarrow> Inr ()
            | Some t \<Rightarrow> ensure (\<not> ms_created_at r < t)
                (Conflict ''optional final_summary_message_id predates the current interview round'')))) (\<lambda>_.
     case confirmation of None \<Rightarrow> Inr ()
     | Some m \<Rightarrow>
         bind_res (ok_or (NotFound (''task message '' @ m)) (find_message m thread s)) (\<lambda>r.
         ensure (ms_author_type r = ''human'' \<and> ms_recalled_at r = None)
           (Conflict ''optional confirmation_message_id must identify a current Human message in the interview thread'')))))"

definition finalize_intake_interview_tx ::
  "external \<Rightarrow> id \<Rightarrow> id \<Rightarrow> assignment \<Rightarrow> interview_finalize \<Rightarrow> time \<Rightarrow> (db, unit) tx" where
  "finalize_intake_interview_tx x task agent a input now s =
     bind_res (load_intake_tx (a_id a) s) (\<lambda>n.
     bind_res (ok_or (Conflict ''human interview has no bound task collaboration thread'') (in_thread n)) (\<lambda>thread.
     bind_res (ensure (in_conversation_state n \<noteq> ''not_started'') (Conflict ''human interview has not started'')) (\<lambda>_.
     bind_res (intake_read_blockers_tx x a n s) (\<lambda>blockers.
     bind_res (ensure (blockers = [])
       (Conflict (''task intake became stale during human interview: '' @ join_with '', '' blockers))) (\<lambda>_.
     bind_res (validate_optional_interview_audit_tx thread task agent (in_interview_started_at n)
       (if_final_summary input) (if_confirmation input) s) (\<lambda>_.
     let body = Option.bind (if_confirmation input) (\<lambda>m. map_option ms_body (find_message m thread s));
         s1 = update_intake (a_id a) (\<lambda>n. n\<lparr>in_understanding := trim (if_understanding input),
           in_constraints := if_constraints input, in_plan := if_plan input, in_unresolved := [],
           in_interview_status := ''approved'', in_conversation_state := ''converged'',
           in_human_response := body, in_approved_by := Some (''agent_attested:'' @ agent),
           in_approved_at := Some now, in_final_summary := if_final_summary input,
           in_confirmation := if_confirmation input, in_converged_at := Some now,
           in_updated_at := now\<rparr>) s;
         s2 = (case if_confirmation input of None \<Rightarrow> s1
           | Some m \<Rightarrow> s1\<lparr>messages := update_where
               (\<lambda>r. ms_id r = m \<and> ms_thread r = thread \<and> ms_author_type r = ''human'' \<and> ms_recalled_at r = None)
               (\<lambda>r. r\<lparr>ms_status := ''delivered''\<rparr>) (messages s1)\<rparr>);
         s3 = extend_intake_lease_tx (a_id a) now (set_phase (a_id a) ready_phase s2)
     in Inr ((), append_event_tx ''agent_instance'' agent ''task'' task ''intake.interview_converged''
          [(''assignment_id'', PStr (a_id a)), (''thread_id'', PStr thread),
           (''final_summary_message_id'', p_opt (if_final_summary input)),
           (''confirmation_message_id'', p_opt (if_confirmation input)),
           (''convergence_mode'', PStr ''agent_attested'')] None now s3)))))))"

definition finalize_intake_interview ::
  "external \<Rightarrow> id \<Rightarrow> id \<Rightarrow> interview_finalize \<Rightarrow> time \<Rightarrow> (db, intake) operation" where
  "finalize_intake_interview x task agent input now =
     checked (\<lambda>s.
       bind_res (ensure (\<not> blank (if_understanding input))
         (InvalidInput ''interview understanding is required'')) (\<lambda>_.
       bind_res (ensure (\<not> value_is_empty (if_plan input)) (InvalidInput ''interview plan is required'')) (\<lambda>_.
       bind_res (ensure (if_unresolved input = [])
         (Conflict ''human interview cannot converge while unresolved_questions is non-empty'')) (\<lambda>_.
       bind_res (active_executor_assignment task agent now s) (\<lambda>a.
       bind_res (ensure (a_phase a = human_interview)
         (Conflict (''assignment intake phase is '' @ a_phase a @ ''; expected human_interview''))) (\<lambda>_.
       Inr a))))))
     (\<lambda>a. commit_then (finalize_intake_interview_tx x task agent a input now) (\<lambda>_. load_intake_tx (a_id a)))"

subsection \<open>Reading the context\<close>

text \<open>
  \<open>record_intake_read\<close>: one page of the project memory and the context package were shown to
  the assignment. The memory snapshot must be read from offset 0, in order, and a changed
  snapshot sends a started interview back to the context review.
\<close>

definition intake_same_snapshot :: "intake \<Rightarrow> id \<Rightarrow> string option \<Rightarrow> bool" where
  "intake_same_snapshot n project head \<longleftrightarrow>
     in_project n = Some project \<and> in_memory_head n = head
     \<and> (in_memory_read_at n \<noteq> None \<or> in_memory_next_offset n \<noteq> None \<or> in_memory_complete n)"

definition record_intake_read_tx ::
  "assignment \<Rightarrow> id \<Rightarrow> string option \<Rightarrow> int \<Rightarrow> int option \<Rightarrow> context_package_row \<Rightarrow> time \<Rightarrow> (db, unit) tx" where
  "record_intake_read_tx a project head offset next package now s =
     bind_res (load_intake_tx (a_id a) s) (\<lambda>n.
     let same = intake_same_snapshot n project head in
     bind_res (ensure (\<not> (\<not> same \<and> offset \<noteq> 0))
       (Conflict ''project memory snapshot changed; restart task_intake from offset 0'')) (\<lambda>_.
     bind_res (ensure (same \<and> \<not> in_memory_complete n \<longrightarrow>
         offset = (case in_memory_next_offset n of None \<Rightarrow> 0 | Some k \<Rightarrow> k))
       (Conflict ''task_intake expected another project memory offset'')) (\<lambda>_.
     let changed = in_project n \<noteq> Some project \<or> in_memory_head n \<noteq> head
           \<or> in_package n \<noteq> Some (pk_id package) \<or> in_context n \<noteq> pk_context package;
         s1 = (if changed \<and> (in_interview_status n \<noteq> ''not_started''
                 \<or> in_conversation_state n \<noteq> ''not_started'')
           then update_intake (a_id a) (\<lambda>n. n\<lparr>in_understanding := [], in_constraints := JObj [],
                  in_plan := JArr [], in_questions := [], in_unresolved := [],
                  in_interview_status := ''not_started'', in_conversation_state := ''not_started'',
                  in_human_response := None, in_approved_by := None, in_approved_at := None,
                  in_interview_started_at := None, in_final_summary := None,
                  in_confirmation := None, in_converged_at := None\<rparr>)
                (set_phase (a_id a) context_review s)
           else s);
         complete = (next = None);
         s2 = update_intake (a_id a) (\<lambda>n. n\<lparr>in_project := Some project, in_memory_head := head,
                in_memory_next_offset := next, in_memory_complete := complete,
                in_memory_read_at := (if complete then Some now else None),
                in_package := Some (pk_id package), in_context := pk_context package,
                in_package_read_at := Some now, in_updated_at := now\<rparr>) s1
     in Inr ((), append_event_tx ''agent_instance'' (a_agent a) ''task'' (a_task a) ''intake.context_read''
          [(''assignment_id'', PStr (a_id a)), (''project_id'', PStr project),
           (''project_memory_head'', p_opt head), (''offset'', PInt offset),
           (''next_offset'', (case next of None \<Rightarrow> PNull | Some k \<Rightarrow> PInt k)),
           (''project_memory_complete'', PBool complete),
           (''context_package_id'', PStr (pk_id package)),
           (''context_revision_id'', p_opt (pk_context package))] None now s2))))"

definition record_intake_read ::
  "assignment \<Rightarrow> id \<Rightarrow> string option \<Rightarrow> int \<Rightarrow> int option \<Rightarrow> context_package_row \<Rightarrow> time \<Rightarrow> (db, unit) operation" where
  "record_intake_read a project head offset next package now =
     commit (record_intake_read_tx a project head offset next package now)"

text \<open>
  \<open>task_intake_page\<close>: what reading the memory page and finding or assembling the package
  return (\<open>next\<close> and \<open>package\<close>) are arguments. The phase is checked before the transaction
  that records the read.
\<close>

definition task_intake_page ::
  "external \<Rightarrow> id \<Rightarrow> id \<Rightarrow> int \<Rightarrow> int \<Rightarrow> int option \<Rightarrow> context_package_row \<Rightarrow> time \<Rightarrow> (db, unit) operation" where
  "task_intake_page x task agent limit offset next package now =
     checked (\<lambda>s.
       bind_res (validate_page limit offset) (\<lambda>_.
       bind_res (active_executor_assignment task agent now s) (\<lambda>a.
       bind_res (ensure (a_phase a \<noteq> implementing)
         (Conflict ''task execution already started; intake receipts are no longer mutable'')) (\<lambda>_.
       bind_res (get_task task s) (\<lambda>k.
       bind_res (ok_or (Conflict ''task intake blocked: task has no project; attach it to a project before context review'')
         (t_project (k_row k))) (\<lambda>project.
       bind_res (ensure (list_ex (\<lambda>p. pj_id p = project) (projects s)) (NotFound (''project '' @ project))) (\<lambda>_.
       bind_res (current_head x project s) (\<lambda>head.
       Inr (a, project, head)))))))))
     (\<lambda>(a, project, head). record_intake_read a project head offset next package now)"

subsection \<open>What the operations guarantee\<close>

definition example_external :: external where
  "example_external = \<lparr>x_pointer = rfc6901, x_render = (\<lambda>_. []), x_gate = (\<lambda>_. []), x_parse_id = Some, x_memory_head = (\<lambda>_ _. Inr None)\<rparr>"

definition example_intake :: "id \<Rightarrow> id \<Rightarrow> id \<Rightarrow> intake" where
  "example_intake i task agent =
     \<lparr>in_assignment = i, in_task = task, in_agent = agent, in_project = Some ''p'',
      in_memory_head = None, in_memory_next_offset = None, in_memory_complete = True,
      in_memory_read_at = Some 0, in_package = Some ''k'', in_context = None,
      in_package_read_at = Some 0, in_understanding = ''u'', in_constraints = JObj [],
      in_plan = JArr [], in_questions = [], in_unresolved = [],
      in_interview_status = ''approved'', in_conversation_state = ''converged'',
      in_human_response = None, in_approved_by = Some ''human:h'', in_approved_at = Some 0,
      in_thread = None, in_interview_started_at = Some 0, in_final_summary = None,
      in_confirmation = None, in_converged_at = Some 0, in_created_at = 0, in_updated_at = 0\<rparr>"

definition example_intake_store :: db where
  "example_intake_store = empty_db\<lparr>
     tasks := [(example_task ''t'' ''in_progress'')\<lparr>t_project := Some ''p''\<rparr>],
     agents := [example_agent ''g''],
     assignments := [(example_assignment ''a'' ''t'' ''executor'' ''g'' ''active'' 10)\<lparr>a_phase := ''ready''\<rparr>],
     packages := [\<lparr>pk_id = ''k'', pk_task = ''t'', pk_context = None, pk_created_at = 0\<rparr>],
     intakes := [example_intake ''a'' ''t'' ''g'']\<rparr>"

lemma begin_execution_tx_safe:
  assumes "begin_task_execution_tx x task agent a now s = Inr (u, s')"
  shows "enforce_gate_conn (x_pointer x) task s = Inr ()
    \<and> (\<exists>n. load_intake_tx (a_id a) s = Inr n \<and> intake_current x a n s \<and> interview_agreed n)"
  using assms unfolding begin_task_execution_tx_def res_simps
  by (auto simp: simp flip: execution_blockers_none)

text \<open>
  C6. \<open>begin_task_execution\<close> lets an executor start only through an open gate; its assignment
  is live and, unless it is implementing already, in the phase \<open>ready\<close> with an intake that is
  current (project, memory snapshot, package and context all as they are now) and agreed.
\<close>

theorem begin_execution_needs_intake:
  assumes "begin_task_execution x task agent now s = (Inr b, s')"
  shows "enforce_gate_conn (x_pointer x) task s = Inr ()
    \<and> (\<exists>a. active_executor_assignment task agent now s = Inr a
        \<and> (a_phase a = implementing \<and> s' = s
           \<or> a_phase a = ready_phase
             \<and> (\<exists>n. load_intake_tx (a_id a) s = Inr n \<and> intake_current x a n s \<and> interview_agreed n)))"
proof -
  from assms obtain a where a: "active_executor_assignment task agent now s = Inr a"
    and rest: "(if a_phase a = implementing
       then commit (\<lambda>s. bind_res (enforce_gate_conn (x_pointer x) task s) (\<lambda>_. Inr (a, s)))
       else checked (\<lambda>s. ensure (a_phase a = ready_phase)
           (Conflict (''task execution blocked: assignment intake phase is '' @ a_phase a)))
         (\<lambda>_. commit_then (begin_task_execution_tx x task agent a now) (\<lambda>_. get_assignment (a_id a)))) s = (Inr b, s')"
    unfolding begin_task_execution_def checked_Inr_iff by blast
  show ?thesis
  proof (cases "a_phase a = implementing")
    case True
    with rest a show ?thesis by (auto simp: res_simps)
  next
    case False
    with rest obtain u s1 where "a_phase a = ready_phase" "begin_task_execution_tx x task agent a now s = Inr (u, s1)"
      by (auto simp: checked_Inr_iff res_simps commit_then_def split: sum.splits)
    with begin_execution_tx_safe a show ?thesis by blast
  qed
qed

theorem begin_execution_needs_intake_witness:
  "intake_current example_external (hd (assignments example_intake_store)) (example_intake ''a'' ''t'' ''g'') example_intake_store"
proof -
  have tasks: "deps_in_tasks example_intake_store" "acyclic (dep_rel (dependencies example_intake_store))"
    by (simp_all add: example_intake_store_def example_defs deps_in_tasks_def dep_rel_def wf_acyclic)
  have gate: "enforce_gate_conn (x_pointer example_external) ''t'' example_intake_store = Inr ()"
    unfolding enforce_gate_iff [OF tasks(1)] using tasks(2)
    by (simp add: example_intake_store_def example_defs find_task_def prerequisites_met_def join_mode_of_def)
  have a: "active_executor_assignment ''t'' ''g'' 1 example_intake_store = Inr (hd (assignments example_intake_store))"
    by (simp add: active_executor_assignment_def example_intake_store_def example_defs)
  have "\<exists>b s'. begin_task_execution example_external ''t'' ''g'' 1 example_intake_store = (Inr b, s')"
    unfolding begin_task_execution_def checked_def a
    using gate
    by (simp add: example_intake_store_def phase_defs example_defs commit_then_def begin_task_execution_tx_def
        load_intake_tx_def find_intake_def example_intake_def intake_execution_blockers_tx_def
        intake_read_blockers_tx_def current_head_def git_backend_def latest_package_def find_task_def
        rows_affected_def get_assignment_def find_assignment_def update_assignments_def append_event_tx_def)
  then obtain b s' where "begin_task_execution example_external ''t'' ''g'' 1 example_intake_store = (Inr b, s')" by blast
  from begin_execution_needs_intake [OF this] a show ?thesis
    by (auto simp: load_intake_tx_def find_intake_def example_intake_store_def example_intake_def phase_defs example_defs)
qed

lemma find_update_intake:
  assumes "\<And>n. in_assignment (f n) = in_assignment n"
  shows "find_intake i (update_intake i f s) = map_option f (find_intake i s)"
proof -
  have "find_intake i (update_intake i f s)
      = map_option (\<lambda>r. if in_assignment r = i then f r else r) (find_intake i s)"
    unfolding find_intake_def update_intake_def using assms
    by (simp add: find_update_where [where k = in_assignment])
  also have "\<dots> = map_option f (find_intake i s)"
    by (auto simp: find_intake_def map_option_case split: option.splits dest: find_Some_in)
  finally show ?thesis .
qed

lemma find_intake_other [simp]:
  "find_intake i (set_phase j p s) = find_intake i s"
  "find_intake i (append_event_tx at ai et ei ty pl co now s) = find_intake i s"
  by (simp_all add: find_intake_def set_phase_def update_assignments_def append_event_tx_def)

text \<open>
  A page of the project memory is accepted only in order: at offset 0, or at the expected
  offset of the very snapshot the intake is reading. An agreed interview survives the read only
  if project, memory snapshot, package and context are the ones it was agreed on.
\<close>

theorem intake_read_restarts_on_change:
  assumes "record_intake_read_tx a project head offset next package now s = Inr (u, s')"
    and "load_intake_tx (a_id a) s = Inr n"
  shows "\<exists>n'. load_intake_tx (a_id a) s' = Inr n'
    \<and> (offset = 0 \<or> in_project n = Some project \<and> in_memory_head n = head
         \<and> (in_memory_complete n \<or> in_memory_next_offset n = Some offset))
    \<and> (interview_agreed n' \<longrightarrow> interview_agreed n \<and> in_project n = Some project \<and> in_memory_head n = head
         \<and> in_package n = Some (pk_id package) \<and> in_context n = pk_context package)
    \<and> (in_memory_complete n' \<longleftrightarrow> next = None)"
proof -
  from assms(2) have n: "find_intake (a_id a) s = Some n" by (simp add: load_intake_tx_def res_simps)
  let ?changed = "in_project n \<noteq> Some project \<or> in_memory_head n \<noteq> head
      \<or> in_package n \<noteq> Some (pk_id package) \<or> in_context n \<noteq> pk_context package"
  let ?started = "in_interview_status n \<noteq> ''not_started'' \<or> in_conversation_state n \<noteq> ''not_started''"
  from assms have order: "\<not> (\<not> intake_same_snapshot n project head \<and> offset \<noteq> 0)"
    "intake_same_snapshot n project head \<and> \<not> in_memory_complete n \<longrightarrow>
      offset = (case in_memory_next_offset n of None \<Rightarrow> 0 | Some k \<Rightarrow> k)"
    by (auto simp: record_intake_read_tx_def res_simps Let_def)
  show ?thesis
  proof (cases "?changed \<and> ?started")
    case True
    with assms(1) n obtain n' where "find_intake (a_id a) s' = Some n'" "in_conversation_state n' = ''not_started''"
      "in_memory_complete n' = (next = None)"
      by (auto simp: record_intake_read_tx_def load_intake_tx_def Let_def ensure_iff bind_res_Inr_iff find_update_intake)
    with order show ?thesis
      by (auto simp: load_intake_tx_def interview_agreed_def intake_same_snapshot_def split: option.splits)
  next
    case False
    with assms(1) n obtain n' where "find_intake (a_id a) s' = Some n'"
      "in_conversation_state n' = in_conversation_state n" "in_memory_complete n' = (next = None)"
      "in_approved_at n' = in_approved_at n" "in_converged_at n' = in_converged_at n"
      "in_unresolved n' = in_unresolved n"
      by (auto simp: record_intake_read_tx_def load_intake_tx_def Let_def ensure_iff bind_res_Inr_iff find_update_intake)
    with order False show ?thesis
      by (auto simp: load_intake_tx_def interview_agreed_def intake_same_snapshot_def split: option.splits)
  qed
qed

theorem intake_read_restarts_on_change_witness:
  "let a = hd (assignments example_intake_store);
       k = \<lparr>pk_id = ''k2'', pk_task = ''t'', pk_context = None, pk_created_at = 1\<rparr> in
   \<exists>s' n'. record_intake_read_tx a ''p'' None 0 None k 1 example_intake_store = Inr ((), s')
     \<and> load_intake_tx ''a'' s' = Inr n' \<and> \<not> interview_agreed n'"
proof -
  let ?a = "hd (assignments example_intake_store)"
  let ?k = "\<lparr>pk_id = ''k2'', pk_task = ''t'', pk_context = None, pk_created_at = 1\<rparr>"
  have n: "load_intake_tx (a_id ?a) example_intake_store = Inr (example_intake ''a'' ''t'' ''g'')"
    by (simp add: load_intake_tx_def find_intake_def example_intake_store_def example_intake_def example_defs)
  obtain s' where tx: "record_intake_read_tx ?a ''p'' None 0 None ?k 1 example_intake_store = Inr ((), s')"
    unfolding record_intake_read_tx_def n
    by (simp add: intake_same_snapshot_def example_intake_def Let_def)
  from intake_read_restarts_on_change [OF tx n] tx show ?thesis
    by (auto simp: Let_def example_intake_def example_intake_store_def example_defs)
qed

end
