(* ===== verification/Acceptance.thy ===== *)
theory Acceptance
  imports Intake
begin

text \<open>
  Verification receipts and the verdict of each criterion
  (\<open>morrows-store/src/acceptance.rs\<close>): runtime checks, independent and human reviews,
  reconciliation, and the status the completion check computes from the server's receipts and
  the report of the executor.
\<close>

subsection \<open>Runs that may act\<close>

definition fetch_task :: "id \<Rightarrow> db \<Rightarrow> task res" where
  "fetch_task i s = bind_res (ok_or no_rows (find_task i s)) row_to_task"

definition fetch_run :: "id \<Rightarrow> db \<Rightarrow> run res" where
  "fetch_run i s = ok_or no_rows (find_run i s)"

definition fetch_assignment :: "id \<Rightarrow> db \<Rightarrow> assignment res" where
  "fetch_assignment i s = ok_or no_rows (find_assignment i s)"

definition live_run_conn :: "id \<Rightarrow> id \<Rightarrow> string \<Rightarrow> time \<Rightarrow> db \<Rightarrow> run res" where
  "live_run_conn i agent role now s =
     bind_res (fetch_run i s) (\<lambda>r.
     bind_res (fetch_assignment (r_assignment r) s) (\<lambda>a.
     bind_res (ensure (\<not> (r_agent r \<noteq> agent \<or> a_role a \<noteq> role \<or> a_status a \<noteq> ''active''
         \<or> a_expires_at a \<le> now \<or> r_status r \<noteq> ''running'' \<or> a_phase a \<noteq> ''implementing''))
       (Conflict ''live owned Run with the required role is required'')) (\<lambda>_.
     Inr r)))"

text \<open>\<open>authorize_run_runtime_access\<close> (\<open>runtime.rs\<close>): who may touch the runtime of a run.\<close>

definition authorize_run_runtime_access :: "id \<Rightarrow> id \<Rightarrow> time \<Rightarrow> db \<Rightarrow> (run_view \<times> task) res" where
  "authorize_run_runtime_access i agent now s =
     bind_res (get_run i s) (\<lambda>v.
     let r = v_run v in
     bind_res (ensure (r_agent r = agent)
       (Conflict ''Run is not owned by the authenticated AgentInstance'')) (\<lambda>_.
     bind_res (ensure (r_status r = ''running'') (Conflict (''run is '' @ r_status r))) (\<lambda>_.
     bind_res (get_assignment (r_assignment r) s) (\<lambda>a.
     bind_res (ensure (a_agent a = agent \<and> a_role a = ''executor'' \<and> a_status a = ''active''
         \<and> a_phase a = ''implementing'')
       (Conflict ''runtime access requires the active implementing executor Assignment'')) (\<lambda>_.
     bind_res (ensure (\<not> a_expires_at a \<le> now)
       (Conflict ''stale executor: assignment lease has expired'')) (\<lambda>_.
     bind_res (get_task (r_task r) s) (\<lambda>k.
     bind_res (ensure (k_state k = InProgress \<or> k_state k = Review)
       (Conflict ''stale executor: Task is no longer executing or reviewing'')) (\<lambda>_.
     Inr (v, k)))))))))"

definition pending_revision :: "id \<Rightarrow> db \<Rightarrow> bool" where
  "pending_revision i s \<longleftrightarrow> list_ex (\<lambda>r. tr_task r = i \<and> tr_status r = ''pending_ack'') (revisions s)"

subsection \<open>Receipts\<close>

definition mode_name :: "verification_mode \<Rightarrow> string" where
  "mode_name m =
     (case m of
        SelfAttested \<Rightarrow> ''self_attested''
      | DeterministicCheck \<Rightarrow> ''deterministic_check''
      | ArtifactCheck \<Rightarrow> ''artifact_check''
      | IndependentReview \<Rightarrow> ''independent_review''
      | HumanReview \<Rightarrow> ''human_review'')"

definition runtime_kind :: "string \<Rightarrow> bool" where
  "runtime_kind k \<longleftrightarrow> k = ''deterministic_check'' \<or> k = ''artifact_check''"

text \<open>
  \<open>ORDER BY created_at DESC,id DESC LIMIT 1\<close> over the receipts of one run, criterion,
  acceptance version, context revision and kind.
\<close>

definition receipt_for :: "id \<Rightarrow> string \<Rightarrow> int \<Rightarrow> id option \<Rightarrow> string \<Rightarrow> receipt \<Rightarrow> bool" where
  "receipt_for run criterion version context_id kind v \<longleftrightarrow>
     vr_run v = run \<and> vr_criterion v = criterion \<and> vr_version v = version
     \<and> vr_context v = context_id \<and> vr_kind v = kind"

definition latest_receipt :: "id \<Rightarrow> string \<Rightarrow> int \<Rightarrow> id option \<Rightarrow> string \<Rightarrow> db \<Rightarrow> receipt option" where
  "latest_receipt run criterion version context_id kind s =
     last_max (\<lambda>v. (vr_created_at v, vr_id v))
       (filter (receipt_for run criterion version context_id kind) (receipts s))"

definition insert_receipt_conn ::
  "id \<Rightarrow> task_row \<Rightarrow> run \<Rightarrow> id option \<Rightarrow> string \<Rightarrow> string \<Rightarrow> string \<Rightarrow> json_map \<Rightarrow> time \<Rightarrow> db \<Rightarrow> db res" where
  "insert_receipt_conn i t r reviewer criterion kind verdict detail now s =
     (if list_ex (\<lambda>v. vr_id v = i) (receipts s) then Inl (storage PrimaryKeyViolation)
      else Inr (s\<lparr>receipts := receipts s @
        [\<lparr>vr_id = i, vr_task = t_id t, vr_run = r_id r, vr_reviewer = reviewer,
          vr_criterion = criterion, vr_version = t_acceptance_version t, vr_context = t_context t,
          vr_kind = kind, vr_verdict = verdict, vr_detail = detail, vr_finished_at = None,
          vr_created_at = now\<rparr>]\<rparr>))"

definition opt_json :: "string option \<Rightarrow> json" where
  "opt_json v = (case v of None \<Rightarrow> JNull | Some t \<Rightarrow> JStr t)"

definition check_json :: "acceptance_check option \<Rightarrow> json" where
  "check_json c =
     (case c of None \<Rightarrow> JNull
      | Some k \<Rightarrow> JObj [(''command'', JStr (ck_command k)), (''cwd'', JStr (ck_cwd k)),
          (''machine'', JStr (ck_machine k)), (''read_only'', JBool (ck_read_only k)),
          (''timeout_s'', JInt (ck_timeout_s k))])"

subsection \<open>Runtime checks\<close>

definition begin_verification_tx ::
  "id \<Rightarrow> id \<Rightarrow> string \<Rightarrow> string option \<Rightarrow> id \<Rightarrow> time \<Rightarrow> (db, id \<times> acceptance_criterion) tx" where
  "begin_verification_tx run agent criterion retry_reason fresh now s =
     bind_res (live_run_conn run agent ''executor'' now s) (\<lambda>r.
     bind_res (fetch_task (r_task r) s) (\<lambda>k.
     let t = k_row k in
     bind_res (ensure (\<not> pending_revision (t_id t) s)
       (Conflict ''pending Task revision blocks new verification until acknowledgment'')) (\<lambda>_.
     bind_res (ok_or (InvalidInput ''unknown criterion'')
       (find (\<lambda>c. cr_id c = criterion) (t_criteria t))) (\<lambda>c.
     bind_res (ensure (cr_verification c = DeterministicCheck \<or> cr_verification c = ArtifactCheck)
       (InvalidInput ''criterion does not use a runtime check'')) (\<lambda>_.
     bind_res
       (case latest_receipt run criterion (t_acceptance_version t) (t_context t)
               (mode_name (cr_verification c)) s of
          None \<Rightarrow> Inr ()
        | Some v \<Rightarrow>
            bind_res (ensure (vr_verdict v \<noteq> ''BLOCKED'')
              (Conflict ''previous attempt has no reconciled terminal outcome; inspect receipt before retry'')) (\<lambda>_.
            ensure (\<not> (case retry_reason of None \<Rightarrow> True | Some w \<Rightarrow> blank w))
              (InvalidInput ''retry requires a reason describing a repair or environment change''))) (\<lambda>_.
     bind_res (insert_receipt_conn fresh t r None (cr_id c) (mode_name (cr_verification c)) ''BLOCKED''
       [(''actor'', JStr agent), (''check'', check_json (cr_check c)),
        (''retry_reason'', opt_json retry_reason)] now s) (\<lambda>s1.
     Inr ((fresh, c), s1))))))))"

definition begin_verification ::
  "id \<Rightarrow> id \<Rightarrow> string \<Rightarrow> string option \<Rightarrow> id \<Rightarrow> time \<Rightarrow> (db, id \<times> acceptance_criterion) operation" where
  "begin_verification run agent criterion retry_reason fresh now =
     checked (authorize_run_runtime_access run agent now)
       (\<lambda>_. commit (begin_verification_tx run agent criterion retry_reason fresh now))"

definition update_receipt :: "id \<Rightarrow> (receipt \<Rightarrow> receipt) \<Rightarrow> db \<Rightarrow> db" where
  "update_receipt i f s = s\<lparr>receipts := update_where (\<lambda>v. vr_id v = i) f (receipts s)\<rparr>"

definition check_verdict :: "string \<Rightarrow> bool" where
  "check_verdict v \<longleftrightarrow> v = ''PASS'' \<or> v = ''FAIL'' \<or> v = ''BLOCKED''"

definition finish_verification_tx :: "id \<Rightarrow> string \<Rightarrow> json \<Rightarrow> time \<Rightarrow> (db, unit) tx" where
  "finish_verification_tx i verdict detail now s =
     bind_res (ok_or no_rows (find (\<lambda>v. vr_id v = i) (receipts s))) (\<lambda>v.
     Inr ((), update_receipt i
       (\<lambda>w. w\<lparr>vr_verdict := verdict, vr_detail := map_insert ''outcome'' detail (vr_detail v),
             vr_finished_at := Some now\<rparr>) s))"

definition finish_verification :: "id \<Rightarrow> string \<Rightarrow> json \<Rightarrow> time \<Rightarrow> (db, receipt) operation" where
  "finish_verification i verdict detail now =
     checked (\<lambda>s. ensure (check_verdict verdict) (InvalidInput ''invalid check verdict''))
       (\<lambda>_. commit_then (finish_verification_tx i verdict detail now)
          (\<lambda>_ s. ok_or no_rows (find (\<lambda>v. vr_id v = i) (receipts s))))"

text \<open>
  Only a finished attempt without a verdict can be reconciled, and only as a failure.
  \<open>actor\<close> is the operator's document and \<open>actor_text\<close> its rendering.
\<close>

definition reconcile_verification_tx ::
  "id \<Rightarrow> id \<Rightarrow> string \<Rightarrow> json \<Rightarrow> string \<Rightarrow> time \<Rightarrow> (db, unit) tx" where
  "reconcile_verification_tx task i reason actor actor_text now s =
     bind_res (ok_or no_rows (find (\<lambda>v. vr_id v = i \<and> vr_task v = task) (receipts s))) (\<lambda>v.
     bind_res (ensure (vr_verdict v = ''BLOCKED'')
       (Conflict ''only unknown BLOCKED attempts can be reconciled'')) (\<lambda>_.
     bind_res (ensure (vr_finished_at v \<noteq> None)
       (Conflict ''attempt is still running; wait for a terminal or lost-response outcome'')) (\<lambda>_.
     let note = JObj [(''actor'', actor), (''original_outcome_preserved'', JBool True),
           (''reason'', JStr reason), (''verdict'', JStr ''FAIL'')] in
     Inr ((), append_event_tx ''human'' actor_text ''task'' task ''verification.reconciled''
       [(''receipt_id'', PStr i), (''reason'', PStr reason)] None now
       (update_receipt i (\<lambda>w. w\<lparr>vr_verdict := ''FAIL'',
          vr_detail := map_insert ''reconciliation'' note (vr_detail v)\<rparr>) s)))))"

definition reconcile_verification ::
  "id \<Rightarrow> id \<Rightarrow> string \<Rightarrow> json \<Rightarrow> string \<Rightarrow> time \<Rightarrow> (db, unit) operation" where
  "reconcile_verification task i reason actor actor_text now =
     checked (\<lambda>s. ensure (\<not> blank reason)
         (InvalidInput ''reconciliation requires observed outcome and retry rationale''))
       (\<lambda>_. commit (reconcile_verification_tx task i reason actor actor_text now))"

subsection \<open>Reviews\<close>

text \<open>SQLite's \<open>length(trim(uri))>0\<close>: only spaces are trimmed, a text ends at its first NUL.\<close>

definition uri_present :: "string \<Rightarrow> bool" where
  "uri_present u \<longleftrightarrow> (case dropWhile (\<lambda>c. c = CHR '' '') u of [] \<Rightarrow> False | c # _ \<Rightarrow> c \<noteq> CHR 0x00)"

definition usable_artifact :: "id \<Rightarrow> string \<Rightarrow> db \<Rightarrow> bool" where
  "usable_artifact task i s \<longleftrightarrow>
     list_ex (\<lambda>f. af_id f = i \<and> af_task f = task \<and> uri_present (af_uri f)) (artifacts s)"

fun validate_artifacts_conn :: "id \<Rightarrow> string list \<Rightarrow> db \<Rightarrow> unit res" where
  "validate_artifacts_conn task [] s = Inr ()"
| "validate_artifacts_conn task (i # ids) s =
     bind_res (ensure (usable_artifact task i s)
       (InvalidInput (''artifact '' @ i @ '' is missing or belongs to another task''))) (\<lambda>_.
     validate_artifacts_conn task ids s)"

lemma validate_artifacts_iff [res_simps]:
  "validate_artifacts_conn task ids s = Inr u \<longleftrightarrow> (\<forall>i \<in> set ids. usable_artifact task i s)"
  by (induction ids) (auto simp: res_simps)

definition needs_independent_review :: "acceptance_criterion \<Rightarrow> bool" where
  "needs_independent_review c \<longleftrightarrow>
     cr_verification c = IndependentReview \<or> cr_requires_independent_review c"

definition runtime_checks_passed :: "task_row \<Rightarrow> run \<Rightarrow> db \<Rightarrow> bool" where
  "runtime_checks_passed t r s \<longleftrightarrow>
     list_all (\<lambda>c. cr_verification c = DeterministicCheck \<or> cr_verification c = ArtifactCheck \<longrightarrow>
       (case latest_receipt (r_id r) (cr_id c) (t_acceptance_version t) (t_context t)
               (mode_name (cr_verification c)) s of
          None \<Rightarrow> True
        | Some v \<Rightarrow> vr_verdict v = ''PASS'' \<or> vr_verdict v = ''FAIL'' \<and> cr_allow_not_applicable c))
       (t_criteria t)"

record review_input =
  rv_reviewer_run :: id
  rv_executor_run :: id
  rv_criterion :: string
  rv_verdict :: string
  rv_rationale :: string
  rv_artifacts :: "string list"
  rv_context :: "id option"
  rv_version :: int
  rv_operator :: "json option"

definition submit_review_tx :: "id \<Rightarrow> review_input \<Rightarrow> id \<Rightarrow> time \<Rightarrow> (db, id) tx" where
  "submit_review_tx agent input fresh now s =
     bind_res (live_run_conn (rv_reviewer_run input) agent ''reviewer'' now s) (\<lambda>reviewer.
     bind_res (fetch_run (rv_executor_run input) s) (\<lambda>executor.
     bind_res (ensure (\<not> (r_task reviewer \<noteq> r_task executor \<or> r_agent reviewer = r_agent executor
         \<or> \<not> (r_status executor = ''running'' \<or> r_status executor = ''paused'')))
       (Conflict ''review requires a live same-task executor owned by another Agent'')) (\<lambda>_.
     bind_res (fetch_assignment (r_assignment executor) s) (\<lambda>ea.
     bind_res (ensure (a_role ea = ''executor'') (InvalidInput ''target Run is not an executor'')) (\<lambda>_.
     bind_res (fetch_task (r_task reviewer) s) (\<lambda>k.
     let t = k_row k in
     bind_res (ensure (\<not> pending_revision (t_id t) s)
       (Conflict ''pending Task revision blocks independent review'')) (\<lambda>_.
     bind_res (ensure (t_context t = rv_context input \<and> t_acceptance_version t = rv_version input)
       (Conflict ''review snapshot is stale; read review_context and review again'')) (\<lambda>_.
     bind_res (ok_or (InvalidInput ''unknown criterion'')
       (find (\<lambda>c. cr_id c = rv_criterion input) (t_criteria t))) (\<lambda>c.
     bind_res (ensure (needs_independent_review c)
       (InvalidInput ''criterion does not require independent review'')) (\<lambda>_.
     bind_res (ensure (rv_verdict input = ''PASS'' \<longrightarrow> runtime_checks_passed t executor s)
       (Conflict ''PASS review cannot precede a pending or failed required runtime check'')) (\<lambda>_.
     bind_res (validate_artifacts_conn (t_id t) (rv_artifacts input) s) (\<lambda>_.
     bind_res (insert_receipt_conn fresh t executor (Some (rv_reviewer_run input)) (cr_id c)
       ''independent_review'' (rv_verdict input)
       [(''artifact_ids'', JArr (map JStr (rv_artifacts input))),
        (''operator_actor'', (case rv_operator input of None \<Rightarrow> JNull | Some v \<Rightarrow> v)),
        (''rationale'', JStr (rv_rationale input)), (''reviewer_agent'', JStr agent)] now s) (\<lambda>s1.
     Inr (fresh, append_event_tx ''agent_instance'' agent ''task'' (t_id t) ''criterion.reviewed''
       [(''receipt_id'', PStr fresh), (''criterion_id'', PStr (rv_criterion input)),
        (''verdict'', PStr (rv_verdict input)), (''reviewer_run_id'', PStr (rv_reviewer_run input))] None now
       (update_tasks (\<lambda>u. t_id u = t_id t)
          (\<lambda>u. u\<lparr>t_state := (if rv_verdict input = ''FAIL'' then ''in_progress'' else ''review''),
                 t_updated_at := now\<rparr>) s1)))))))))))))))"

definition submit_review :: "id \<Rightarrow> review_input \<Rightarrow> id \<Rightarrow> time \<Rightarrow> (db, id) operation" where
  "submit_review agent input fresh now =
     checked (\<lambda>s. ensure (check_verdict (rv_verdict input) \<and> \<not> blank (rv_rationale input)
           \<and> rv_artifacts input \<noteq> [])
         (InvalidInput ''review needs PASS/FAIL/BLOCKED, findings/rationale and artifacts''))
       (\<lambda>_. commit (submit_review_tx agent input fresh now))"

definition submit_human_review_tx ::
  "id \<Rightarrow> review_input \<Rightarrow> string \<Rightarrow> id \<Rightarrow> time \<Rightarrow> (db, id) tx" where
  "submit_human_review_tx task input actor fresh now s =
     bind_res (fetch_task task s) (\<lambda>k.
     let t = k_row k in
     bind_res (ensure (\<not> pending_revision (t_id t) s)
       (Conflict ''pending Task revision blocks human review'')) (\<lambda>_.
     bind_res (ensure (t_context t = rv_context input \<and> t_acceptance_version t = rv_version input)
       (Conflict ''human review snapshot is stale; refresh Task before approval'')) (\<lambda>_.
     bind_res (fetch_run (rv_executor_run input) s) (\<lambda>r.
     bind_res (ensure (r_task r = task \<and> (r_status r = ''running'' \<or> r_status r = ''paused''))
       (Conflict ''human review requires a live same-task Run'')) (\<lambda>_.
     bind_res (ok_or (InvalidInput ''unknown human review criterion'')
       (find (\<lambda>c. cr_id c = rv_criterion input \<and> cr_verification c = HumanReview) (t_criteria t))) (\<lambda>c.
     bind_res (insert_receipt_conn fresh t r None (cr_id c) ''human_review'' (rv_verdict input)
       [(''actor'', JStr actor), (''rationale'', JStr (rv_rationale input))] now s) (\<lambda>s1.
     Inr (fresh, s1))))))))"

definition submit_human_review ::
  "id \<Rightarrow> review_input \<Rightarrow> string \<Rightarrow> id \<Rightarrow> time \<Rightarrow> (db, id) operation" where
  "submit_human_review task input actor fresh now =
     checked (\<lambda>s. ensure (check_verdict (rv_verdict input) \<and> \<not> blank (rv_rationale input))
         (InvalidInput ''human review requires verdict and rationale''))
       (\<lambda>_. commit (submit_human_review_tx task input actor fresh now))"

subsection \<open>The verdict of a criterion\<close>

record criterion_status =
  st_criterion :: string
  st_verdict :: string
  st_missing :: "string list"
  st_receipts :: "id list"

definition criterion_path :: "acceptance_criterion \<Rightarrow> string" where
  "criterion_path c =
     (case cr_legacy_path c of Some p \<Rightarrow> p | None \<Rightarrow> ''/acceptance_criteria/'' @ cr_id c)"

text \<open>\<open>result["completion"]["checks"].as_array()\<close>.\<close>

definition reported_checks :: "json \<Rightarrow> json list" where
  "reported_checks result =
     (case Option.bind (json_get result ''completion'') (\<lambda>c. json_get c ''checks'') of
        Some (JArr checks) \<Rightarrow> checks
      | _ \<Rightarrow> [])"

definition check_for :: "json \<Rightarrow> acceptance_criterion \<Rightarrow> json option" where
  "check_for result c =
     find (\<lambda>v. json_get v ''criterion_path'' = Some (JStr (criterion_path c))) (reported_checks result)"

definition text_at :: "json \<Rightarrow> string \<Rightarrow> string option" where
  "text_at v k = (case json_get v k of Some (JStr t) \<Rightarrow> Some t | _ \<Rightarrow> None)"

definition texts_at :: "json \<Rightarrow> string \<Rightarrow> string list" where
  "texts_at v k =
     (case json_get v k of
        Some (JArr vs) \<Rightarrow> List.map_filter (\<lambda>w. case w of JStr t \<Rightarrow> Some t | _ \<Rightarrow> None) vs
      | _ \<Rightarrow> [])"

definition present_text :: "string option \<Rightarrow> bool" where
  "present_text t \<longleftrightarrow> (case t of None \<Rightarrow> False | Some w \<Rightarrow> \<not> blank w)"

text \<open>The executor waives a criterion that allows it, with a rationale.\<close>

definition waived :: "acceptance_criterion \<Rightarrow> json \<Rightarrow> bool" where
  "waived c check \<longleftrightarrow>
     text_at check ''status'' = Some ''NOT_APPLICABLE'' \<and> cr_allow_not_applicable c
     \<and> present_text (text_at check ''rationale'')"

definition missing_kinds :: "task_row \<Rightarrow> acceptance_criterion \<Rightarrow> string list \<Rightarrow> db \<Rightarrow> string list" where
  "missing_kinds t c ids s =
     filter (\<lambda>kind. \<not> list_ex (\<lambda>i. list_ex (\<lambda>f. af_id f = i \<and> af_task f = t_id t \<and> af_kind f = kind)
        (artifacts s)) ids) (cr_required_artifact_kinds c)"

text \<open>What the executor's own report says: a verdict and what is missing.\<close>

definition reported_evidence ::
  "task_row \<Rightarrow> acceptance_criterion \<Rightarrow> json option \<Rightarrow> db \<Rightarrow> string \<times> string list" where
  "reported_evidence t c check s =
     (case check of
        None \<Rightarrow> (''BLOCKED'', [''completion evidence''])
      | Some v \<Rightarrow>
          let status = (case text_at v ''status'' of None \<Rightarrow> [] | Some w \<Rightarrow> w);
              ids = texts_at v ''artifact_ids'';
              passed = status = ''passed'' \<or> status = ''PASS'';
              failed = status = ''failed'' \<or> status = ''FAIL''
          in (if passed then ''PASS'' else if failed then ''FAIL'' else ''BLOCKED'',
              (if passed \<or> failed then [] else [''PASS evidence''])
              @ (if present_text (text_at v ''rationale'') then [] else [''rationale''])
              @ (if ids = [] then [''same-task artifacts''] else [])
              @ map (\<lambda>kind. ''artifact kind '' @ kind) (missing_kinds t c ids s)))"

definition required_modes :: "acceptance_criterion \<Rightarrow> string list" where
  "required_modes c =
     (if cr_verification c \<noteq> SelfAttested then [mode_name (cr_verification c)] else [])
     @ (if cr_requires_independent_review c \<and> cr_verification c \<noteq> IndependentReview
        then [''independent_review''] else [])"

definition review_gaps :: "run \<Rightarrow> receipt \<Rightarrow> json option \<Rightarrow> db \<Rightarrow> string list" where
  "review_gaps r v check s =
     (if sort (texts_at (JObj (vr_detail v)) ''artifact_ids'')
         \<noteq> sort (case check of None \<Rightarrow> [] | Some c \<Rightarrow> texts_at c ''artifact_ids'')
      then [''reviewed evidence differs from completion evidence''] else [])
     @ (if list_ex (\<lambda>w. vr_run w = r_id r \<and> runtime_kind (vr_kind w)
              \<and> (vr_created_at w > vr_created_at v
                 \<or> (case vr_finished_at w of None \<Rightarrow> False | Some f \<Rightarrow> f > vr_created_at v))) (receipts s)
        then [''independent review predates a later verification attempt; review the repaired state'']
        else [])"

definition apply_mode ::
  "task_row \<Rightarrow> run \<Rightarrow> acceptance_criterion \<Rightarrow> json option \<Rightarrow> db \<Rightarrow> string
   \<Rightarrow> string \<times> string list \<times> id list \<Rightarrow> string \<times> string list \<times> id list" where
  "apply_mode t r c check s mode acc =
     (case acc of (verdict, missing, ids) \<Rightarrow>
        case latest_receipt (r_id r) (cr_id c) (t_acceptance_version t) (t_context t) mode s of
          None \<Rightarrow> (verdict, missing @ [mode @ '' receipt''], ids)
        | Some v \<Rightarrow>
            (if vr_verdict v \<noteq> ''PASS'' then vr_verdict v else verdict,
             missing
             @ (if mode = ''independent_review'' \<and> vr_verdict v = ''PASS'' then review_gaps r v check s else [])
             @ (if vr_verdict v \<noteq> ''PASS'' then [mode @ '' receipt is '' @ vr_verdict v] else []),
             ids @ [vr_id v]))"

definition criterion_status_of ::
  "task_row \<Rightarrow> run \<Rightarrow> json \<Rightarrow> db \<Rightarrow> acceptance_criterion \<Rightarrow> criterion_status" where
  "criterion_status_of t r result s c =
     (let check = check_for result c in
      if (case check of None \<Rightarrow> False | Some v \<Rightarrow> waived c v)
      then \<lparr>st_criterion = cr_id c, st_verdict = ''NOT_APPLICABLE'', st_missing = [], st_receipts = []\<rparr>
      else
        let (verdict, missing) = reported_evidence t c check s;
            (verdict', missing', ids) =
              fold (apply_mode t r c check s) (required_modes c) (verdict, missing, [])
        in \<lparr>st_criterion = cr_id c,
             st_verdict = (if missing' \<noteq> [] \<and> verdict' = ''PASS'' then ''BLOCKED'' else verdict'),
             st_missing = missing', st_receipts = ids\<rparr>)"

definition criterion_statuses_conn :: "task_row \<Rightarrow> run \<Rightarrow> json \<Rightarrow> db \<Rightarrow> criterion_status list" where
  "criterion_statuses_conn t r result s = map (criterion_status_of t r result s) (t_criteria t)"

subsection \<open>What a verdict rests on\<close>

text \<open>A receipt the server holds for this run, acceptance version and context, that passed.\<close>

definition passing_receipt :: "task_row \<Rightarrow> run \<Rightarrow> acceptance_criterion \<Rightarrow> string \<Rightarrow> db \<Rightarrow> receipt \<Rightarrow> bool" where
  "passing_receipt t r c mode s v \<longleftrightarrow>
     v \<in> set (receipts s) \<and> receipt_for (r_id r) (cr_id c) (t_acceptance_version t) (t_context t) mode v
     \<and> vr_verdict v = ''PASS''
     \<and> latest_receipt (r_id r) (cr_id c) (t_acceptance_version t) (t_context t) mode s = Some v"

lemma latest_receipt_Some:
  assumes "latest_receipt run criterion version context_id kind s = Some v"
  shows "v \<in> set (receipts s) \<and> receipt_for run criterion version context_id kind v
    \<and> (\<forall>w \<in> set (receipts s). receipt_for run criterion version context_id kind w \<longrightarrow>
         vr_created_at w \<le> vr_created_at v)"
  using last_max_Some [OF assms [unfolded latest_receipt_def]]
  by (auto simp: less_eq_prod_def order.order_iff_strict)

lemma apply_mode_missing:
  "set (fst (snd acc)) \<subseteq> set (fst (snd (apply_mode t r c check s mode acc)))"
  by (cases acc) (auto simp: apply_mode_def split: option.splits)

lemma fold_apply_mode_missing:
  "set (fst (snd acc)) \<subseteq> set (fst (snd (fold (apply_mode t r c check s) modes acc)))"
proof (induction modes arbitrary: acc)
  case Nil
  then show ?case by simp
next
  case (Cons m modes)
  then show ?case using apply_mode_missing [of acc t r c check s m] by fastforce
qed

lemma apply_mode_complete:
  assumes "fst (snd (apply_mode t r c check s mode acc)) = []"
  shows "\<exists>v. passing_receipt t r c mode s v
    \<and> (mode = ''independent_review'' \<longrightarrow> review_gaps r v check s = [])
    \<and> fst (apply_mode t r c check s mode acc) = fst acc"
  using assms latest_receipt_Some
  by (cases acc) (auto simp: apply_mode_def passing_receipt_def split: option.splits if_splits)

lemma fold_apply_mode_complete:
  assumes "fst (snd (fold (apply_mode t r c check s) modes acc)) = []"
  shows "(\<forall>mode \<in> set modes. \<exists>v. passing_receipt t r c mode s v
       \<and> (mode = ''independent_review'' \<longrightarrow> review_gaps r v check s = []))
    \<and> fst (fold (apply_mode t r c check s) modes acc) = fst acc"
  using assms
proof (induction modes arbitrary: acc)
  case Nil
  then show ?case by simp
next
  case (Cons m modes)
  then have "fst (snd (apply_mode t r c check s m acc)) = []"
    using fold_apply_mode_missing [of "apply_mode t r c check s m acc" t r c check s modes] by simp
  from apply_mode_complete [OF this] Cons.IH [of "apply_mode t r c check s m acc"] Cons.prems
  show ?case by auto
qed

text \<open>The evidence an executor has to report for a criterion it passes.\<close>

definition evidence_reported :: "task_row \<Rightarrow> acceptance_criterion \<Rightarrow> json \<Rightarrow> db \<Rightarrow> bool" where
  "evidence_reported t c check s \<longleftrightarrow>
     text_at check ''status'' \<in> {Some ''passed'', Some ''PASS''}
     \<and> present_text (text_at check ''rationale'') \<and> texts_at check ''artifact_ids'' \<noteq> []
     \<and> (\<forall>kind \<in> set (cr_required_artifact_kinds c). \<exists>f \<in> set (artifacts s).
          af_id f \<in> set (texts_at check ''artifact_ids'') \<and> af_task f = t_id t \<and> af_kind f = kind)"

lemma reported_evidence_complete:
  assumes "reported_evidence t c check s = (''PASS'', [])"
  shows "\<exists>v. check = Some v \<and> evidence_reported t c v s"
proof -
  from assms obtain v where v: "check = Some v"
    by (cases check) (auto simp: reported_evidence_def)
  from arg_cong [OF assms, of fst] v
  have status: "text_at v ''status'' \<in> {Some ''passed'', Some ''PASS''}"
    by (cases "text_at v ''status''") (simp_all add: reported_evidence_def Let_def split: if_splits)
  from arg_cong [OF assms, of snd] v
  have rest: "present_text (text_at v ''rationale'')" "texts_at v ''artifact_ids'' \<noteq> []"
    "missing_kinds t c (texts_at v ''artifact_ids'') s = []"
    by (simp_all add: reported_evidence_def Let_def split: if_splits)
  from rest(3) have "\<forall>kind \<in> set (cr_required_artifact_kinds c). \<exists>f \<in> set (artifacts s).
      af_id f \<in> set (texts_at v ''artifact_ids'') \<and> af_task f = t_id t \<and> af_kind f = kind"
    by (fastforce simp: missing_kinds_def filter_empty_conv list_ex_iff)
  with status rest(1,2) v show ?thesis by (simp add: evidence_reported_def)
qed

lemma status_PASS:
  assumes "st_verdict (criterion_status_of t r result s c) = ''PASS''"
  shows "\<exists>check. check_for result c = Some check \<and> evidence_reported t c check s
    \<and> (\<forall>mode \<in> set (required_modes c). \<exists>v. passing_receipt t r c mode s v
         \<and> (mode = ''independent_review'' \<longrightarrow> review_gaps r v (Some check) s = []))"
proof -
  obtain verdict missing where e: "reported_evidence t c (check_for result c) s = (verdict, missing)"
    by fastforce
  obtain verdict' missing' ids where
    f: "fold (apply_mode t r c (check_for result c) s) (required_modes c) (verdict, missing, [])
        = (verdict', missing', ids)"
    by (metis prod.exhaust)
  from assms e f have "verdict' = ''PASS''" "missing' = []"
    by (auto simp: criterion_status_of_def Let_def split: if_splits)
  with fold_apply_mode_complete [of t r c "check_for result c" s "required_modes c" "(verdict, missing, [])"]
    fold_apply_mode_missing [of "(verdict, missing, [])" t r c "check_for result c" s "required_modes c"] f
  have modes: "\<forall>mode \<in> set (required_modes c). \<exists>v. passing_receipt t r c mode s v
       \<and> (mode = ''independent_review'' \<longrightarrow> review_gaps r v (check_for result c) s = [])"
    and "verdict = ''PASS''" "missing = []"
    by auto
  with e have "reported_evidence t c (check_for result c) s = (''PASS'', [])" by simp
  from reported_evidence_complete [OF this] modes show ?thesis by fastforce
qed

lemma fetch_task_Inr: "fetch_task i s = Inr k \<Longrightarrow> find_task i s = Some (k_row k) \<and> t_id (k_row k) = i"
  by (auto simp: fetch_task_def res_simps row_to_task_Inr dest: find_task_SomeD)

end
