(* ===== verification/Completion.thy ===== *)
theory Completion
  imports Acceptance
begin

text \<open>
  The completion check (\<open>morrows-store/src/completion.rs\<close>, \<open>morrows-core/src/completion.rs\<close>):
  the report and the memory disposition an executor submits, parsed the way serde derives it,
  and the list of everything that blocks the completion of a run.
\<close>

subsection \<open>Documents\<close>

record disposition =
  di_status :: string
  di_rationale :: string
  di_memories :: "string list"

record evidence =
  ee_path :: string
  ee_status :: string
  ee_rationale :: string
  ee_artifacts :: "string list"

record completion_report =
  rp_context :: "string option"
  rp_checks :: "evidence list"

fun as_text :: "json \<Rightarrow> string option" where
  "as_text (JStr t) = Some t"
| "as_text _ = None"

fun as_texts :: "json \<Rightarrow> string list option" where
  "as_texts (JArr vs) = those (map as_text vs)"
| "as_texts _ = None"

fun as_opt_text :: "json \<Rightarrow> string option option" where
  "as_opt_text JNull = Some None"
| "as_opt_text (JStr t) = Some (Some t)"
| "as_opt_text _ = None"

text \<open>A derived \<open>Deserialize\<close> takes an object, or an array with the fields in order.\<close>

definition field_or :: "'a option \<Rightarrow> (json \<Rightarrow> 'a option) \<Rightarrow> json_map \<Rightarrow> string \<Rightarrow> 'a option" where
  "field_or d f m k = (case map_of m k of None \<Rightarrow> d | Some v \<Rightarrow> f v)"

definition parse_disposition :: "json \<Rightarrow> disposition option" where
  "parse_disposition v =
     (let build = (\<lambda>st ra me.
        Option.bind st (\<lambda>a. Option.bind ra (\<lambda>b. Option.bind me (\<lambda>c.
          Some \<lparr>di_status = a, di_rationale = b, di_memories = c\<rparr>)))) in
      case v of
        JObj m \<Rightarrow> build (field_or None as_text m ''status'') (field_or (Some []) as_text m ''rationale'')
                   (field_or (Some []) as_texts m ''memory_entry_ids'')
      | JArr [a] \<Rightarrow> build (as_text a) (Some []) (Some [])
      | JArr [a, b] \<Rightarrow> build (as_text a) (as_text b) (Some [])
      | JArr [a, b, c] \<Rightarrow> build (as_text a) (as_text b) (as_texts c)
      | _ \<Rightarrow> None)"

definition parse_evidence :: "json \<Rightarrow> evidence option" where
  "parse_evidence v =
     (let build = (\<lambda>p st ra ar.
        Option.bind p (\<lambda>a. Option.bind st (\<lambda>b. Option.bind ra (\<lambda>c. Option.bind ar (\<lambda>d.
          Some \<lparr>ee_path = a, ee_status = b, ee_rationale = c, ee_artifacts = d\<rparr>))))) in
      case v of
        JObj m \<Rightarrow> build (field_or None as_text m ''criterion_path'') (field_or None as_text m ''status'')
                   (field_or None as_text m ''rationale'') (field_or None as_texts m ''artifact_ids'')
      | JArr [a, b, c, d] \<Rightarrow> build (as_text a) (as_text b) (as_text c) (as_texts d)
      | _ \<Rightarrow> None)"

fun parse_checks :: "json \<Rightarrow> evidence list option" where
  "parse_checks (JArr vs) = those (map parse_evidence vs)"
| "parse_checks _ = None"

definition parse_report :: "json \<Rightarrow> completion_report option" where
  "parse_report v =
     (let build = (\<lambda>cx ch. Option.bind cx (\<lambda>a. Option.bind ch (\<lambda>b.
        Some \<lparr>rp_context = a, rp_checks = b\<rparr>))) in
      case v of
        JObj m \<Rightarrow> build (field_or (Some None) as_opt_text m ''context_revision_id'')
                   (field_or None parse_checks m ''checks'')
      | JArr [a, b] \<Rightarrow> build (as_opt_text a) (parse_checks b)
      | _ \<Rightarrow> None)"

subsection \<open>Blockers\<close>

text \<open>One cited memory: what the join with its publication must show.\<close>

definition cited_memory_blockers ::
  "external \<Rightarrow> id \<Rightarrow> id \<Rightarrow> string \<Rightarrow> db \<Rightarrow> string \<Rightarrow> string list" where
  "cited_memory_blockers x task project status s memory =
     (case x_parse_id x memory of
        None \<Rightarrow> [''memory_entry_id '' @ memory @ '' is not a UUID'']
      | Some i \<Rightarrow>
          (case (find (\<lambda>m. me_id m = i) (memories s), find (\<lambda>p. pb_memory p = i) (publications s)) of
             (Some m, Some p) \<Rightarrow>
               if me_project m \<noteq> Some project \<or> me_visibility m \<noteq> ''shared'' \<or> pb_task p \<noteq> task
               then [''memory_entry_id '' @ memory @ '' was not published by this task into its current project'']
               else
                 (if status = ''updated'' \<and> me_supersedes m = None
                  then [''memory_entry_id '' @ memory @ '' does not supersede an existing project memory''] else [])
                 @ (if git_backend project s
                       \<and> (case last_max go_created_at (filter (\<lambda>g. go_domain g = project
                              \<and> go_kind g = ''publication'' \<and> go_actor g = Some (pb_agent p)
                              \<and> go_key g = Some (pb_key p)) (git_operations s)) of
                            None \<Rightarrow> False | Some g \<Rightarrow> go_state g \<noteq> ''indexed'')
                    then [''memory_entry_id '' @ memory @ '' has a non-indexed Git publication operation''] else [])
           | _ \<Rightarrow> [''memory_entry_id '' @ memory @ '' is not a project_memory_publish receipt'']))"

fun cited_memories_blockers ::
  "external \<Rightarrow> id \<Rightarrow> id \<Rightarrow> string \<Rightarrow> db \<Rightarrow> string list \<Rightarrow> string list \<Rightarrow> string list" where
  "cited_memories_blockers x task project status s seen [] = []"
| "cited_memories_blockers x task project status s seen (m # ms) =
     (if m \<in> set seen
      then (''duplicate memory_entry_id '' @ m) # cited_memories_blockers x task project status s seen ms
      else cited_memory_blockers x task project status s m
        @ cited_memories_blockers x task project status s (m # seen) ms)"

definition disposition_blockers :: "external \<Rightarrow> id \<Rightarrow> id \<Rightarrow> json \<Rightarrow> db \<Rightarrow> string list res" where
  "disposition_blockers x task project result s =
     (case json_get result ''memory_disposition'' of
        None \<Rightarrow> Inr [''result.memory_disposition is required for executor tasks with a project; publish/update reusable project knowledge or use not_applicable with a rationale'']
      | Some v \<Rightarrow>
          (case parse_disposition v of
             None \<Rightarrow> Inr [''invalid result.memory_disposition'']
           | Some d \<Rightarrow>
               if di_status d = ''not_applicable''
               then Inr ((if blank (di_rationale d)
                          then [''memory_disposition not_applicable requires a rationale''] else [])
                 @ (if di_memories d \<noteq> []
                    then [''memory_disposition not_applicable must not include memory_entry_ids''] else []))
               else if di_status d = ''published'' \<or> di_status d = ''updated''
               then bind_res (current_head x project s) (\<lambda>_.
                 Inr ((if blank (di_rationale d)
                       then [''memory_disposition '' @ di_status d @ '' requires a rationale''] else [])
                   @ (if di_memories d = []
                      then [''memory_disposition '' @ di_status d @ '' requires memory_entry_ids''] else [])
                   @ cited_memories_blockers x task project (di_status d) s [] (di_memories d)))
               else Inr [''memory_disposition.status must be published, updated, or not_applicable; got '' @ di_status d]))"

text \<open>The checks of a report in order; \<open>seen\<close> are the paths of the checks before.\<close>

fun check_blockers :: "task_row \<Rightarrow> db \<Rightarrow> string list \<Rightarrow> evidence list \<Rightarrow> string list" where
  "check_blockers t s seen [] = []"
| "check_blockers t s seen (e # es) =
     (if ee_path e \<in> set seen then [''duplicate criterion '' @ ee_path e] else [])
     @ (if list_ex (\<lambda>c. criterion_path c = ee_path e) (t_criteria t) then []
        else [''unknown criterion '' @ ee_path e])
     @ (let native = find (\<lambda>c. (case cr_legacy_path c of None \<Rightarrow> [] | Some p \<Rightarrow> p) = ee_path e
              \<or> ''/acceptance_criteria/'' @ cr_id c = ee_path e) (t_criteria t);
            waive = ee_status e = ''NOT_APPLICABLE''
              \<and> (case native of None \<Rightarrow> False | Some c \<Rightarrow> cr_allow_not_applicable c)
              \<and> \<not> blank (ee_rationale e) in
        if \<not> waive \<and> (\<not> (ee_status e = ''passed'' \<or> ee_status e = ''PASS'')
             \<or> blank (ee_rationale e) \<or> ee_artifacts e = [])
        then [ee_path e @ '' requires passed, rationale and artifact_ids''] else [])
     @ map (\<lambda>i. ''artifact '' @ i @ '' is missing, has no URI, or belongs to another task'')
         (filter (\<lambda>i. \<not> usable_artifact (t_id t) i s) (ee_artifacts e))
     @ check_blockers t s (ee_path e # seen) es"

definition report_blockers :: "task_row \<Rightarrow> bool \<Rightarrow> json \<Rightarrow> db \<Rightarrow> string list" where
  "report_blockers t required result s =
     (case json_get result ''completion'' of
        None \<Rightarrow> if required
          then [''result.completion is required; fill completion_template from run_completion_check''] else []
      | Some v \<Rightarrow>
          (case parse_report v of
             None \<Rightarrow> [''invalid result.completion'']
           | Some rp \<Rightarrow>
               (if rp_context rp \<noteq> t_context t
                then [''completion context is stale; read task_context and reconcile evidence''] else [])
               @ check_blockers t s [] (rp_checks rp)
               @ map (\<lambda>c. ''missing criterion '' @ criterion_path c)
                   (filter (\<lambda>c. criterion_path c \<notin> set (map ee_path (rp_checks rp))) (t_criteria t))))"

record readiness =
  rd_required :: bool
  rd_memory_required :: bool
  rd_statuses :: "criterion_status list"
  rd_blockers :: "string list"

definition rd_ready :: "readiness \<Rightarrow> bool" where
  "rd_ready d \<longleftrightarrow> rd_blockers d = []"

text \<open>The blockers that do not depend on the report.\<close>

definition lifecycle_blockers :: "task \<Rightarrow> run \<Rightarrow> assignment \<Rightarrow> json \<Rightarrow> time \<Rightarrow> db \<Rightarrow> string list" where
  "lifecycle_blockers k r a result now s =
     (if pending_revision (t_id (k_row k)) s
      then [''Task revision pending executor acknowledgment; read the revision and submit a new plan''] else [])
     @ (if r_status r = ''running'' \<or> r_status r = ''paused'' then [] else [''run is '' @ r_status r])
     @ (if a_status a \<noteq> ''active'' \<or> a_expires_at a \<le> now
        then [''assignment is not active; use assignment_renew for a live lease or assignment_recover for the original expired executor lease''] else [])
     @ (if k_state k = Done \<or> k_state k = Cancelled then [''task is '' @ task_state_display (k_state k)] else [])"

definition gate_blockers :: "external \<Rightarrow> task \<Rightarrow> assignment \<Rightarrow> db \<Rightarrow> string list res" where
  "gate_blockers x k a s =
     (if a_role a = ''executor''
      then bind_res (gate_conn (x_pointer x) (t_id (k_row k)) s) (\<lambda>g.
        Inr (if tg_state g = Eligible then [] else [''task chain gate'']))
      else Inr [])"

definition failure_blockers :: "json \<Rightarrow> string list" where
  "failure_blockers result =
     (if json_get result ''all_acceptance_criteria_met'' = Some (JBool False)
         \<or> json_get result ''ok'' = Some (JBool False)
      then [''result explicitly reports failure; checkpoint or hand off incomplete work''] else [])"

definition summary_blockers :: "task_row \<Rightarrow> bool \<Rightarrow> context_revision option \<Rightarrow> string list" where
  "summary_blockers t required cx =
     (if required \<and> list_all (\<lambda>c. cr_legacy_path c \<noteq> None) (t_criteria t)
         \<and> (case cx of None \<Rightarrow> True | Some v \<Rightarrow> blank (cx_summary v))
      then [''persist a nonempty current_summary with memory_revise before completion''] else [])"

definition status_accepted :: "criterion_status \<Rightarrow> bool" where
  "status_accepted st \<longleftrightarrow> st_verdict st = ''PASS'' \<or> st_verdict st = ''NOT_APPLICABLE''"

definition status_blockers :: "criterion_status list \<Rightarrow> string list" where
  "status_blockers sts =
     map (\<lambda>st. ''criterion '' @ st_criterion st @ '' '' @ st_verdict st @ '': '' @ join_with '', '' (st_missing st))
       (filter (\<lambda>st. \<not> status_accepted st) sts)"

definition completion_check_conn :: "external \<Rightarrow> run \<Rightarrow> json \<Rightarrow> time \<Rightarrow> db \<Rightarrow> readiness res" where
  "completion_check_conn x r result now s =
     bind_res (fetch_task (r_task r) s) (\<lambda>k.
     let t = k_row k in
     bind_res (fetch_assignment (r_assignment r) s) (\<lambda>a.
     bind_res (case t_context t of None \<Rightarrow> Inr None
       | Some i \<Rightarrow> bind_res (ok_or no_rows (find (\<lambda>c. cx_id c = i) (contexts s))) (\<lambda>c. Inr (Some c))) (\<lambda>cx.
     let executor = a_role a = ''executor'';
         required = executor \<and> t_criteria t \<noteq> [];
         memory_required = executor \<and> t_project t \<noteq> None in
     bind_res (gate_blockers x k a s) (\<lambda>gate.
     bind_res (case t_project t of None \<Rightarrow> Inr []
       | Some p \<Rightarrow> if memory_required then disposition_blockers x (t_id t) p result s else Inr []) (\<lambda>disposition.
     let statuses = (if executor then criterion_statuses_conn t r result s else []) in
     Inr \<lparr>rd_required = required, rd_memory_required = memory_required, rd_statuses = statuses,
          rd_blockers = lifecycle_blockers k r a result now s @ gate @ failure_blockers result
            @ disposition @ report_blockers t required result s @ summary_blockers t required cx
            @ status_blockers statuses\<rparr>)))))"

definition run_completion_check :: "external \<Rightarrow> id \<Rightarrow> id \<Rightarrow> json \<Rightarrow> time \<Rightarrow> db \<Rightarrow> readiness res" where
  "run_completion_check x i agent result now s =
     bind_res (ok_or (NotFound (''run '' @ i)) (find_run i s)) (\<lambda>r.
     bind_res (ensure (r_agent r = agent) (Conflict ''run belongs to another agent instance'')) (\<lambda>_.
     completion_check_conn x r result now s))"

text \<open>\<open>save_completion_conn\<close> (\<open>acceptance.rs\<close>): the record kept of a completed executor run.\<close>

definition save_completion_conn :: "run \<Rightarrow> readiness \<Rightarrow> id \<Rightarrow> time \<Rightarrow> db \<Rightarrow> db res" where
  "save_completion_conn r d fresh now s =
     bind_res (fetch_assignment (r_assignment r) s) (\<lambda>a.
     if a_role a \<noteq> ''executor'' then Inr s
     else bind_res (fetch_task (r_task r) s) (\<lambda>k.
       bind_res (ensure (\<not> list_ex (\<lambda>c. co_id c = fresh) (completion_records s)) (storage PrimaryKeyViolation)) (\<lambda>_.
       Inr (s\<lparr>completion_records := completion_records s @
         [\<lparr>co_id = fresh, co_task = t_id (k_row k), co_run = r_id r,
           co_version = t_acceptance_version (k_row k), co_context = t_context (k_row k),
           co_verdicts = map (\<lambda>st. (st_criterion st, st_verdict st)) (rd_statuses d),
           co_created_at = now\<rparr>]\<rparr>))))"

subsection \<open>What readiness means\<close>

definition lifecycle_open :: "task \<Rightarrow> run \<Rightarrow> assignment \<Rightarrow> time \<Rightarrow> db \<Rightarrow> bool" where
  "lifecycle_open k r a now s \<longleftrightarrow>
     \<not> pending_revision (t_id (k_row k)) s
     \<and> r_status r \<in> {''running'', ''paused''}
     \<and> a_status a = ''active'' \<and> now < a_expires_at a
     \<and> k_state k \<notin> {Done, Cancelled}"

lemma lifecycle_blockers_Nil:
  "lifecycle_blockers k r a result now s = [] \<longleftrightarrow> lifecycle_open k r a now s"
  by (auto simp: lifecycle_blockers_def lifecycle_open_def not_le)

lemma status_blockers_Nil: "status_blockers sts = [] \<longleftrightarrow> (\<forall>st \<in> set sts. status_accepted st)"
  by (simp add: status_blockers_def filter_empty_conv)

lemma gate_blockers_Nil:
  "gate_blockers x k a s = Inr [] \<longleftrightarrow>
     (a_role a = ''executor'' \<longrightarrow> enforce_gate_conn (x_pointer x) (t_id (k_row k)) s = Inr ())"
  by (auto simp: gate_blockers_def enforce_gate_conn_def res_simps split: if_splits)

lemma completion_ready:
  assumes "completion_check_conn x r result now s = Inr d" "rd_blockers d = []"
  obtains k a where "fetch_task (r_task r) s = Inr k" "fetch_assignment (r_assignment r) s = Inr a"
    "lifecycle_open k r a now s"
    "a_role a = ''executor'' \<Longrightarrow> enforce_gate_conn (x_pointer x) (t_id (k_row k)) s = Inr ()"
    "a_role a = ''executor'' \<Longrightarrow> \<forall>c \<in> set (t_criteria (k_row k)).
       status_accepted (criterion_status_of (k_row k) r result s c)"
    "report_blockers (k_row k) (rd_required d) result s = []"
    "rd_required d \<longleftrightarrow> a_role a = ''executor'' \<and> t_criteria (k_row k) \<noteq> []"
    "rd_statuses d = (if a_role a = ''executor'' then criterion_statuses_conn (k_row k) r result s else [])"
proof -
  from assms(1) obtain k a cx gate disposition where
    k: "fetch_task (r_task r) s = Inr k" and a: "fetch_assignment (r_assignment r) s = Inr a"
    and gate: "gate_blockers x k a s = Inr gate"
    and d: "rd_required d = (a_role a = ''executor'' \<and> t_criteria (k_row k) \<noteq> [])"
      "rd_statuses d = (if a_role a = ''executor'' then criterion_statuses_conn (k_row k) r result s else [])"
      "rd_blockers d = lifecycle_blockers k r a result now s @ gate @ failure_blockers result
            @ disposition @ report_blockers (k_row k) (rd_required d) result s
            @ summary_blockers (k_row k) (rd_required d) cx @ status_blockers (rd_statuses d)"
    by (auto simp: completion_check_conn_def res_simps Let_def)
  from assms(2) d(3) have nil: "lifecycle_blockers k r a result now s = []" "gate = []"
    "report_blockers (k_row k) (rd_required d) result s = []" "status_blockers (rd_statuses d) = []"
    by simp_all
  show thesis
  proof (rule that [OF k a _ _ _ nil(3) d(1,2)])
    show "lifecycle_open k r a now s" using nil(1) by (simp add: lifecycle_blockers_Nil)
    show "enforce_gate_conn (x_pointer x) (t_id (k_row k)) s = Inr ()" if "a_role a = ''executor''"
      using gate nil(2) that by (simp add: gate_blockers_Nil)
    show "\<forall>c \<in> set (t_criteria (k_row k)). status_accepted (criterion_status_of (k_row k) r result s c)"
      if "a_role a = ''executor''"
      using nil(4) that by (simp add: d(2) status_blockers_Nil criterion_statuses_conn_def)
  qed
qed

end
