(* ===== verification/Leases.thy ===== *)
theory Leases
  imports Completion
begin

text \<open>
  Assignments and runs (\<open>morrows-store/src/lib.rs\<close>): the claim of a role on a task, leases and
  their expiry, recovery and renewal, the start, the checkpoints and the completion of a run,
  and the cancellation of a task.
\<close>

definition seconds :: "int \<Rightarrow> time" where
  "seconds n = n * 1000000000"

definition lease_end :: "time \<Rightarrow> int \<Rightarrow> time" where
  "lease_end now lease_seconds = now + seconds (max lease_seconds 30)"

lemma lease_end_later: "now < lease_end now n"
  by (simp add: lease_end_def seconds_def)

subsection \<open>Claims\<close>

text \<open>
  \<open>predecessor_runtime_active\<close> (\<open>continuation.rs\<close>): a process of a previous execution is still
  starting or running, or the runtime of a finished run was not terminalized.
\<close>

definition predecessor_runtime_active :: "id \<Rightarrow> db \<Rightarrow> bool" where
  "predecessor_runtime_active task s \<longleftrightarrow>
     list_ex (\<lambda>l. la_task l = task \<and> (la_status l = ''starting'' \<or> la_status l = ''running'')
        \<and> list_ex (\<lambda>p. lp_id p = la_profile l \<and> (lp_adapter p = ''codex_cli'' \<or> lp_adapter p = ''codebuddy_cli''))
            (launch_profiles s)) (launch_attempts s)
     \<or> list_ex (\<lambda>r. r_task r = task \<and> (r_status r = ''handed_off'' \<or> r_status r = ''completed'')
          \<and> (if list_ex (\<lambda>b. rb_run b = r_id r) (runtime_bindings s)
             then list_ex (\<lambda>b. rb_run b = r_id r \<and> rb_terminalized_at b = None) (runtime_bindings s)
             else list_ex (\<lambda>p. pv_run p = r_id r) (provisionings s))) (runs s)"

definition native_contract :: "id \<Rightarrow> db \<Rightarrow> bool" where
  "native_contract task s \<longleftrightarrow>
     list_ex (\<lambda>t. t_id t = task \<and> list_ex (\<lambda>c. cr_legacy_path c = None) (t_criteria t)) (tasks s)"

definition holds_role :: "id \<Rightarrow> id \<Rightarrow> string \<Rightarrow> db \<Rightarrow> bool" where
  "holds_role task agent role s \<longleftrightarrow>
     list_ex (\<lambda>a. a_task a = task \<and> a_agent a = agent \<and> a_role a = role \<and> a_status a = ''active'')
       (assignments s)"

definition cleanup_blocked :: "id \<Rightarrow> db \<Rightarrow> bool" where
  "cleanup_blocked task s \<longleftrightarrow>
     list_ex (\<lambda>r. r_task r = task \<and> r_status r \<in> {''interrupted'', ''cleanup_pending'', ''cancelling''}) (runs s)"

definition claim_task_tx ::
  "external \<Rightarrow> id \<Rightarrow> id \<Rightarrow> string \<Rightarrow> int \<Rightarrow> bool \<Rightarrow> id \<Rightarrow> time \<Rightarrow> (db, assignment) tx" where
  "claim_task_tx x task agent role lease_seconds intake fresh now s =
     bind_res (ensure (\<not> predecessor_runtime_active task s)
       (Conflict ''previous execution is still stopping or cleaning up'')) (\<lambda>_.
     let expires = lease_end now lease_seconds in
     bind_res (ensure (native_contract task s \<and> (role = ''reviewer'' \<or> role = ''executor'') \<longrightarrow>
         \<not> holds_role task agent (if role = ''reviewer'' then ''executor'' else ''reviewer'') s)
       (Conflict ''release the active opposite-role assignment before switching roles'')) (\<lambda>_.
     bind_res (ensure (\<not> blank role) (InvalidInput ''role cannot be empty'')) (\<lambda>_.
     bind_res (if role = ''executor'' then enforce_gate_conn (x_pointer x) task s else Inr ()) (\<lambda>_.
     bind_res (ensure (\<not> cleanup_blocked task s) (Conflict ''Task has an interrupted or cleaning Run'')) (\<lambda>_.
     let intake_required = intake \<and> role = ''executor'';
         phase = (if intake_required then context_review else implementing);
         a = \<lparr>a_id = fresh, a_task = task, a_role = role, a_agent = agent, a_status = ''active'',
              a_phase = phase, a_acquired_at = now, a_expires_at = expires, a_renewed_at = now,
              a_released_at = None, a_release_reason = None\<rparr> in
     bind_res
       (case find_task task s of
          None \<Rightarrow> Inl (NotFound (''task '' @ task))
        | Some t \<Rightarrow>
            if t_state t = ''done'' \<or> t_state t = ''cancelled''
            then Inl (Conflict (''task is '' @ t_state t))
            else (case insert_assignment a s of
                Inl UniqueViolation \<Rightarrow>
                  Inl (Conflict (''task role '' @ [CHR 0x27] @ role @ [CHR 0x27] @ '' already has an active assignment''))
              | Inl e \<Rightarrow> Inl (storage e)
              | Inr s' \<Rightarrow> Inr s')) (\<lambda>s1.
     bind_res (if intake_required then create_assignment_intake_tx fresh task agent now s1 else Inr s1) (\<lambda>s2.
     let s3 = update_tasks (\<lambda>t. t_id t = task)
           (\<lambda>t. t\<lparr>t_state := (if role = ''executor'' \<and> t_state t = ''ready'' then ''in_progress'' else t_state t),
                 t_updated_at := now\<rparr>) s2 in
     Inr (a, append_event_tx ''agent_instance'' agent ''task'' task ''assignment.claimed''
       [(''assignment_id'', PStr fresh), (''role'', PStr role), (''expires_at'', PTime expires)] None now s3))))))))"

definition claim_task ::
  "external \<Rightarrow> id \<Rightarrow> id \<Rightarrow> string \<Rightarrow> int \<Rightarrow> id \<Rightarrow> time \<Rightarrow> (db, assignment) operation" where
  "claim_task x task agent role lease_seconds fresh now =
     checked (get_agent agent)
       (\<lambda>_. commit (claim_task_tx x task agent role lease_seconds False fresh now))"

subsection \<open>Runs\<close>

definition live_statuses :: "string set" where
  "live_statuses = {''running'', ''paused'', ''interrupted'', ''cleanup_pending'', ''cancelling''}"

definition insert_run_context :: "run_context \<Rightarrow> db \<Rightarrow> sql_error + db" where
  "insert_run_context c s =
     (if list_ex (\<lambda>d. rc_run d = rc_run c) (run_contexts s) then Inl PrimaryKeyViolation
      else if \<not> list_ex (\<lambda>v. cx_id v = rc_context c) (contexts s) then Inl ForeignKeyViolation
      else Inr (s\<lparr>run_contexts := run_contexts s @ [c]\<rparr>))"

definition start_run_tx ::
  "external \<Rightarrow> id \<Rightarrow> id \<Rightarrow> string option \<Rightarrow> bool \<Rightarrow> id \<Rightarrow> time \<Rightarrow> (db, run_view) tx" where
  "start_run_tx x i actor conversation enforce_intake fresh now s =
     bind_res (ok_or (NotFound (''assignment '' @ i)) (find_assignment i s)) (\<lambda>a.
     bind_res (ensure (\<not> (a_status a \<noteq> ''active'' \<or> a_expires_at a \<le> now))
       (Conflict ''assignment is not active'')) (\<lambda>_.
     bind_res (if a_role a = ''executor'' then enforce_gate_conn (x_pointer x) (a_task a) s else Inr ()) (\<lambda>_.
     bind_res (ensure (a_agent a = actor) (Conflict ''assignment belongs to another agent instance'')) (\<lambda>_.
     bind_res (ensure (\<not> list_ex (\<lambda>r. r_assignment r = i \<and> r_status r \<in> live_statuses) (runs s))
       (Conflict ''assignment already has an active run'')) (\<lambda>_.
     bind_res (if enforce_intake then enforce_execution_phase_tx x a s else Inr s) (\<lambda>s1.
     let context_id = Option.bind (find_task (a_task a) s1) t_context;
         r = \<lparr>r_id = fresh, r_task = a_task a, r_assignment = i, r_agent = a_agent a,
              r_conversation = conversation, r_status = ''running'', r_stop_reason = None,
              r_checkpoint = None, r_result = None, r_started_at = now, r_ended_at = None\<rparr> in
     bind_res (exec (insert_run r s1)) (\<lambda>s2.
     bind_res (case context_id of None \<Rightarrow> Inr s2
       | Some c \<Rightarrow> exec (insert_run_context \<lparr>rc_run = fresh, rc_context = c, rc_pinned_at = now\<rparr> s2)) (\<lambda>s3.
     Inr (\<lparr>v_run = r, v_failure_reason = None, v_context = context_id\<rparr>,
       append_event_tx ''agent_instance'' (a_agent a) ''run'' fresh ''run.started''
         [(''task_id'', PStr (a_task a)), (''assignment_id'', PStr i),
          (''intake_only'', PBool (\<not> enforce_intake))] None now s3)))))))))"

definition start_run ::
  "external \<Rightarrow> id \<Rightarrow> id \<Rightarrow> string option \<Rightarrow> id \<Rightarrow> time \<Rightarrow> (db, run_view) operation" where
  "start_run x i actor conversation fresh now = commit (start_run_tx x i actor conversation True fresh now)"

definition claim_task_for_execution_tx ::
  "external \<Rightarrow> id \<Rightarrow> id \<Rightarrow> string \<Rightarrow> int \<Rightarrow> id \<Rightarrow> id \<Rightarrow> time \<Rightarrow> (db, assignment \<times> run_view) tx" where
  "claim_task_for_execution_tx x task agent role lease_seconds fresh_a fresh_r now s =
     bind_res (ok_or (NotFound (''task '' @ task)) (find_task task s)) (\<lambda>t.
     bind_res (ensure (t_mode t = ''open'') (Conflict
       (if t_mode t = ''approval'' then ''task requires assignment approval; use task_request_assignment''
        else if t_mode t = ''dispatch'' then ''task is dispatcher-managed and cannot be self-claimed''
        else ''task assignment mode is '' @ t_mode t))) (\<lambda>_.
     bind_res (ensure (\<not> (t_state t \<noteq> ''ready'' \<and> role \<noteq> ''reviewer''))
       (Conflict (''task is '' @ t_state t @ ''; only ready tasks can be self-claimed''))) (\<lambda>_.
     bind_res (claim_task_tx x task agent role lease_seconds True fresh_a now s) (\<lambda>(a, s1).
     bind_res (start_run_tx x fresh_a agent None False fresh_r now s1) (\<lambda>(r, s2).
     let pending = find (\<lambda>q. ar_task q = task \<and> ar_agent q = agent \<and> ar_role q = role
            \<and> ar_status q = ''pending'') (requests s2);
         s3 = (case pending of None \<Rightarrow> s2
           | Some q \<Rightarrow>
               append_event_tx ''system'' ''open-task-claim'' ''task'' task ''assignment.request_resolved''
                 [(''request_id'', PStr (ar_id q)), (''status'', PStr ''approved''),
                  (''assignment_id'', PStr fresh_a),
                  (''resolution'', PStr ''auto-approved by open task claim'')] None now
                 (s2\<lparr>requests := update_where (\<lambda>p. ar_id p = ar_id q \<and> ar_status p = ''pending'')
                    (\<lambda>p. p\<lparr>ar_status := ''approved'', ar_assignment := Some fresh_a,
                          ar_resolution := Some ''auto-approved by open task claim'',
                          ar_resolved_at := Some now\<rparr>) (requests s2)\<rparr>)) in
     Inr ((a, r), append_event_tx ''agent_instance'' agent ''task'' task ''task.claimed_for_execution''
       [(''assignment_id'', PStr fresh_a), (''run_id'', PStr fresh_r), (''role'', PStr role)] None now s3))))))"

definition claim_task_for_execution ::
  "external \<Rightarrow> id \<Rightarrow> id \<Rightarrow> string \<Rightarrow> int \<Rightarrow> id \<Rightarrow> id \<Rightarrow> time \<Rightarrow> (db, assignment \<times> run_view) operation" where
  "claim_task_for_execution x task agent role lease_seconds fresh_a fresh_r now =
     checked (get_agent agent)
       (\<lambda>_. commit (claim_task_for_execution_tx x task agent role lease_seconds fresh_a fresh_r now))"

subsection \<open>Leases\<close>

definition renew_assignment_tx :: "id \<Rightarrow> id \<Rightarrow> int \<Rightarrow> time \<Rightarrow> (db, unit) tx" where
  "renew_assignment_tx i actor lease_seconds now s =
     bind_res (ok_or (NotFound ''assignment'') (find_assignment i s)) (\<lambda>a.
     bind_res (ensure (a_agent a = actor) (Conflict ''assignment belongs to another agent instance'')) (\<lambda>_.
     bind_res (ensure (a_status a = ''active'') (Conflict (''assignment is '' @ a_status a))) (\<lambda>_.
     bind_res (ensure (\<not> a_expires_at a \<le> now) (Conflict ''assignment lease has expired'')) (\<lambda>_.
     let expires = lease_end now lease_seconds in
     Inr ((), append_event_tx ''agent_instance'' actor ''task'' (a_task a) ''assignment.renewed''
       [(''assignment_id'', PStr i), (''expires_at'', PTime expires)] None now
       (update_assignments (\<lambda>b. a_id b = i \<and> a_status b = ''active'')
          (\<lambda>b. b\<lparr>a_renewed_at := now, a_expires_at := expires\<rparr>) s))))))"

definition renew_assignment :: "id \<Rightarrow> id \<Rightarrow> int \<Rightarrow> time \<Rightarrow> (db, assignment) operation" where
  "renew_assignment i actor lease_seconds now =
     commit_then (renew_assignment_tx i actor lease_seconds now) (\<lambda>_. get_assignment i)"

definition recoverable :: "assignment \<Rightarrow> time \<Rightarrow> unit res" where
  "recoverable a now =
     (if a_status a = ''active'' then
        ensure (a_expires_at a \<le> now) (Conflict ''assignment lease is still active; use assignment_renew'')
      else if a_status a = ''expired'' then
        ensure (a_release_reason a = Some ''lease_expired'')
          (Conflict ''assignment was not released by lease expiry and cannot be recovered'')
      else Inl (Conflict (''assignment is '' @ a_status a @ '' and cannot be recovered'')))"

definition recover_assignment_tx :: "id \<Rightarrow> id \<Rightarrow> id \<Rightarrow> int \<Rightarrow> string \<Rightarrow> time \<Rightarrow> (db, unit) tx" where
  "recover_assignment_tx i run actor lease_seconds reason now s =
     bind_res (ok_or (NotFound (''assignment '' @ i)) (find_assignment i s)) (\<lambda>a.
     bind_res (ensure (a_agent a = actor) (Conflict ''expired assignment belongs to another agent instance'')) (\<lambda>_.
     bind_res (ensure (a_role a = ''executor'') (Conflict ''only executor assignments can be recovered'')) (\<lambda>_.
     bind_res (recoverable a now) (\<lambda>_.
     bind_res (ok_or (NotFound (''task '' @ a_task a)) (find_task (a_task a) s)) (\<lambda>t.
     bind_res (ensure (t_state t = ''in_progress'')
       (Conflict (''task is '' @ t_state t @ ''; expired assignment recovery requires in_progress''))) (\<lambda>_.
     bind_res (ensure (\<not> list_ex (\<lambda>b. a_task b = a_task a \<and> a_role b = ''executor''
           \<and> a_status b = ''active'' \<and> a_id b \<noteq> a_id a) (assignments s))
       (Conflict ''task already has another active executor assignment'')) (\<lambda>_.
     bind_res (ok_or (NotFound (''run '' @ run)) (find_run run s)) (\<lambda>r.
     bind_res (ensure (\<not> (r_assignment r \<noteq> a_id a \<or> r_task r \<noteq> a_task a \<or> r_agent r \<noteq> actor))
       (Conflict ''run does not belong to the expired assignment and agent'')) (\<lambda>_.
     bind_res (ensure (r_status r = ''running'' \<or> r_status r = ''paused'')
       (Conflict (''run is '' @ r_status r @ ''; only running or paused runs can be recovered''))) (\<lambda>_.
     let expires = lease_end now lease_seconds;
         stale = (\<lambda>b. a_id b = a_id a \<and> (a_status b = ''expired'' \<or> (a_status b = ''active'' \<and> a_expires_at b \<le> now))) in
     bind_res (ensure (rows_affected stale (assignments s) = 1)
       (Conflict ''assignment changed while recovery was being attempted'')) (\<lambda>_.
     Inr ((), append_event_tx ''agent_instance'' actor ''task'' (a_task a) ''assignment.recovered''
       [(''assignment_id'', PStr (a_id a)), (''run_id'', PStr (r_id r)),
        (''agent_instance_id'', PStr actor), (''previous_status'', PStr (a_status a)),
        (''previous_expires_at'', PTime (a_expires_at a)),
        (''previous_released_at'', p_time_opt (a_released_at a)),
        (''previous_release_reason'', p_opt (a_release_reason a)),
        (''new_expires_at'', PTime expires), (''reason'', PStr reason)] None now
       (update_assignments stale
          (\<lambda>b. b\<lparr>a_status := ''active'', a_renewed_at := now, a_expires_at := expires,
                a_released_at := None, a_release_reason := None\<rparr>) s)))))))))))))"

definition recover_assignment ::
  "id \<Rightarrow> id \<Rightarrow> id \<Rightarrow> int \<Rightarrow> string \<Rightarrow> time \<Rightarrow> (db, assignment \<times> run_view) operation" where
  "recover_assignment i run actor lease_seconds reason now =
     checked (\<lambda>s. ensure (\<not> blank reason \<and> chars_count (trim reason) \<le> 1000)
         (InvalidInput ''recovery reason must contain 1 to 1000 characters''))
       (\<lambda>_. commit_then (recover_assignment_tx i run actor lease_seconds (trim reason) now)
          (\<lambda>_ s. bind_res (get_assignment i s) (\<lambda>a. bind_res (get_run run s) (\<lambda>r. Inr (a, r)))))"

definition stale_assignment :: "time \<Rightarrow> db \<Rightarrow> assignment \<Rightarrow> bool" where
  "stale_assignment now s a \<longleftrightarrow>
     a_status a = ''active'' \<and> a_expires_at a \<le> now
     \<and> \<not> list_ex (\<lambda>r. r_assignment r = a_id a
           \<and> r_status r \<in> {''interrupted'', ''cleanup_pending'', ''cancelling''}) (runs s)"

text \<open>One row of the loop of \<open>expire_stale_assignments\<close>; the first component counts.\<close>

definition expire_one :: "time \<Rightarrow> assignment \<Rightarrow> nat \<times> db \<Rightarrow> nat \<times> db" where
  "expire_one now a acc =
     (case acc of (count, s) \<Rightarrow>
        let P = (\<lambda>b. a_id b = a_id a \<and> a_status b = ''active'');
            s1 = update_assignments P (\<lambda>b. b\<lparr>a_status := ''expired'', a_released_at := Some now,
                   a_release_reason := Some ''lease_expired''\<rparr>) s
        in if rows_affected P (assignments s) = 1
           then (count + 1, append_event_tx ''system'' ''lease-manager'' ''task'' (a_task a) ''assignment.expired''
                  [(''assignment_id'', PStr (a_id a)), (''agent_instance_id'', PStr (a_agent a))] None now s1)
           else (count, s1))"

definition expire_stale_assignments_tx :: "time \<Rightarrow> (db, nat) tx" where
  "expire_stale_assignments_tx now s =
     Inr (fold (expire_one now) (filter (stale_assignment now s) (assignments s)) (0, s))"

definition expire_stale_assignments :: "time \<Rightarrow> (db, nat) operation" where
  "expire_stale_assignments now = commit (expire_stale_assignments_tx now)"

subsection \<open>Checkpoints and completion\<close>

definition active_lease :: "id \<Rightarrow> time \<Rightarrow> db \<Rightarrow> bool" where
  "active_lease i now s \<longleftrightarrow>
     list_ex (\<lambda>a. a_id a = i \<and> a_status a = ''active'' \<and> now < a_expires_at a) (assignments s)"

definition own_live_run :: "id \<Rightarrow> id \<Rightarrow> time \<Rightarrow> db \<Rightarrow> run res" where
  "own_live_run i actor now s =
     bind_res (ok_or (NotFound ''run'') (find_run i s)) (\<lambda>r.
     bind_res (ensure (r_agent r = actor) (Conflict ''run belongs to another agent instance'')) (\<lambda>_.
     bind_res (ensure (\<not> (r_status r \<noteq> ''running'' \<and> r_status r \<noteq> ''paused''))
       (Conflict (''run is '' @ r_status r))) (\<lambda>_.
     bind_res (ensure (active_lease (r_assignment r) now s) (Conflict ''assignment is not active'')) (\<lambda>_.
     Inr r))))"

definition checkpoint_run_tx :: "id \<Rightarrow> id \<Rightarrow> json \<Rightarrow> time \<Rightarrow> (db, unit) tx" where
  "checkpoint_run_tx i actor checkpoint now s =
     bind_res (own_live_run i actor now s) (\<lambda>r.
     Inr ((), append_event_tx ''agent_instance'' (r_agent r) ''run'' i ''run.checkpointed''
       [(''task_id'', PStr (r_task r))] None now
       (update_runs (\<lambda>q. r_id q = i) (\<lambda>q. q\<lparr>r_checkpoint := Some checkpoint\<rparr>) s)))"

definition checkpoint_run :: "id \<Rightarrow> id \<Rightarrow> json \<Rightarrow> time \<Rightarrow> (db, run_view) operation" where
  "checkpoint_run i actor checkpoint now =
     commit_then (checkpoint_run_tx i actor checkpoint now) (\<lambda>_. get_run i)"

definition complete_run_tx :: "external \<Rightarrow> id \<Rightarrow> id \<Rightarrow> json \<Rightarrow> id \<Rightarrow> time \<Rightarrow> (db, unit) tx" where
  "complete_run_tx x i actor result fresh now s =
     bind_res (own_live_run i actor now s) (\<lambda>r.
     bind_res (completion_check_conn x r result now s) (\<lambda>d.
     bind_res (ensure (rd_ready d) (Conflict (''completion blocked: '' @ join_with ''; '' (rd_blockers d)))) (\<lambda>_.
     bind_res (save_completion_conn r d fresh now s) (\<lambda>s1.
     let s2 = update_runs (\<lambda>q. r_id q = i) (\<lambda>q. q\<lparr>r_status := ''completed'', r_stop_reason := Some ''normal'',
           r_result := Some result, r_ended_at := Some now\<rparr>) s1 in
     bind_res (fetch_assignment (r_assignment r) s2) (\<lambda>a.
     let s3 = update_assignments (\<lambda>b. a_id b = r_assignment r)
           (\<lambda>b. b\<lparr>a_status := ''completed'', a_released_at := Some now,
                 a_release_reason := Some ''run_completed''\<rparr>) s2;
         s4 = append_event_tx ''agent_instance'' (r_agent r) ''run'' i ''run.completed''
           [(''task_id'', PStr (r_task r)), (''role'', PStr (a_role a))] None now s3 in
     if a_role a = ''executor''
     then bind_res (enforce_gate_conn (x_pointer x) (r_task r) s4) (\<lambda>_.
       Inr ((), append_event_tx ''agent_instance'' (r_agent r) ''task'' (r_task r) ''task.state_changed''
         [(''state'', PStr ''done'')] None now
         (update_tasks (\<lambda>t. t_id t = r_task r) (\<lambda>t. t\<lparr>t_state := ''done'', t_updated_at := now\<rparr>) s4)))
     else Inr ((), s4))))))"

definition complete_run :: "external \<Rightarrow> id \<Rightarrow> id \<Rightarrow> json \<Rightarrow> id \<Rightarrow> time \<Rightarrow> (db, run_view) operation" where
  "complete_run x i actor result fresh now =
     commit_then (complete_run_tx x i actor result fresh now) (\<lambda>_. get_run i)"

subsection \<open>Cancellation\<close>

definition open_attempt :: "launch_attempt \<Rightarrow> bool" where
  "open_attempt l \<longleftrightarrow> la_status l \<in> {''queued'', ''starting'', ''awaiting_agent'', ''running''}"

definition managed_run :: "db \<Rightarrow> run \<Rightarrow> bool" where
  "managed_run s r \<longleftrightarrow>
     list_ex (\<lambda>b. rb_run b = r_id r) (runtime_bindings s) \<or> list_ex (\<lambda>p. pv_run p = r_id r) (provisionings s)"

definition stop_launches :: "id \<Rightarrow> string \<Rightarrow> time \<Rightarrow> db \<Rightarrow> db" where
  "stop_launches task reason now s =
     s\<lparr>jobs := update_where
          (\<lambda>j. list_ex (\<lambda>l. la_task l = task \<and> la_job l = Some (jb_id j) \<and> open_attempt l) (launch_attempts s)
             \<and> jb_status j \<notin> {''done'', ''failed'', ''cancelled''})
          (\<lambda>j. j\<lparr>jb_status := ''cancelled'', jb_last_error := Some reason\<rparr>) (jobs s),
       launch_attempts := update_where (\<lambda>l. la_task l = task \<and> open_attempt l)
          (\<lambda>l. l\<lparr>la_status := ''cancelled'',
                la_error := (case la_error l of None \<Rightarrow> Some reason | Some e \<Rightarrow> Some e),
                la_ended_at := (case la_ended_at l of None \<Rightarrow> Some now | Some t \<Rightarrow> Some t)\<rparr>)
          (launch_attempts s)\<rparr>"

definition stop_runs :: "id \<Rightarrow> string \<Rightarrow> time \<Rightarrow> db \<Rightarrow> db" where
  "stop_runs task reason now s =
     (let s1 = update_runs (\<lambda>r. r_task r = task \<and> r_status r \<in> live_statuses \<and> managed_run s r)
            (\<lambda>r. r\<lparr>r_status := ''cancelling'', r_stop_reason := Some reason, r_ended_at := None\<rparr>) s
      in update_runs (\<lambda>r. r_task r = task \<and> r_status r \<in> live_statuses \<and> \<not> managed_run s1 r)
           (\<lambda>r. r\<lparr>r_status := ''cancelled'', r_stop_reason := Some reason, r_ended_at := Some now\<rparr>) s1)"

definition cancel_task_tx ::
  "task \<Rightarrow> string \<Rightarrow> string \<Rightarrow> string \<Rightarrow> string \<Rightarrow> time \<Rightarrow> db \<Rightarrow> db res" where
  "cancel_task_tx k actor_type actor event_type reason now s =
     (let task = t_id (k_row k) in
      if k_state k = Cancelled then Inr s
      else if k_state k = Done then Inl (Conflict ''completed tasks cannot be cancelled'')
      else
        let s1 = stop_launches task reason now s;
            s2 = stop_runs task reason now s1;
            s3 = update_assignments (\<lambda>a. a_task a = task \<and> a_status a = ''active'')
              (\<lambda>a. a\<lparr>a_status := ''released'', a_released_at := Some now, a_release_reason := Some reason\<rparr>) s2;
            s4 = s3\<lparr>requests := update_where (\<lambda>q. ar_task q = task \<and> ar_status q = ''pending'')
              (\<lambda>q. q\<lparr>ar_status := ''withdrawn'', ar_resolved_at := Some now, ar_resolution := Some reason\<rparr>)
              (requests s3)\<rparr>;
            s5 = s4\<lparr>revisions := update_where (\<lambda>v. tr_task v = task \<and> tr_status v = ''pending_ack'')
              (\<lambda>v. v\<lparr>tr_status := ''rejected'', tr_resolved_at := Some now,
                    tr_ack_impact := Some ''Task cancelled''\<rparr>) (revisions s4)\<rparr>;
            s6 = update_tasks (\<lambda>t. t_id t = task) (\<lambda>t. t\<lparr>t_state := ''cancelled'', t_updated_at := now\<rparr>) s5
        in Inr (append_event_tx actor_type actor ''task'' task event_type
             [(''previous_state'', PStr (task_state_display (k_state k))), (''reason'', PStr reason)] None now s6))"

lemma complete_run_txE:
  assumes "complete_run_tx x i actor result fresh now s = Inr (u, s')"
  obtains r d s1 a where "own_live_run i actor now s = Inr r"
    "completion_check_conn x r result now s = Inr d" "rd_ready d"
    "save_completion_conn r d fresh now s = Inr s1" "fetch_assignment (r_assignment r) s1 = Inr a"
    "runs s' = update_where (\<lambda>q. r_id q = i) (\<lambda>q. q\<lparr>r_status := ''completed'', r_stop_reason := Some ''normal'',
       r_result := Some result, r_ended_at := Some now\<rparr>) (runs s1)"
    "assignments s' = update_where (\<lambda>b. a_id b = r_assignment r)
       (\<lambda>b. b\<lparr>a_status := ''completed'', a_released_at := Some now, a_release_reason := Some ''run_completed''\<rparr>) (assignments s1)"
    "tasks s' = (if a_role a = ''executor''
       then update_where (\<lambda>t. t_id t = r_task r) (\<lambda>t. t\<lparr>t_state := ''done'', t_updated_at := now\<rparr>) (tasks s1)
       else tasks s1)"
proof -
  let ?s2 = "\<lambda>s1. update_runs (\<lambda>q. r_id q = i) (\<lambda>q. q\<lparr>r_status := ''completed'', r_stop_reason := Some ''normal'',
       r_result := Some result, r_ended_at := Some now\<rparr>) s1"
  have same: "fetch_assignment j (?s2 s1) = fetch_assignment j s1" for j s1
    by (simp add: fetch_assignment_def find_assignment_def update_runs_def)
  from assms show thesis
    unfolding complete_run_tx_def res_simps Let_def same
    by (elim exE conjE) (rule that, assumption+, auto simp: res_simps table_defs split: if_splits)
qed

end
