(* ===== verification/Delivery.thy ===== *)
theory Delivery
  imports Database
begin

text \<open>
  The delivery outbox of an agent (\<open>morrows-store/src/delivery.rs\<close>): a delivery is queued once
  per source, claimed by a running launch attempt or acknowledged by its agent, and delivered.
\<close>

definition find_delivery :: "id \<Rightarrow> db \<Rightarrow> delivery option" where
  "find_delivery i s = find (\<lambda>d. dl_id d = i) (deliveries s)"

definition update_deliveries :: "(delivery \<Rightarrow> bool) \<Rightarrow> (delivery \<Rightarrow> delivery) \<Rightarrow> db \<Rightarrow> db" where
  "update_deliveries P f s = s\<lparr>deliveries := update_where P f (deliveries s)\<rparr>"

text \<open>\<open>UNIQUE(kind,source_id)\<close>, the kinds of the table's \<open>CHECK\<close> and its foreign keys.\<close>

definition enqueue_agent_delivery_tx ::
  "id \<Rightarrow> id option \<Rightarrow> string \<Rightarrow> id \<Rightarrow> payload \<Rightarrow> id \<Rightarrow> time \<Rightarrow> db \<Rightarrow> db res" where
  "enqueue_agent_delivery_tx agent task kind source payload fresh now s =
     (if kind \<noteq> ''task_message'' \<and> kind \<noteq> ''launch_instruction'' then Inl (storage CheckViolation)
      else if list_ex (\<lambda>d. dl_id d = fresh) (deliveries s) then Inl (storage PrimaryKeyViolation)
      else if list_ex (\<lambda>d. dl_kind d = kind \<and> dl_source d = source) (deliveries s)
      then Inl (storage UniqueViolation)
      else if find_agent agent s = None \<or> (case task of None \<Rightarrow> False | Some t \<Rightarrow> find_task t s = None)
      then Inl (storage ForeignKeyViolation)
      else Inr (s\<lparr>deliveries := deliveries s @
        [\<lparr>dl_id = fresh, dl_agent = agent, dl_task = task, dl_kind = kind, dl_source = source,
          dl_payload = payload, dl_status = ''queued'', dl_attempt = None, dl_claimed_at = None,
          dl_by = None, dl_delivered_at = None, dl_created_at = now\<rparr>]\<rparr>))"

definition clamp :: "int \<Rightarrow> int \<Rightarrow> int \<Rightarrow> int" where
  "clamp lo hi n = max lo (min hi n)"

definition delivery_order :: "delivery list \<Rightarrow> delivery list" where
  "delivery_order = sort_key (\<lambda>d. (dl_created_at d, dl_id d))"

definition agent_delivery_inbox :: "id \<Rightarrow> int \<Rightarrow> db \<Rightarrow> delivery list res" where
  "agent_delivery_inbox agent limit s =
     bind_res (get_agent agent s) (\<lambda>_.
     Inr (take (nat (clamp 1 200 limit))
       (delivery_order (filter (\<lambda>d. dl_agent d = agent \<and> dl_status d = ''queued'') (deliveries s)))))"

definition get_agent_delivery :: "id \<Rightarrow> db \<Rightarrow> delivery res" where
  "get_agent_delivery i s = ok_or (NotFound (''agent delivery '' @ i)) (find_delivery i s)"

definition acknowledge_agent_delivery_tx :: "id \<Rightarrow> id \<Rightarrow> string \<Rightarrow> time \<Rightarrow> (db, unit) tx" where
  "acknowledge_agent_delivery_tx i agent by now s =
     bind_res (ok_or (NotFound (''agent delivery '' @ i)) (find_delivery i s)) (\<lambda>d.
     bind_res (ensure (dl_agent d = agent) (Conflict ''delivery belongs to another agent instance'')) (\<lambda>_.
     if dl_status d = ''delivered'' then Inr ((), s)
     else bind_res (ensure (dl_status d \<noteq> ''claimed'')
       (Conflict ''delivery is currently claimed by a local launch attempt'')) (\<lambda>_.
     Inr ((), append_event_tx ''agent_instance'' agent ''agent_delivery'' i ''agent_delivery.delivered''
       [(''delivered_by'', PStr by)] None now
       (update_deliveries (\<lambda>e. dl_id e = i \<and> dl_status e = ''queued'')
          (\<lambda>e. e\<lparr>dl_status := ''delivered'', dl_by := Some by, dl_delivered_at := Some now\<rparr>) s)))))"

definition acknowledge_agent_delivery :: "id \<Rightarrow> id \<Rightarrow> string \<Rightarrow> time \<Rightarrow> (db, delivery) operation" where
  "acknowledge_agent_delivery i agent by now =
     checked (get_agent agent)
       (\<lambda>_. commit_then (acknowledge_agent_delivery_tx i agent by now) (\<lambda>_. get_agent_delivery i))"

text \<open>The rows one launch attempt may take: queued, for its agent and its task.\<close>

definition claimable :: "launch_attempt \<Rightarrow> delivery \<Rightarrow> bool" where
  "claimable l d \<longleftrightarrow>
     dl_agent d = la_agent l \<and> dl_status d = ''queued'' \<and> dl_task d = Some (la_task l)
     \<and> (dl_kind d = ''launch_instruction'' \<or> dl_kind d = ''task_message'')"

definition claim_one :: "id \<Rightarrow> time \<Rightarrow> id \<Rightarrow> db \<Rightarrow> db" where
  "claim_one attempt now i =
     update_deliveries (\<lambda>d. dl_id d = i \<and> dl_status d = ''queued'')
       (\<lambda>d. d\<lparr>dl_status := ''claimed'', dl_attempt := Some attempt, dl_claimed_at := Some now\<rparr>)"

definition claim_agent_deliveries_tx :: "id \<Rightarrow> int \<Rightarrow> time \<Rightarrow> (db, id list) tx" where
  "claim_agent_deliveries_tx attempt limit now s =
     bind_res (ok_or (NotFound (''launch attempt '' @ attempt))
       (find (\<lambda>l. la_id l = attempt) (launch_attempts s))) (\<lambda>l.
     bind_res (ensure (la_status l = ''running'') (Conflict (''launch attempt is '' @ la_status l))) (\<lambda>_.
     let ids = map dl_id (take (nat (clamp 1 100 limit)) (delivery_order (filter (claimable l) (deliveries s))))
     in Inr (ids, fold (claim_one attempt now) ids s)))"

definition claim_agent_deliveries_for_launch :: "id \<Rightarrow> int \<Rightarrow> time \<Rightarrow> (db, delivery list) operation" where
  "claim_agent_deliveries_for_launch attempt limit now =
     commit_then (claim_agent_deliveries_tx attempt limit now) (\<lambda>ids s.
       if ids = [] then Inr []
       else Inr (delivery_order
         (filter (\<lambda>d. dl_attempt d = Some attempt \<and> dl_status d = ''claimed'') (deliveries s))))"

definition held_by :: "id \<Rightarrow> delivery \<Rightarrow> bool" where
  "held_by attempt d \<longleftrightarrow> dl_attempt d = Some attempt \<and> dl_status d = ''claimed''"

definition complete_claimed_agent_deliveries :: "id \<Rightarrow> string \<Rightarrow> time \<Rightarrow> (db, nat) operation" where
  "complete_claimed_agent_deliveries attempt by now =
     commit (\<lambda>s. Inr (rows_affected (held_by attempt) (deliveries s),
       update_deliveries (held_by attempt)
         (\<lambda>d. d\<lparr>dl_status := ''delivered'', dl_by := Some by, dl_delivered_at := Some now\<rparr>) s))"

definition release_claimed_agent_deliveries :: "id \<Rightarrow> (db, nat) operation" where
  "release_claimed_agent_deliveries attempt =
     commit (\<lambda>s. Inr (rows_affected (held_by attempt) (deliveries s),
       update_deliveries (held_by attempt)
         (\<lambda>d. d\<lparr>dl_status := ''queued'', dl_attempt := None, dl_claimed_at := None\<rparr>) s))"

definition instruction_of :: "id \<Rightarrow> id \<Rightarrow> db \<Rightarrow> delivery \<Rightarrow> bool" where
  "instruction_of task agent s d \<longleftrightarrow>
     dl_agent d = agent \<and> dl_task d = Some task \<and> dl_kind d = ''launch_instruction'' \<and> dl_status d = ''queued''
     \<and> list_ex (\<lambda>i. li_id i = dl_source d
         \<and> list_ex (\<lambda>l. la_id l = li_attempt i \<and> la_task l = task \<and> la_agent l = agent) (launch_attempts s))
       (instructions s)"

definition acknowledge_instruction_deliveries_for_task :: "id \<Rightarrow> id \<Rightarrow> string \<Rightarrow> time \<Rightarrow> (db, nat) operation" where
  "acknowledge_instruction_deliveries_for_task task agent by now =
     commit (\<lambda>s. Inr (rows_affected (instruction_of task agent s) (deliveries s),
       update_deliveries (instruction_of task agent s)
         (\<lambda>d. d\<lparr>dl_status := ''delivered'', dl_by := Some by, dl_delivered_at := Some now\<rparr>) s))"

definition acknowledge_instruction :: "id \<Rightarrow> string \<Rightarrow> time \<Rightarrow> id \<Rightarrow> db \<Rightarrow> db" where
  "acknowledge_instruction agent by now i =
     update_deliveries (\<lambda>d. dl_agent d = agent \<and> dl_kind d = ''launch_instruction'' \<and> dl_source d = i
         \<and> dl_status d = ''queued'')
       (\<lambda>d. d\<lparr>dl_status := ''delivered'', dl_by := Some by, dl_delivered_at := Some now\<rparr>)"

definition acknowledge_instruction_deliveries_for_ids ::
  "id list \<Rightarrow> id \<Rightarrow> string \<Rightarrow> time \<Rightarrow> (db, unit) operation" where
  "acknowledge_instruction_deliveries_for_ids ids agent by now =
     commit (\<lambda>s. Inr ((), fold (acknowledge_instruction agent by now) ids s))"

definition orphaned_claim :: "db \<Rightarrow> delivery \<Rightarrow> bool" where
  "orphaned_claim s d \<longleftrightarrow>
     dl_status d = ''claimed''
     \<and> (case dl_attempt d of None \<Rightarrow> True
        | Some i \<Rightarrow> \<not> list_ex (\<lambda>l. la_id l = i \<and> (la_status l = ''starting'' \<or> la_status l = ''running''))
            (launch_attempts s))"

definition recover_agent_delivery_claims :: "(db, nat) operation" where
  "recover_agent_delivery_claims =
     commit (\<lambda>s. Inr (rows_affected (orphaned_claim s) (deliveries s),
       update_deliveries (orphaned_claim s)
         (\<lambda>d. d\<lparr>dl_status := ''queued'', dl_attempt := None, dl_claimed_at := None\<rparr>) s))"

definition delivery_resume_candidates :: "time \<Rightarrow> db \<Rightarrow> id list" where
  "delivery_resume_candidates now s =
     take 32 (map r_id (sort_key (\<lambda>r. (r_started_at r, r_id r))
       (filter (\<lambda>r. r_status r = ''interrupted''
          \<and> list_ex (\<lambda>a. a_id a = r_assignment r \<and> a_status a = ''active'' \<and> now < a_expires_at a) (assignments s)
          \<and> list_ex (\<lambda>b. rb_run b = r_id r
               \<and> (case rb_restart_deadline b of None \<Rightarrow> False | Some t \<Rightarrow> now < t)) (runtime_bindings s)
          \<and> list_ex (\<lambda>d. dl_agent d = r_agent r \<and> dl_status d = ''queued'' \<and> dl_task d = Some (r_task r)) (deliveries s)
          \<and> list_ex (\<lambda>l. la_run l = Some (r_id r)
               \<and> list_ex (\<lambda>p. lp_id p = la_profile l \<and> (lp_adapter p = ''codex_cli'' \<or> lp_adapter p = ''codebuddy_cli''))
                   (launch_profiles s)) (launch_attempts s)
          \<and> \<not> list_ex (\<lambda>l. la_assignment l = r_assignment r
               \<and> la_status l \<in> {''queued'', ''starting'', ''running''}) (launch_attempts s)) (runs s))))"

subsection \<open>The life cycle of a delivery\<close>

text \<open>Everything but the delivery state of a row.\<close>

definition delivery_subject :: "delivery \<Rightarrow> id \<times> id \<times> id option \<times> string \<times> id \<times> payload \<times> time" where
  "delivery_subject d =
     (dl_id d, dl_agent d, dl_task d, dl_kind d, dl_source d, dl_payload d, dl_created_at d)"

definition delivered :: "delivery \<Rightarrow> bool" where
  "delivered d \<longleftrightarrow> dl_status d = ''delivered''"

definition delivery_moves :: "delivery \<Rightarrow> delivery \<Rightarrow> bool" where
  "delivery_moves d d' \<longleftrightarrow> delivery_subject d' = delivery_subject d \<and> (delivered d \<longrightarrow> d' = d)"

interpretation delivery_cycle: row_lifecycle dl_id delivery_moves delivered
  by unfold_locales (auto simp: delivery_moves_def delivery_subject_def)

lemma delivery_advances_update:
  assumes "\<And>d. P d \<Longrightarrow> delivery_moves d (f d)"
  shows "advances delivery_moves (deliveries s) (deliveries (update_deliveries P f s))"
  using delivery_cycle.advances_update_where [of P f] assms by (simp add: update_deliveries_def)

lemma delivery_events [simp]:
  "deliveries (append_event_tx at ai et ei ty pl co now s) = deliveries s"
  by (simp add: append_event_tx_def)

lemma delivery_advances_fold:
  assumes "\<And>x s. advances delivery_moves (deliveries s) (deliveries (step x s))"
  shows "advances delivery_moves (deliveries s) (deliveries (fold step xs s))"
proof (induction xs arbitrary: s)
  case Nil
  then show ?case by (simp add: delivery_cycle.advances_refl)
next
  case (Cons x xs)
  from delivery_cycle.advances_trans [OF assms Cons.IH] show ?case by simp
qed

lemmas delivery_row_defs = delivery_moves_def delivery_subject_def delivered_def

lemma advances_enqueue:
  "enqueue_agent_delivery_tx agent task kind source payload fresh now s = Inr s' \<Longrightarrow>
   advances delivery_moves (deliveries s) (deliveries s')"
  by (auto simp: enqueue_agent_delivery_tx_def intro: delivery_cycle.advances_append split: if_splits)

lemma advances_acknowledge:
  "advances delivery_moves (deliveries s) (deliveries (snd (acknowledge_agent_delivery i agent by now s)))"
  unfolding acknowledge_agent_delivery_def
proof (rule checked_invariant)
  show "advances delivery_moves (deliveries s) (deliveries s)" by (rule delivery_cycle.advances_refl)
  fix x assume "get_agent agent s = Inr x"
  show "advances delivery_moves (deliveries s) (deliveries (snd (commit_then
      (acknowledge_agent_delivery_tx i agent by now) (\<lambda>_. get_agent_delivery i) s)))"
  proof (rule commit_then_invariant)
    fix y s' assume "acknowledge_agent_delivery_tx i agent by now s = Inr (y, s')"
    then show "advances delivery_moves (deliveries s) (deliveries s')"
      by (auto simp: acknowledge_agent_delivery_tx_def res_simps delivery_row_defs
          intro!: delivery_cycle.advances_refl delivery_advances_update split: if_splits)
  qed (rule delivery_cycle.advances_refl)
qed

lemma advances_claim:
  "advances delivery_moves (deliveries s) (deliveries (snd (claim_agent_deliveries_for_launch attempt limit now s)))"
  unfolding claim_agent_deliveries_for_launch_def
proof (rule commit_then_invariant)
  fix ids s' assume "claim_agent_deliveries_tx attempt limit now s = Inr (ids, s')"
  then have s': "s' = fold (claim_one attempt now) ids s"
    by (auto simp: claim_agent_deliveries_tx_def res_simps Let_def)
  have "advances delivery_moves (deliveries t) (deliveries (claim_one attempt now i t))" for i t
    unfolding claim_one_def by (rule delivery_advances_update) (auto simp: delivery_row_defs)
  then show "advances delivery_moves (deliveries s) (deliveries s')"
    unfolding s' by (rule delivery_advances_fold)
qed (rule delivery_cycle.advances_refl)

lemma advances_bulk:
  "advances delivery_moves (deliveries s) (deliveries (snd (complete_claimed_agent_deliveries attempt by now s)))"
  "advances delivery_moves (deliveries s) (deliveries (snd (release_claimed_agent_deliveries attempt s)))"
  "advances delivery_moves (deliveries s) (deliveries (snd (acknowledge_instruction_deliveries_for_task task agent by now s)))"
  "advances delivery_moves (deliveries s) (deliveries (snd (recover_agent_delivery_claims s)))"
  by (auto simp: complete_claimed_agent_deliveries_def release_claimed_agent_deliveries_def
      acknowledge_instruction_deliveries_for_task_def recover_agent_delivery_claims_def
      commit_def commit_then_def held_by_def instruction_of_def orphaned_claim_def delivery_row_defs
      intro!: delivery_advances_update)

lemma advances_acknowledge_ids:
  "advances delivery_moves (deliveries s) (deliveries (snd (acknowledge_instruction_deliveries_for_ids ids agent by now s)))"
proof -
  have "advances delivery_moves (deliveries t) (deliveries (acknowledge_instruction agent by now i t))" for i t
    unfolding acknowledge_instruction_def by (rule delivery_advances_update) (auto simp: delivery_row_defs)
  then have "advances delivery_moves (deliveries s) (deliveries (fold (acknowledge_instruction agent by now) ids s))"
    by (rule delivery_advances_fold)
  then show ?thesis
    by (simp add: acknowledge_instruction_deliveries_for_ids_def commit_def commit_then_def)
qed

subsection \<open>What a claim takes\<close>

lemma claim_one_row:
  "deliveries (claim_one attempt now i s) =
     map (\<lambda>d. if dl_id d = i \<and> dl_status d = ''queued''
       then d\<lparr>dl_status := ''claimed'', dl_attempt := Some attempt, dl_claimed_at := Some now\<rparr> else d) (deliveries s)"
  by (simp add: claim_one_def update_deliveries_def update_where_def)

lemma fold_claim_one_rows:
  "deliveries (fold (claim_one attempt now) ids s) =
     map (\<lambda>d. if dl_id d \<in> set ids \<and> dl_status d = ''queued''
       then d\<lparr>dl_status := ''claimed'', dl_attempt := Some attempt, dl_claimed_at := Some now\<rparr> else d) (deliveries s)"
  by (induction ids arbitrary: s) (auto simp: claim_one_row)

text \<open>
  A claim takes only queued deliveries of the attempt's agent and task, at most 100 of them,
  and changes no other delivery.
\<close>

theorem claim_takes_only_its_own:
  assumes "claim_agent_deliveries_tx attempt limit now s = Inr (ids, s')"
    and "distinct (map dl_id (deliveries s))"
  shows "length ids \<le> 100 \<and> (\<exists>l. find (\<lambda>l. la_id l = attempt) (launch_attempts s) = Some l \<and> la_status l = ''running''
    \<and> deliveries s' = map (\<lambda>d. if dl_id d \<in> set ids
        then d\<lparr>dl_status := ''claimed'', dl_attempt := Some attempt, dl_claimed_at := Some now\<rparr> else d) (deliveries s)
    \<and> (\<forall>d \<in> set (deliveries s). dl_id d \<in> set ids \<longrightarrow> claimable l d))"
proof -
  let ?ids = "\<lambda>l. map dl_id (take (nat (clamp 1 100 limit)) (delivery_order (filter (claimable l) (deliveries s))))"
  from assms(1) obtain l where l: "find (\<lambda>l. la_id l = attempt) (launch_attempts s) = Some l" "la_status l = ''running''"
    and ids: "ids = ?ids l" and s': "s' = fold (claim_one attempt now) ids s"
    by (auto simp: claim_agent_deliveries_tx_def res_simps Let_def)
  have from_claimable: "claimable l d" if d: "d \<in> set (deliveries s)" "dl_id d \<in> set ids" for d
  proof -
    from d(2) obtain e where "e \<in> set (deliveries s)" "claimable l e" "dl_id e = dl_id d"
      unfolding ids by (auto simp: delivery_order_def dest!: in_set_takeD)
    with d(1) assms(2) show ?thesis by (auto dest: distinct_map_inj)
  qed
  have "length ids \<le> 100" by (simp add: ids clamp_def)
  moreover have "deliveries s' = map (\<lambda>d. if dl_id d \<in> set ids
        then d\<lparr>dl_status := ''claimed'', dl_attempt := Some attempt, dl_claimed_at := Some now\<rparr> else d) (deliveries s)"
    unfolding s' fold_claim_one_rows using from_claimable by (auto simp: claimable_def)
  ultimately show ?thesis using l from_claimable by blast
qed

theorem claim_takes_only_its_own_witness:
  "let l = \<lparr>la_id = ''l'', la_assignment = ''x'', la_task = ''t'', la_agent = ''g'', la_profile = ''p'', la_run = None,
       la_job = None, la_resume_from = None, la_restart_run = None, la_status = ''running'', la_cwd = None,
       la_pid = None, la_exit_code = None, la_stdout = None, la_stderr = None, la_error = None, la_created_at = 0,
       la_started_at = None, la_ended_at = None\<rparr>;
     d = (\<lambda>i agent. \<lparr>dl_id = i, dl_agent = agent, dl_task = Some ''t'', dl_kind = ''task_message'', dl_source = i,
       dl_payload = [], dl_status = ''queued'', dl_attempt = None, dl_claimed_at = None, dl_by = None,
       dl_delivered_at = None, dl_created_at = 0\<rparr>);
     s = empty_db\<lparr>launch_attempts := [l], deliveries := [d ''1'' ''g'', d ''2'' ''h'']\<rparr>
   in \<exists>s'. claim_agent_deliveries_tx ''l'' 9 0 s = Inr ([''1''], s')
        \<and> deliveries s' = [(d ''1'' ''g'')\<lparr>dl_status := ''claimed'', dl_attempt := Some ''l'', dl_claimed_at := Some 0\<rparr>,
              d ''2'' ''h'']"
  (is "let l = ?l; d = ?d; s = _ in _")
proof -
  let ?s = "empty_db\<lparr>launch_attempts := [?l], deliveries := [?d ''1'' ''g'', ?d ''2'' ''h'']\<rparr>"
  obtain s' where tx: "claim_agent_deliveries_tx ''l'' 9 0 ?s = Inr ([''1''], s')"
    by (simp add: claim_agent_deliveries_tx_def clamp_def delivery_order_def claimable_def empty_db_def)
  have "distinct (map dl_id (deliveries ?s))" by simp
  from claim_takes_only_its_own [OF tx this] tx show ?thesis by (simp add: Let_def)
qed

end
