(* ===== verification/Tasks.thy ===== *)
theory Tasks
  imports Leases Delivery
begin

text \<open>
  Projects, tasks and their context revisions (\<open>morrows-store/src/lib.rs\<close>): creation, the
  project a task belongs to, withdrawal, cancellation and deletion, and the versioned context
  of a task with its recursive merge of constraints.
\<close>

subsection \<open>Projects\<close>

definition get_project :: "external \<Rightarrow> id \<Rightarrow> db \<Rightarrow> (project_row \<times> string option) res" where
  "get_project x i s =
     bind_res (ok_or (NotFound (''project '' @ i)) (find (\<lambda>p. pj_id p = i) (projects s))) (\<lambda>p.
     bind_res (current_head x i s) (\<lambda>head. Inr (p, head)))"

definition create_project_tx :: "string \<Rightarrow> string \<Rightarrow> id \<Rightarrow> time \<Rightarrow> (db, unit) tx" where
  "create_project_tx name description fresh now s =
     bind_res (ensure (\<not> list_ex (\<lambda>p. pj_id p = fresh) (projects s)) (storage PrimaryKeyViolation)) (\<lambda>_.
     Inr ((), s\<lparr>projects := projects s @
       [\<lparr>pj_id = fresh, pj_name = trim name, pj_description = description, pj_status = ''active'',
         pj_created_at = now, pj_updated_at = now\<rparr>]\<rparr>))"

definition create_project ::
  "external \<Rightarrow> string \<Rightarrow> string \<Rightarrow> id \<Rightarrow> time \<Rightarrow> (db, project_row \<times> string option) operation" where
  "create_project x name description fresh now =
     checked (\<lambda>s.
       bind_res (ensure (\<not> blank name) (InvalidInput ''project name cannot be empty'')) (\<lambda>_.
       ensure (chars_count (trim name) \<le> 120) (InvalidInput ''project name cannot exceed 120 characters'')))
       (\<lambda>_. commit_then (create_project_tx name description fresh now) (\<lambda>_. get_project x fresh))"

definition project_exists :: "id \<Rightarrow> db \<Rightarrow> bool" where
  "project_exists i s \<longleftrightarrow> list_ex (\<lambda>p. pj_id p = i) (projects s)"

definition ensure_project :: "id option \<Rightarrow> db \<Rightarrow> unit res" where
  "ensure_project project s =
     (case project of None \<Rightarrow> Inr ()
      | Some p \<Rightarrow> ensure (project_exists p s) (NotFound (''project '' @ p)))"

definition set_project :: "id \<Rightarrow> id option \<Rightarrow> time \<Rightarrow> db \<Rightarrow> db" where
  "set_project task project now =
     update_tasks (\<lambda>t. t_id t = task) (\<lambda>t. t\<lparr>t_project := project, t_updated_at := now\<rparr>)"

definition set_task_project_tx :: "id \<Rightarrow> id option \<Rightarrow> time \<Rightarrow> (db, unit) tx" where
  "set_task_project_tx task project now s =
     bind_res (ok_or (NotFound (''task '' @ task)) (find_task task s)) (\<lambda>t.
     bind_res (ensure_project project s) (\<lambda>_.
     Inr ((), append_event_tx ''operator'' ''control-plane'' ''task'' task ''task.project_changed''
       [(''previous_project_id'', p_opt (t_project t)), (''project_id'', p_opt project)] None now
       (set_project task project now s))))"

definition set_task_project :: "id \<Rightarrow> id option \<Rightarrow> time \<Rightarrow> (db, task) operation" where
  "set_task_project task project now =
     commit_then (set_task_project_tx task project now) (\<lambda>_. get_task task)"

text \<open>
  A publisher moves its task: every executor that has not started to implement reads and
  interviews again.
\<close>

definition restart_reviews :: "id \<Rightarrow> db \<Rightarrow> db" where
  "restart_reviews task =
     update_assignments (\<lambda>a. a_task a = task \<and> a_status a = ''active'' \<and> a_role a = ''executor''
         \<and> a_phase a \<noteq> implementing) (\<lambda>a. a\<lparr>a_phase := context_review\<rparr>)"

definition forget_intakes :: "id \<Rightarrow> time \<Rightarrow> db \<Rightarrow> db" where
  "forget_intakes task now s =
     s\<lparr>intakes := update_where (\<lambda>n. in_task n = task
         \<and> list_ex (\<lambda>a. a_id a = in_assignment n \<and> a_task a = task \<and> a_status a = ''active''
             \<and> a_role a = ''executor'' \<and> a_phase a = context_review) (assignments s))
       (\<lambda>n. n\<lparr>in_project := None, in_memory_head := None, in_memory_next_offset := None,
             in_memory_complete := False, in_memory_read_at := None, in_package := None,
             in_context := None, in_package_read_at := None, in_understanding := [],
             in_constraints := JObj [], in_plan := JArr [], in_questions := [],
             in_unresolved := [], in_interview_status := ''not_started'',
             in_conversation_state := ''not_started'', in_human_response := None,
             in_approved_by := None, in_approved_at := None, in_interview_started_at := None,
             in_final_summary := None, in_confirmation := None, in_converged_at := None,
             in_updated_at := now\<rparr>) (intakes s)\<rparr>"

definition published_project_memory :: "id \<Rightarrow> db \<Rightarrow> bool" where
  "published_project_memory task s \<longleftrightarrow> list_ex (\<lambda>m. me_task m = Some task \<and> me_scope m = ''project'') (memories s)"

definition set_task_project_as_agent_tx :: "id \<Rightarrow> id option \<Rightarrow> id \<Rightarrow> time \<Rightarrow> (db, task option) tx" where
  "set_task_project_as_agent_tx task project agent now s =
     bind_res (task_writer_conn task agent s) (\<lambda>k.
     bind_res (ensure (t_owner (k_row k) = ''agent:'' @ agent)
       (Conflict ''only the agent that published the task may change its project'')) (\<lambda>_.
     if t_project (k_row k) = project then Inr (Some k, s)
     else
       bind_res (ensure (\<not> list_ex (\<lambda>a. a_task a = task \<and> a_status a = ''active''
            \<and> a_role a = ''executor'' \<and> a_phase a = implementing) (assignments s))
         (Conflict ''task project cannot change while an executor is implementing it'')) (\<lambda>_.
       bind_res (ensure (\<not> published_project_memory task s)
         (Conflict ''task project cannot change after project memory has been published from the task'')) (\<lambda>_.
       bind_res (ensure_project project s) (\<lambda>_.
       Inr (None, append_event_tx ''agent_instance'' agent ''task'' task ''task.project_changed''
         [(''previous_project_id'', p_opt (t_project (k_row k))), (''project_id'', p_opt project),
          (''reason'', PStr ''publisher_reassignment'')] None now
         (forget_intakes task now (restart_reviews task (set_project task project now s)))))))))"

definition set_task_project_as_agent :: "id \<Rightarrow> id option \<Rightarrow> id \<Rightarrow> time \<Rightarrow> (db, task) operation" where
  "set_task_project_as_agent task project agent now =
     commit_then (set_task_project_as_agent_tx task project agent now)
       (\<lambda>unchanged s. case unchanged of Some k \<Rightarrow> Inr k | None \<Rightarrow> get_task task s)"

text \<open>
  The operator's repair of a task without a project; \<open>None\<close> stands for the early return of a
  task that is bound to the same project already.
\<close>

definition bind_unbound_task_project_tx :: "id \<Rightarrow> id \<Rightarrow> time \<Rightarrow> (db, unit) tx" where
  "bind_unbound_task_project_tx task project now s =
     bind_res (ok_or (NotFound (''task '' @ task)) (find_task task s)) (\<lambda>t.
     if t_project t = Some project then Inr ((), s)
     else
       bind_res (ensure (t_project t = None)
         (Conflict (''task '' @ task @ '' is already bound to project ''
            @ (case t_project t of None \<Rightarrow> [] | Some p \<Rightarrow> p)
            @ ''; repair binding refuses reassignment''))) (\<lambda>_.
       bind_res (ensure (project_exists project s) (NotFound (''project '' @ project))) (\<lambda>_.
       Inr ((), append_event_tx ''operator'' ''repair-cli'' ''task'' task ''task.project_changed''
         [(''previous_project_id'', PNull), (''project_id'', PStr project),
          (''reason'', PStr ''legacy_unbound_repair'')] None now
         (update_tasks (\<lambda>t. t_id t = task \<and> t_project t = None)
            (\<lambda>t. t\<lparr>t_project := Some project, t_updated_at := now\<rparr>) s)))))"

definition bind_unbound_task_project :: "id \<Rightarrow> id \<Rightarrow> time \<Rightarrow> (db, task) operation" where
  "bind_unbound_task_project task project now =
     commit_then (bind_unbound_task_project_tx task project now) (\<lambda>_. get_task task)"

subsection \<open>The end of a task\<close>

text \<open>
  \<open>DELETE FROM tasks\<close>: rows of tables that reference the task without a cascade refuse it, and so
  does the trigger \<open>dispatch_decision_no_delete\<close> on the cascade to the dispatch decisions; the rows
  of the other tables go with it. Both callers discard the kind of the error.
\<close>

definition task_referenced :: "id \<Rightarrow> db \<Rightarrow> bool" where
  "task_referenced i s \<longleftrightarrow>
     list_ex (\<lambda>l. la_task l = i) (launch_attempts s) \<or> list_ex (\<lambda>d. dl_task d = Some i) (deliveries s)
     \<or> list_ex (\<lambda>q. ar_task q = i) (requests s) \<or> list_ex (\<lambda>c. cp_task c = i) (continuations s)
     \<or> list_ex (\<lambda>m. cm_task m = i) (chain_members s) \<or> list_ex (\<lambda>m. gm_task m = i) (group_members s)
     \<or> list_ex (\<lambda>k. tk_task k = i) (takeovers s)
     \<or> list_ex (\<lambda>d. d_task d = i \<or> d_on d = i) (dependencies s)
     \<or> list_ex (\<lambda>l. rl_source l = i \<or> rl_target l = i) (relationships s)
     \<or> list_ex (\<lambda>f. af_task f = i) (artifacts s) \<or> list_ex (\<lambda>d. dn_task d = i) (decisions s)
     \<or> list_ex (\<lambda>h. th_task h = i) (threads s) \<or> list_ex (\<lambda>h. ho_task h = i) (handoffs s)
     \<or> list_ex (\<lambda>m. ml_task m = i) (milestones s) \<or> list_ex (\<lambda>d. dd_task d = i) (dispatch_decisions s)
     \<or> list_ex (\<lambda>r. r_task r = i \<and> (managed_run s r \<or> list_ex (\<lambda>w. jw_run w = r_id r) (job_waits s))) (runs s)"

definition delete_task_row :: "id \<Rightarrow> db \<Rightarrow> sql_error + db" where
  "delete_task_row i s =
     (if task_referenced i s then Inl ForeignKeyViolation
      else Inr (s\<lparr>tasks := filter (\<lambda>t. t_id t \<noteq> i) (tasks s),
        assignments := filter (\<lambda>a. a_task a \<noteq> i) (assignments s),
        runs := filter (\<lambda>r. r_task r \<noteq> i) (runs s),
        run_contexts := filter (\<lambda>c. \<not> list_ex (\<lambda>r. r_id r = rc_run c \<and> r_task r = i) (runs s)) (run_contexts s),
        contexts := filter (\<lambda>c. cx_task c \<noteq> i) (contexts s),
        intakes := filter (\<lambda>n. in_task n \<noteq> i) (intakes s),
        revisions := filter (\<lambda>v. tr_task v \<noteq> i) (revisions s),
        policies := filter (\<lambda>p. dp_task p \<noteq> i) (policies s),
        memories := filter (\<lambda>m. me_task m \<noteq> Some i) (memories s),
        packages := filter (\<lambda>p. pk_task p \<noteq> i) (packages s),
        receipts := filter (\<lambda>v. vr_task v \<noteq> i) (receipts s),
        completion_records := filter (\<lambda>c. co_task c \<noteq> i) (completion_records s)\<rparr>))"

definition forget_task_events :: "id \<Rightarrow> db \<Rightarrow> db" where
  "forget_task_events i s =
     s\<lparr>events := filter (\<lambda>e. \<not> (ev_entity_type e = ''task'' \<and> ev_entity_id e = i)) (events s)\<rparr>"

definition deleted_event :: "string \<Rightarrow> string \<Rightarrow> task \<Rightarrow> time \<Rightarrow> db \<Rightarrow> db" where
  "deleted_event actor_type actor k now =
     append_event_tx actor_type actor ''task'' (t_id (k_row k)) ''task.deleted''
       [(''title'', PStr (t_title (k_row k))), (''project_id'', p_opt (t_project (k_row k)))] None now"

definition withdraw_task_as_agent_tx :: "id \<Rightarrow> id \<Rightarrow> bool \<Rightarrow> time \<Rightarrow> (db, unit) tx" where
  "withdraw_task_as_agent_tx task agent delete now s =
     bind_res (task_writer_conn task agent s) (\<lambda>k.
     bind_res (ensure (t_owner (k_row k) = ''agent:'' @ agent)
       (Conflict ''only the agent that published the task may withdraw or delete it'')) (\<lambda>_.
     if delete then
       bind_res (ensure (\<not> (list_ex (\<lambda>a. a_task a = task) (assignments s)
            \<or> list_ex (\<lambda>h. th_task h = task) (threads s) \<or> t_context (k_row k) \<noteq> None))
         (Conflict ''hard delete is only allowed for an unstarted published task with no assignment, message thread, or context history; use withdraw instead'')) (\<lambda>_.
       bind_res (case delete_task_row task s of
           Inl e \<Rightarrow> Inl (Conflict ''hard delete refused because the task has dependent records; use withdraw instead'')
         | Inr s1 \<Rightarrow> Inr s1) (\<lambda>s1.
       Inr ((), deleted_event ''agent_instance'' agent k now (forget_task_events task s1))))
     else
       bind_res (cancel_task_tx k ''agent_instance'' agent ''task.withdrawn'' ''task_withdrawn'' now s) (\<lambda>s1.
       Inr ((), s1))))"

definition withdraw_task_as_agent :: "id \<Rightarrow> id \<Rightarrow> bool \<Rightarrow> time \<Rightarrow> (db, task option) operation" where
  "withdraw_task_as_agent task agent delete now =
     commit_then (withdraw_task_as_agent_tx task agent delete now)
       (\<lambda>_ s. if delete then Inr None else bind_res (get_task task s) (\<lambda>k. Inr (Some k)))"

definition cancel_task_body :: "id \<Rightarrow> time \<Rightarrow> (db, unit) tx" where
  "cancel_task_body task now s =
     bind_res (get_task task s) (\<lambda>k.
     bind_res (cancel_task_tx k ''human'' ''webui'' ''task.cancelled'' ''task_cancelled'' now s) (\<lambda>s1.
     Inr ((), s1)))"

definition cancel_task :: "id \<Rightarrow> time \<Rightarrow> (db, task) operation" where
  "cancel_task task now = commit_then (cancel_task_body task now) (\<lambda>_. get_task task)"

definition has_history :: "id \<Rightarrow> db \<Rightarrow> bool" where
  "has_history i s \<longleftrightarrow>
     list_ex (\<lambda>a. a_task a = i) (assignments s) \<or> list_ex (\<lambda>c. cx_task c = i) (contexts s)
     \<or> list_ex (\<lambda>q. ar_task q = i) (requests s) \<or> list_ex (\<lambda>f. af_task f = i) (artifacts s)
     \<or> list_ex (\<lambda>d. dn_task d = i) (decisions s) \<or> list_ex (\<lambda>h. th_task h = i) (threads s)
     \<or> list_ex (\<lambda>h. ho_task h = i) (handoffs s)
     \<or> list_ex (\<lambda>d. d_task d = i \<or> d_on d = i) (dependencies s)
     \<or> list_ex (\<lambda>l. rl_source l = i \<or> rl_target l = i) (relationships s)
     \<or> list_ex (\<lambda>m. ml_task m = i) (milestones s)"

definition delete_task_tx :: "id \<Rightarrow> time \<Rightarrow> (db, unit) tx" where
  "delete_task_tx task now s =
     bind_res (get_task task s) (\<lambda>k.
     bind_res (ensure (\<not> (has_history task s \<or> t_context (k_row k) \<noteq> None))
       (Conflict ''task has execution, collaboration, context, or relationship history and cannot be hard-deleted; cancel/withdraw it instead'')) (\<lambda>_.
     bind_res (case delete_task_row task s of
         Inl e \<Rightarrow> Inl (Conflict ''task has dependent records and cannot be hard-deleted; cancel/withdraw it instead'')
       | Inr s1 \<Rightarrow> Inr s1) (\<lambda>s1.
     Inr ((), deleted_event ''human'' ''webui'' k now (forget_task_events task s1)))))"

definition delete_task :: "id \<Rightarrow> time \<Rightarrow> (db, unit) operation" where
  "delete_task task now = commit (delete_task_tx task now)"

definition set_task_assignment_mode :: "id \<Rightarrow> assignment_mode \<Rightarrow> time \<Rightarrow> (db, task) operation" where
  "set_task_assignment_mode task mode now =
     checked (get_task task) (\<lambda>_. commit_then
       (\<lambda>s. Inr ((), append_event_tx ''operator'' ''control-plane'' ''task'' task ''task.assignment_mode_changed''
          [(''assignment_mode'', PStr (assignment_mode_display mode))] None now
          (update_tasks (\<lambda>t. t_id t = task)
             (\<lambda>t. t\<lparr>t_mode := assignment_mode_display mode, t_updated_at := now\<rparr>) s)))
       (\<lambda>_. get_task task))"

subsection \<open>The specification of a task\<close>

text \<open>\<open>spec_conn\<close> and \<open>baseline_tx\<close> (\<open>revision.rs\<close>).\<close>

record spec_view =
  sv_spec :: task_spec
  sv_version :: int
  sv_state :: task_state
  sv_context :: "id option"
  sv_owner :: string

definition spec_conn :: "id \<Rightarrow> db \<Rightarrow> spec_view res" where
  "spec_conn task s =
     bind_res (get_task task s) (\<lambda>k.
     let t = k_row k;
         cx = Option.bind (t_context t) (\<lambda>i. find (\<lambda>c. cx_id c = i) (contexts s)) in
     Inr \<lparr>sv_spec = \<lparr>ts_title = t_title t, ts_description = t_description t,
            ts_goal = (case cx of None \<Rightarrow> [] | Some c \<Rightarrow> cx_goal c),
            ts_scope = (case cx of None \<Rightarrow> []
              | Some c \<Rightarrow> (case text_at (cx_constraints c) ''task_scope'' of None \<Rightarrow> [] | Some v \<Rightarrow> v)),
            ts_criteria = t_criteria t\<rparr>,
          sv_version = t_spec_version t, sv_state = k_state k, sv_context = t_context t,
          sv_owner = t_owner t\<rparr>)"

text \<open>\<open>UNIQUE(task_id, version)\<close> and the partial unique index on pending revisions.\<close>

definition insert_revision :: "task_revision \<Rightarrow> db \<Rightarrow> sql_error + db" where
  "insert_revision v s =
     (if list_ex (\<lambda>w. tr_id w = tr_id v) (revisions s) then Inl PrimaryKeyViolation
      else if list_ex (\<lambda>w. tr_task w = tr_task v \<and> tr_version w = tr_version v) (revisions s)
        \<or> tr_status v = ''pending_ack''
           \<and> list_ex (\<lambda>w. tr_task w = tr_task v \<and> tr_status w = ''pending_ack'') (revisions s)
      then Inl UniqueViolation
      else if find_task (tr_task v) s = None then Inl ForeignKeyViolation
      else Inr (s\<lparr>revisions := revisions s @ [v]\<rparr>))"

definition baseline_tx :: "id \<Rightarrow> id \<Rightarrow> time \<Rightarrow> db \<Rightarrow> db res" where
  "baseline_tx task fresh now s =
     (if list_ex (\<lambda>v. tr_task v = task) (revisions s) then Inr s
      else bind_res (spec_conn task s) (\<lambda>v.
        exec (insert_revision
          \<lparr>tr_id = fresh, tr_task = task, tr_version = sv_version v, tr_base_version = 0,
           tr_status = ''applied'', tr_author = sv_owner v, tr_reason = ''Initial task specification'',
           tr_before = sv_spec v, tr_after = sv_spec v, tr_context_before = sv_context v,
           tr_context_after = sv_context v, tr_ack_run = None, tr_ack_agent = None,
           tr_ack_impact = None, tr_ack_plan = None, tr_created_at = now, tr_resolved_at = Some now\<rparr> s)))"

record create_task_input =
  ct_criteria :: "acceptance_criterion list"
  ct_project :: "id option"
  ct_title :: string
  ct_description :: string
  ct_owner :: string
  ct_state :: task_state
  ct_priority :: int

definition create_task_tx :: "create_task_input \<Rightarrow> id \<Rightarrow> id \<Rightarrow> time \<Rightarrow> (db, unit) tx" where
  "create_task_tx input fresh fresh_rev now s =
     bind_res (ensure_project (ct_project input) s) (\<lambda>_.
     bind_res (ensure (find_task fresh s = None) (storage PrimaryKeyViolation)) (\<lambda>_.
     let s1 = s\<lparr>tasks := tasks s @
           [\<lparr>t_id = fresh, t_project = ct_project input, t_title = trim (ct_title input),
             t_description = ct_description input, t_owner = ct_owner input,
             t_state = task_state_display (ct_state input), t_mode = ''open'',
             t_priority = ct_priority input, t_context = None, t_criteria = ct_criteria input,
             t_acceptance_version = 1, t_spec_version = 1, t_created_at = now, t_updated_at = now\<rparr>]\<rparr> in
     bind_res (baseline_tx fresh fresh_rev now s1) (\<lambda>s2.
     let (actor_type, actor) =
           (if starts_with ''agent:'' (ct_owner input)
            then (''agent_instance'', drop 6 (ct_owner input)) else (''human'', ct_owner input)) in
     Inr ((), append_event_tx actor_type actor ''task'' fresh ''task.created''
       [(''state'', PStr (task_state_display (ct_state input))), (''assignment_mode'', PStr ''open''),
        (''title'', PStr (ct_title input)), (''project_id'', p_opt (ct_project input))] None now s2))))"

definition create_task :: "create_task_input \<Rightarrow> id \<Rightarrow> id \<Rightarrow> time \<Rightarrow> (db, task) operation" where
  "create_task input fresh fresh_rev now =
     checked (\<lambda>s. bind_res (validate_acceptance (ct_criteria input)) (\<lambda>_.
         ensure (\<not> blank (ct_title input)) (InvalidInput ''task title cannot be empty'')))
       (\<lambda>_. commit_then (create_task_tx input fresh fresh_rev now) (\<lambda>_. get_task fresh))"

end
