(* ===== verification/Contexts.thy ===== *)
theory Contexts
  imports Tasks
begin

text \<open>
  The versioned context of a task (\<open>write_context_revision\<close> and its callers in
  \<open>morrows-store/src/lib.rs\<close>, \<open>reconcile_legacy_conn\<close> in \<open>acceptance.rs\<close>): full replacement by
  the control plane, partial updates merged into the latest revision, the chain of parents.
\<close>

definition get_context_revision :: "id \<Rightarrow> db \<Rightarrow> context_revision res" where
  "get_context_revision i s =
     ok_or (NotFound (''context revision '' @ i)) (find (\<lambda>c. cx_id c = i) (contexts s))"

definition get_current_context :: "id \<Rightarrow> db \<Rightarrow> context_revision res" where
  "get_current_context task s =
     bind_res (get_task task s) (\<lambda>k.
     bind_res (ok_or (NotFound (''context for task '' @ task)) (t_context (k_row k))) (\<lambda>i.
     get_context_revision i s))"

definition latest_context :: "id \<Rightarrow> db \<Rightarrow> context_revision option" where
  "latest_context task s = last_max cx_version (filter (\<lambda>c. cx_task c = task) (contexts s))"

text \<open>\<open>INSERT INTO context_revisions\<close> under \<open>UNIQUE(task_id, version)\<close>.\<close>

definition insert_context :: "context_revision \<Rightarrow> db \<Rightarrow> sql_error + db" where
  "insert_context c s =
     (if list_ex (\<lambda>d. cx_id d = cx_id c) (contexts s) then Inl PrimaryKeyViolation
      else if list_ex (\<lambda>d. cx_task d = cx_task c \<and> cx_version d = cx_version c) (contexts s)
      then Inl UniqueViolation
      else if find_task (cx_task c) s = None
        \<or> (case cx_parent c of None \<Rightarrow> False | Some p \<Rightarrow> \<not> list_ex (\<lambda>d. cx_id d = p) (contexts s))
      then Inl ForeignKeyViolation
      else Inr (s\<lparr>contexts := contexts s @ [c]\<rparr>))"

record context_input =
  ci_goal :: string
  ci_background :: string
  ci_constraints :: json
  ci_summary :: string
  ci_actor :: string

record context_patch =
  up_goal :: "string option"
  up_background :: "string option"
  up_constraints :: "json_map option"
  up_summary :: "string option"
  up_expected :: "id option"
  up_actor :: string

datatype context_write = Replace context_input | Patch context_patch

definition or_else :: "'a option \<Rightarrow> 'a \<Rightarrow> 'a" where
  "or_else m d = (case m of None \<Rightarrow> d | Some v \<Rightarrow> v)"

definition kept :: "context_revision option \<Rightarrow> (context_revision \<Rightarrow> 'a) \<Rightarrow> 'a \<Rightarrow> 'a" where
  "kept latest f d = (case latest of None \<Rightarrow> d | Some c \<Rightarrow> f c)"

definition merged_constraints :: "json \<Rightarrow> json_map option \<Rightarrow> json res" where
  "merged_constraints current additions =
     (case additions of
        None \<Rightarrow> Inr current
      | Some m \<Rightarrow>
          (case current of
             JObj object \<Rightarrow> Inr (JObj (merge_context_constraints object m))
           | _ \<Rightarrow> Inl (InvalidInput ''existing constraints are not an object; use the control-plane full revision API to replace them'')))"

definition context_of_write :: "context_revision option \<Rightarrow> context_write \<Rightarrow> context_input res" where
  "context_of_write latest write =
     (case write of
        Replace input \<Rightarrow> Inr input
      | Patch p \<Rightarrow>
          bind_res (ensure (\<not> (up_expected p \<noteq> None \<and> up_expected p \<noteq> map_option cx_id latest))
            (Conflict ''context changed; read memory_get and retry with the current revision ID'')) (\<lambda>_.
          bind_res (merged_constraints (kept latest cx_constraints (JObj [])) (up_constraints p)) (\<lambda>constraints.
          Inr \<lparr>ci_goal = or_else (up_goal p) (kept latest cx_goal []),
               ci_background = or_else (up_background p) (kept latest cx_background []),
               ci_constraints = constraints,
               ci_summary = or_else (up_summary p) (kept latest cx_summary []),
               ci_actor = up_actor p\<rparr>)))"

definition reconcile_legacy_conn :: "external \<Rightarrow> id \<Rightarrow> json \<Rightarrow> db \<Rightarrow> db res" where
  "reconcile_legacy_conn x task constraints s =
     bind_res (fetch_task task s) (\<lambda>k.
     let current = t_criteria (k_row k) in
     if current \<noteq> [] \<and> list_ex (\<lambda>c. cr_legacy_path c = None) current
     then bind_res (ensure (completion_criteria constraints = [])
         (Conflict ''native Task criteria are immutable; context cannot define a second contract'')) (\<lambda>_.
       Inr s)
     else
       let criteria = import_legacy_acceptance (x_render x) constraints in
       if criteria \<noteq> current
       then Inr (update_tasks (\<lambda>t. t_id t = task)
         (\<lambda>t. t\<lparr>t_criteria := criteria, t_acceptance_version := t_acceptance_version t + 1\<rparr>) s)
       else Inr s)"

definition actor_type_of :: "string \<Rightarrow> string" where
  "actor_type_of actor =
     (if starts_with ''agent:'' actor then ''agent_instance''
      else if starts_with ''system:'' actor then ''system'' else ''human'')"

definition write_context_revision_tx ::
  "external \<Rightarrow> id \<Rightarrow> context_write \<Rightarrow> id \<Rightarrow> time \<Rightarrow> (db, unit) tx" where
  "write_context_revision_tx x task write fresh now s =
     (let latest = latest_context task s;
          version = (case latest of None \<Rightarrow> 1 | Some c \<Rightarrow> cx_version c + 1) in
      bind_res (context_of_write latest write) (\<lambda>input.
      bind_res (reconcile_legacy_conn x task (ci_constraints input) s) (\<lambda>s1.
      bind_res (exec (insert_context
        \<lparr>cx_id = fresh, cx_task = task, cx_version = version, cx_parent = map_option cx_id latest,
         cx_goal = ci_goal input, cx_background = ci_background input,
         cx_constraints = ci_constraints input, cx_summary = ci_summary input,
         cx_created_by = ci_actor input, cx_created_at = now\<rparr> s1)) (\<lambda>s2.
      let s3 = update_tasks (\<lambda>t. t_id t = task)
            (\<lambda>t. t\<lparr>t_context := Some fresh, t_updated_at := now\<rparr>) s2 in
      Inr ((), append_event_tx (actor_type_of (ci_actor input)) (ci_actor input) ''task'' task
        ''context.revised'' [(''context_revision_id'', PStr fresh), (''version'', PInt version)] None now s3)))))"

definition write_context_revision ::
  "external \<Rightarrow> id \<Rightarrow> context_write \<Rightarrow> id \<Rightarrow> time \<Rightarrow> (db, context_revision) operation" where
  "write_context_revision x task write fresh now =
     checked (get_task task)
       (\<lambda>_. commit_then (write_context_revision_tx x task write fresh now) (\<lambda>_. get_context_revision fresh))"

definition create_context_revision ::
  "external \<Rightarrow> id \<Rightarrow> context_input \<Rightarrow> id \<Rightarrow> time \<Rightarrow> (db, context_revision) operation" where
  "create_context_revision x task input = write_context_revision x task (Replace input)"

definition update_context_revision ::
  "external \<Rightarrow> id \<Rightarrow> context_patch \<Rightarrow> id \<Rightarrow> time \<Rightarrow> (db, context_revision) operation" where
  "update_context_revision x task p fresh now =
     checked (\<lambda>s. ensure (\<not> (up_goal p = None \<and> up_background p = None \<and> up_summary p = None
           \<and> (case up_constraints p of None \<Rightarrow> True | Some m \<Rightarrow> m = [])))
         (InvalidInput ''provide at least one context field to update''))
       (\<lambda>_. write_context_revision x task (Patch p) fresh now)"

subsection \<open>The chain of revisions\<close>

text \<open>
  The revisions of a task in the table are numbered from 1 without a gap, in the order they
  were written, and each names its predecessor as its parent.
\<close>

fun linked :: "int \<Rightarrow> id option \<Rightarrow> context_revision list \<Rightarrow> bool" where
  "linked n parent [] = True"
| "linked n parent (c # cs) = (cx_version c = n \<and> cx_parent c = parent \<and> linked (n + 1) (Some (cx_id c)) cs)"

definition history :: "id \<Rightarrow> db \<Rightarrow> context_revision list" where
  "history task s = filter (\<lambda>c. cx_task c = task) (contexts s)"

definition contexts_ok :: "db \<Rightarrow> bool" where
  "contexts_ok s \<longleftrightarrow> distinct (map cx_id (contexts s)) \<and> (\<forall>task. linked 1 None (history task s))"

lemma linked_append:
  "linked n p (cs @ [c]) \<longleftrightarrow> linked n p cs
     \<and> cx_version c = n + int (length cs)
     \<and> cx_parent c = (if cs = [] then p else Some (cx_id (last cs)))"
  by (induction cs arbitrary: n p) auto

lemma linked_last_max:
  assumes "linked n p cs" "cs \<noteq> []"
  shows "last_max cx_version cs = Some (last cs)"
  using assms
proof (induction cs arbitrary: n p)
  case Nil
  then show ?case by simp
next
  case (Cons c cs)
  show ?case
  proof (cases "cs = []")
    case True
    then show ?thesis by simp
  next
    case False
    with Cons have "last_max cx_version cs = Some (last cs)" by auto
    moreover have "cx_version (last cs) = n + int (length cs)"
    proof -
      from Cons.prems(1) have "linked n p ((c # butlast cs) @ [last cs])" using False by simp
      then show ?thesis
        unfolding linked_append using False by simp
    qed
    ultimately show ?thesis using Cons.prems(1) False by simp
  qed
qed

lemma latest_context_history:
  assumes "contexts_ok s"
  shows "latest_context task s = (if history task s = [] then None else Some (last (history task s)))"
  using assms linked_last_max [of 1 None "history task s"]
  by (auto simp: latest_context_def history_def contexts_ok_def)

lemma insert_context_Inr:
  "insert_context c s = Inr s' \<Longrightarrow>
     s' = s\<lparr>contexts := contexts s @ [c]\<rparr> \<and> cx_id c \<notin> cx_id ` set (contexts s)"
  by (auto simp: insert_context_def list_ex_iff split: if_splits)

lemma reconcile_contexts:
  "reconcile_legacy_conn x task constraints s = Inr s' \<Longrightarrow> contexts s' = contexts s"
  by (auto simp: reconcile_legacy_conn_def res_simps Let_def update_tasks_def split: if_splits)

lemma linked_next:
  assumes "contexts_ok s" "cx_task c = task"
    and "cx_version c = (case latest_context task s of None \<Rightarrow> 1 | Some d \<Rightarrow> cx_version d + 1)"
    and "cx_parent c = map_option cx_id (latest_context task s)"
  shows "linked 1 None (history task s @ [c])"
proof (cases "history task s = []")
  case True
  with assms latest_context_history [OF assms(1), of task] show ?thesis by simp
next
  case False
  let ?h = "history task s"
  from assms(1) have "linked 1 None (butlast ?h @ [last ?h])"
    using False by (simp add: contexts_ok_def)
  moreover obtain m where "length ?h = Suc m" using False by (cases ?h) auto
  ultimately have "cx_version (last ?h) = int (length ?h)"
    unfolding linked_append by simp
  with assms False latest_context_history [OF assms(1), of task] show ?thesis
    by (simp add: linked_append contexts_ok_def)
qed

lemma contexts_ok_append:
  assumes "contexts_ok s" "cx_id c \<notin> cx_id ` set (contexts s)" "contexts s' = contexts s @ [c]"
    and "cx_version c = (case latest_context (cx_task c) s of None \<Rightarrow> 1 | Some d \<Rightarrow> cx_version d + 1)"
    and "cx_parent c = map_option cx_id (latest_context (cx_task c) s)"
  shows "contexts_ok s'"
proof -
  have "history task s' = (if task = cx_task c then history task s @ [c] else history task s)" for task
    by (simp add: history_def assms(3))
  with assms(1,2) linked_next [OF assms(1) refl assms(4,5)] assms(3) show ?thesis
    by (auto simp: contexts_ok_def)
qed

lemma write_context_appends:
  assumes "write_context_revision_tx x task write fresh now s = Inr (u, s')"
  shows "\<exists>c. contexts s' = contexts s @ [c] \<and> cx_id c = fresh \<and> cx_task c = task
    \<and> fresh \<notin> cx_id ` set (contexts s)
    \<and> cx_version c = (case latest_context task s of None \<Rightarrow> 1 | Some d \<Rightarrow> cx_version d + 1)
    \<and> cx_parent c = map_option cx_id (latest_context task s)"
  using assms
  by (auto simp: write_context_revision_tx_def res_simps Let_def update_tasks_def
      dest!: insert_context_Inr reconcile_contexts)

lemma contexts_ok_write:
  assumes ok: "contexts_ok s" and tx: "write_context_revision_tx x task write fresh now s = Inr (u, s')"
  shows "contexts_ok s'"
  using write_context_appends [OF tx] contexts_ok_append [OF ok] by fastforce

end
