(* ===== verification/Revisions.thy ===== *)
theory Revisions
  imports Contexts
begin

text \<open>
  Revisions of a task's specification (\<open>morrows-store/src/revision.rs\<close>): a proposal against
  the current version, applied at once or held until the executor acknowledges it, at most one
  pending per task. Applying a revision writes a new context, raises the acceptance version and
  pins the live runs to the new context.
\<close>

subsection \<open>Drafts\<close>

record revision_draft =
  dr_expected_version :: int
  dr_reason :: string
  dr_title :: "string option"
  dr_description :: "string option"
  dr_goal :: "string option"
  dr_scope :: "string option"
  dr_criteria :: "acceptance_criterion list option"

definition patched :: "task_spec \<Rightarrow> revision_draft \<Rightarrow> task_spec res" where
  "patched old draft =
     bind_res (ensure (\<not> blank (dr_reason draft)) (InvalidInput ''revision reason is required'')) (\<lambda>_.
     let spec = \<lparr>ts_title = or_else (dr_title draft) (ts_title old),
           ts_description = or_else (dr_description draft) (ts_description old),
           ts_goal = or_else (dr_goal draft) (ts_goal old),
           ts_scope = or_else (dr_scope draft) (ts_scope old),
           ts_criteria = or_else (dr_criteria draft) (ts_criteria old)\<rparr> in
     bind_res (ensure (\<not> (blank (ts_title spec) \<or> length (ts_title spec) > 500))
       (InvalidInput ''task title must contain 1..500 characters'')) (\<lambda>_.
     bind_res (ensure (\<not> (length (ts_description spec) > 100000 \<or> length (ts_goal spec) > 100000
         \<or> length (ts_scope spec) > 100000)) (InvalidInput ''task fields cannot exceed 100000 bytes'')) (\<lambda>_.
     bind_res (if dr_criteria draft \<noteq> None then validate_acceptance (ts_criteria spec) else Inr ()) (\<lambda>_.
     bind_res (ensure (spec \<noteq> old) (InvalidInput ''revision has no changes'')) (\<lambda>_.
     Inr spec)))))"

text \<open>The names of the fields a revision changes; the event also carries their values.\<close>

definition changed_fields :: "task_spec \<Rightarrow> task_spec \<Rightarrow> string list" where
  "changed_fields before after =
     (if ts_title before \<noteq> ts_title after then [''title''] else [])
     @ (if ts_description before \<noteq> ts_description after then [''description''] else [])
     @ (if ts_goal before \<noteq> ts_goal after then [''goal''] else [])
     @ (if ts_scope before \<noteq> ts_scope after then [''scope''] else [])
     @ (if ts_criteria before \<noteq> ts_criteria after then [''acceptance_criteria''] else [])"

subsection \<open>Applying a revision\<close>

definition revision_constraints :: "context_revision option \<Rightarrow> task_spec \<Rightarrow> json" where
  "revision_constraints latest spec =
     (let object = (case kept latest cx_constraints (JObj []) of JObj m \<Rightarrow> m | _ \<Rightarrow> []) in
      JObj (map_insert ''task_scope'' (JStr (ts_scope spec))
        (filter (\<lambda>(k, _). k \<noteq> ''acceptance_criteria'' \<and> k \<noteq> ''freeze_requires'') object)))"

definition pin_run :: "id \<Rightarrow> time \<Rightarrow> run \<Rightarrow> db \<Rightarrow> db" where
  "pin_run context_id now r s =
     (if list_ex (\<lambda>c. rc_run c = r_id r) (run_contexts s)
      then s\<lparr>run_contexts := update_where (\<lambda>c. rc_run c = r_id r)
             (\<lambda>c. c\<lparr>rc_context := context_id, rc_pinned_at := now\<rparr>) (run_contexts s)\<rparr>
      else s\<lparr>run_contexts := run_contexts s @ [\<lparr>rc_run = r_id r, rc_context = context_id, rc_pinned_at = now\<rparr>]\<rparr>)"

definition pin_live_runs :: "id \<Rightarrow> id \<Rightarrow> time \<Rightarrow> db \<Rightarrow> db" where
  "pin_live_runs task context_id now s =
     fold (pin_run context_id now)
       (filter (\<lambda>r. r_task r = task \<and> (r_status r = ''running'' \<or> r_status r = ''paused'')) (runs s)) s"

record revision_ack =
  ka_run :: id
  ka_agent :: id
  ka_impact :: string
  ka_plan :: "string list"

definition apply_tx :: "id \<Rightarrow> id \<Rightarrow> revision_ack option \<Rightarrow> id \<Rightarrow> time \<Rightarrow> db \<Rightarrow> db res" where
  "apply_tx task revision ack fresh now s =
     bind_res (ok_or no_rows (find (\<lambda>v. tr_id v = revision \<and> tr_task v = task) (revisions s))) (\<lambda>v.
     bind_res (spec_conn task s) (\<lambda>cur.
     bind_res (ensure (\<not> (sv_state cur = Done \<or> sv_state cur = Cancelled \<or> tr_base_version v \<noteq> sv_version cur))
       (Conflict ''task was completed/cancelled or revision base became stale'')) (\<lambda>_.
     bind_res (ensure (tr_context_before v = sv_context cur)
       (Conflict ''Task context changed after revision proposal; reject and re-propose on the latest context'')) (\<lambda>_.
     let latest = latest_context task s; spec = tr_after v in
     bind_res (exec (insert_context
       \<lparr>cx_id = fresh, cx_task = task,
        cx_version = (case latest of None \<Rightarrow> 1 | Some c \<Rightarrow> cx_version c + 1),
        cx_parent = map_option cx_id latest, cx_goal = ts_goal spec,
        cx_background = kept latest cx_background [],
        cx_constraints = revision_constraints latest spec, cx_summary = kept latest cx_summary [],
        cx_created_by = tr_author v, cx_created_at = now\<rparr> s)) (\<lambda>s1.
     let s2 = update_tasks (\<lambda>t. t_id t = task \<and> t_spec_version t = sv_version cur
             \<and> t_state t \<noteq> ''done'' \<and> t_state t \<noteq> ''cancelled'')
           (\<lambda>t. t\<lparr>t_title := ts_title spec, t_description := ts_description spec,
                 t_criteria := ts_criteria spec, t_acceptance_version := t_acceptance_version t + 1,
                 t_spec_version := tr_version v, t_context := Some fresh, t_updated_at := now\<rparr>) s1;
         s3 = s2\<lparr>revisions := update_where (\<lambda>w. tr_id w = revision)
           (\<lambda>w. w\<lparr>tr_status := ''applied'', tr_resolved_at := Some now, tr_context_after := Some fresh,
                 tr_ack_run := map_option ka_run ack, tr_ack_agent := map_option ka_agent ack,
                 tr_ack_impact := map_option ka_impact ack, tr_ack_plan := map_option ka_plan ack\<rparr>)
           (revisions s2)\<rparr> in
     Inr (append_event_tx ''system'' ''task-revision'' ''task'' task ''task.revision_applied''
       [(''revision_id'', PStr revision), (''version'', PInt (tr_version v)),
        (''context_revision_id'', PStr fresh)] None now (pin_live_runs task fresh now s3)))))))"

definition task_revision_history :: "id \<Rightarrow> db \<Rightarrow> (task \<times> task_revision list) res" where
  "task_revision_history task s =
     bind_res (get_task task s) (\<lambda>k.
     Inr (k, rev (sort_key tr_version (filter (\<lambda>v. tr_task v = task) (revisions s)))))"

subsection \<open>Proposals\<close>

definition operator_actor :: "string \<Rightarrow> bool" where
  "operator_actor actor \<longleftrightarrow> starts_with ''human:'' actor \<or> starts_with ''operator:'' actor"

definition preview_task_revision :: "id \<Rightarrow> revision_draft \<Rightarrow> db \<Rightarrow> (string \<times> task_spec) res" where
  "preview_task_revision task draft s =
     bind_res (spec_conn task s) (\<lambda>cur.
     bind_res (ensure (sv_version cur = dr_expected_version draft) (Conflict ''stale task spec version'')) (\<lambda>_.
     bind_res (ensure (\<not> (sv_state cur = Done \<or> sv_state cur = Cancelled))
       (Conflict ''completed/cancelled tasks require rework'')) (\<lambda>_.
     bind_res (patched (sv_spec cur) draft) (\<lambda>after.
     Inr (if sv_state cur = InProgress \<or> sv_state cur = Review then ''pending_ack'' else ''applied'', after)))))"

record revision_ids =
  fi_baseline :: id
  fi_revision :: id
  fi_context :: id
  fi_thread :: id
  fi_message :: id
  fi_delivery :: id

definition next_version :: "id \<Rightarrow> db \<Rightarrow> int" where
  "next_version task s =
     (case last_max tr_version (filter (\<lambda>v. tr_task v = task) (revisions s)) of
        None \<Rightarrow> 1 | Some v \<Rightarrow> tr_version v + 1)"

definition in_flight :: "id \<Rightarrow> db \<Rightarrow> bool" where
  "in_flight task s \<longleftrightarrow>
     list_ex (\<lambda>r. r_task r = task \<and> (r_status r = ''running'' \<or> r_status r = ''paused'')) (runs s)"

definition last_executor :: "id \<Rightarrow> db \<Rightarrow> assignment option" where
  "last_executor task s =
     last_max (\<lambda>a. (if a_status a = ''active'' then (1::int) else 0, a_acquired_at a))
       (filter (\<lambda>a. a_task a = task \<and> a_role a = ''executor'') (assignments s))"

definition notify_executor ::
  "id \<Rightarrow> id \<Rightarrow> int \<Rightarrow> string \<Rightarrow> revision_ids \<Rightarrow> time \<Rightarrow> db \<Rightarrow> db res" where
  "notify_executor task recipient version reason ids now s =
     bind_res (ensure_task_agent_thread_tx task recipient (fi_thread ids) now s) (\<lambda>(thread, s1).
     let body = ''Task revision v'' @ show_nat (nat version)
           @ '' pending acknowledgment. Read task_revision_history for diff and task_revision_ack with updated plan. Reason: ''
           @ reason in
     bind_res (ensure (\<not> list_ex (\<lambda>m. ms_id m = fi_message ids) (messages s1)) (storage PrimaryKeyViolation)) (\<lambda>_.
     let s2 = s1\<lparr>messages := messages s1 @
           [\<lparr>ms_id = fi_message ids, ms_thread = thread, ms_author_type = ''system'',
             ms_created_by = None, ms_body = body, ms_status = ''queued'', ms_created_at = now,
             ms_recalled_at = None, ms_type = ''task_revision'', ms_recipient = Some recipient,
             ms_requires_response = True, ms_recipient_role = None,
             ms_reply_to = None, ms_correlation = None, ms_client = None\<rparr>]\<rparr> in
     enqueue_agent_delivery_tx recipient (Some task) ''task_message'' (fi_message ids)
       [(''thread_id'', PStr thread), (''message_id'', PStr (fi_message ids)), (''body'', PStr body),
        (''revision_id'', PStr (fi_revision ids)), (''version'', PInt version)] (fi_delivery ids) now s2))"

definition propose_task_revision_tx ::
  "id \<Rightarrow> string \<Rightarrow> revision_draft \<Rightarrow> revision_ids \<Rightarrow> time \<Rightarrow> (db, unit) tx" where
  "propose_task_revision_tx task actor draft ids now s =
     bind_res (spec_conn task s) (\<lambda>cur.
     bind_res (ensure (\<not> (actor \<noteq> sv_owner cur \<and> \<not> operator_actor actor))
       (Conflict ''only publisher or authorized Human operator can revise Task'')) (\<lambda>_.
     bind_res (ensure (\<not> (sv_state cur = Done \<or> sv_state cur = Cancelled))
       (Conflict ''completed/cancelled Task must use rework'')) (\<lambda>_.
     bind_res (ensure (sv_version cur = dr_expected_version draft)
       (Conflict ''stale Task revision version (CAS)'')) (\<lambda>_.
     bind_res (ensure (\<not> pending_revision task s)
       (Conflict ''task has pending revision; resolve it before proposing another'')) (\<lambda>_.
     bind_res (patched (sv_spec cur) draft) (\<lambda>after.
     bind_res (baseline_tx task (fi_baseline ids) now s) (\<lambda>s1.
     let version = next_version task s1;
         pending = in_flight task s1 \<or> sv_state cur = InProgress \<or> sv_state cur = Review in
     bind_res (exec (insert_revision
       \<lparr>tr_id = fi_revision ids, tr_task = task, tr_version = version, tr_base_version = sv_version cur,
        tr_status = ''pending_ack'', tr_author = actor, tr_reason = trim (dr_reason draft),
        tr_before = sv_spec cur, tr_after = after, tr_context_before = sv_context cur,
        tr_context_after = None, tr_ack_run = None, tr_ack_agent = None, tr_ack_impact = None,
        tr_ack_plan = None, tr_created_at = now, tr_resolved_at = None\<rparr> s1)) (\<lambda>s2.
     let s3 = append_event_tx ''system'' ''task-revision'' ''task'' task ''task.revision_proposed''
           [(''revision_id'', PStr (fi_revision ids)), (''version'', PInt version),
            (''base_version'', PInt (sv_version cur)), (''reason'', PStr (dr_reason draft)),
            (''diff'', PList (map PStr (changed_fields (sv_spec cur) after))),
            (''status'', PStr (if pending then ''pending_ack'' else ''applied''))] None now s2 in
     bind_res
       (if pending
        then (case last_executor task s3 of
            None \<Rightarrow> Inr s3
          | Some a \<Rightarrow> notify_executor task (a_agent a) version (dr_reason draft) ids now s3)
        else apply_tx task (fi_revision ids) None (fi_context ids) now s3) (\<lambda>s4.
     Inr ((), s4))))))))))"

definition propose_task_revision ::
  "id \<Rightarrow> string \<Rightarrow> revision_draft \<Rightarrow> revision_ids \<Rightarrow> time \<Rightarrow> (db, task \<times> task_revision list) operation" where
  "propose_task_revision task actor draft ids now =
     commit_then (propose_task_revision_tx task actor draft ids now) (\<lambda>_. task_revision_history task)"

subsection \<open>Answers\<close>

definition implementing_executor_run :: "id \<Rightarrow> id \<Rightarrow> id \<Rightarrow> time \<Rightarrow> db \<Rightarrow> bool" where
  "implementing_executor_run run task agent now s \<longleftrightarrow>
     list_ex (\<lambda>r. r_id r = run \<and> r_task r = task \<and> r_agent r = agent
        \<and> (r_status r = ''running'' \<or> r_status r = ''paused'')
        \<and> list_ex (\<lambda>a. a_id a = r_assignment r \<and> a_role a = ''executor'' \<and> a_status a = ''active''
            \<and> now < a_expires_at a \<and> a_phase a = implementing) (assignments s)) (runs s)"

definition ack_task_revision_tx ::
  "id \<Rightarrow> id \<Rightarrow> id \<Rightarrow> id \<Rightarrow> string \<Rightarrow> string list \<Rightarrow> id \<Rightarrow> time \<Rightarrow> (db, unit) tx" where
  "ack_task_revision_tx task agent revision run impact plan fresh now s =
     bind_res (ok_or (NotFound ''revision'') (find (\<lambda>v. tr_id v = revision) (revisions s))) (\<lambda>v.
     bind_res (ensure (\<not> (tr_task v \<noteq> task \<or> tr_status v \<noteq> ''pending_ack''))
       (Conflict ''revision is no longer pending for this task'')) (\<lambda>_.
     bind_res (ensure (implementing_executor_run run task agent now s)
       (Conflict ''only active implementing Task executor can acknowledge revision'')) (\<lambda>_.
     bind_res (apply_tx task revision
       (Some \<lparr>ka_run = run, ka_agent = agent, ka_impact = impact, ka_plan = plan\<rparr>) fresh now s) (\<lambda>s1.
     Inr ((), s1)))))"

definition ack_task_revision ::
  "external \<Rightarrow> id \<Rightarrow> id \<Rightarrow> string \<Rightarrow> string \<Rightarrow> string \<Rightarrow> string list \<Rightarrow> id \<Rightarrow> time
   \<Rightarrow> (db, task \<times> task_revision list) operation" where
  "ack_task_revision x task agent revision_text run_text impact plan fresh now =
     checked (\<lambda>s.
       bind_res (ensure (\<not> (blank impact \<or> plan = [] \<or> list_ex blank plan))
         (InvalidInput ''impact and non-empty updated_plan required'')) (\<lambda>_.
       bind_res (ok_or (Storage ''invalid uuid'') (x_parse_id x run_text)) (\<lambda>run.
       bind_res (ok_or (Storage ''invalid uuid'') (x_parse_id x revision_text)) (\<lambda>revision.
       Inr (run, revision)))))
     (\<lambda>(run, revision). commit_then (ack_task_revision_tx task agent revision run impact plan fresh now)
        (\<lambda>_. task_revision_history task))"

definition reject_task_revision_tx :: "id \<Rightarrow> string \<Rightarrow> id \<Rightarrow> string \<Rightarrow> time \<Rightarrow> (db, unit) tx" where
  "reject_task_revision_tx task actor revision reason now s =
     bind_res (spec_conn task s) (\<lambda>cur.
     bind_res (ensure (\<not> (sv_state cur = Done \<or> sv_state cur = Cancelled)) (Conflict ''Task is terminal'')) (\<lambda>_.
     let is_executor = starts_with ''agent:'' actor
           \<and> list_ex (\<lambda>a. a_task a = task \<and> a_agent a = drop 6 actor \<and> a_role a = ''executor''
               \<and> a_status a = ''active'' \<and> now < a_expires_at a) (assignments s);
         chosen = (\<lambda>v. tr_id v = revision \<and> tr_task v = task \<and> tr_status v = ''pending_ack'') in
     bind_res (ensure (sv_owner cur = actor \<or> is_executor \<or> operator_actor actor)
       (Conflict ''only publisher, current executor, or Human operator may reject revision'')) (\<lambda>_.
     bind_res (ensure (rows_affected chosen (revisions s) = 1) (Conflict ''revision not pending'')) (\<lambda>_.
     Inr ((), append_event_tx ''system'' ''task-revision'' ''task'' task ''task.revision_rejected''
       [(''revision_id'', PStr revision), (''reason'', PStr reason), (''actor'', PStr actor)] None now
       (s\<lparr>revisions := update_where chosen
          (\<lambda>v. v\<lparr>tr_status := ''rejected'', tr_resolved_at := Some now, tr_ack_impact := Some reason\<rparr>)
          (revisions s)\<rparr>))))))"

definition reject_task_revision ::
  "id \<Rightarrow> string \<Rightarrow> id \<Rightarrow> string \<Rightarrow> time \<Rightarrow> (db, task \<times> task_revision list) operation" where
  "reject_task_revision task actor revision reason now =
     checked (\<lambda>s. ensure (\<not> blank reason) (InvalidInput ''reject reason required''))
       (\<lambda>_. commit_then (reject_task_revision_tx task actor revision reason now) (\<lambda>_. task_revision_history task))"

subsection \<open>What applying a revision changes\<close>

lemma pin_run_pins: "\<exists>p \<in> set (run_contexts (pin_run c now r s)). rc_run p = r_id r \<and> rc_context p = c"
proof (cases "list_ex (\<lambda>p. rc_run p = r_id r) (run_contexts s)")
  case True
  then obtain p where "p \<in> set (run_contexts s)" "rc_run p = r_id r" by (auto simp: list_ex_iff)
  then show ?thesis
    using True by (intro bexI [of _ "p\<lparr>rc_context := c, rc_pinned_at := now\<rparr>"])
      (auto simp: pin_run_def set_update_where image_iff)
qed (simp add: pin_run_def)

lemma pin_run_keeps:
  assumes "\<exists>p \<in> set (run_contexts s). rc_run p = i \<and> rc_context p = c"
  shows "\<exists>p \<in> set (run_contexts (pin_run c now r s)). rc_run p = i \<and> rc_context p = c"
proof -
  from assms obtain p where p: "p \<in> set (run_contexts s)" "rc_run p = i" "rc_context p = c" by blast
  let ?q = "if rc_run p = r_id r then p\<lparr>rc_context := c, rc_pinned_at := now\<rparr> else p"
  have q: "rc_run ?q = i" "rc_context ?q = c" using p by simp_all
  have "?q \<in> set (run_contexts (pin_run c now r s))"
    using p by (auto simp: pin_run_def update_where_def list_ex_iff)
  with q show ?thesis by blast
qed

lemma fold_pin_run:
  "(\<forall>r \<in> set rs. \<exists>p \<in> set (run_contexts (fold (pin_run c now) rs s)). rc_run p = r_id r \<and> rc_context p = c)
   \<and> (\<forall>i. (\<exists>p \<in> set (run_contexts s). rc_run p = i \<and> rc_context p = c)
      \<longrightarrow> (\<exists>p \<in> set (run_contexts (fold (pin_run c now) rs s)). rc_run p = i \<and> rc_context p = c))"
proof (induction rs arbitrary: s)
  case Nil
  then show ?case by simp
next
  case (Cons r rs)
  show ?case
  proof (intro conjI ballI allI impI)
    let ?s = "pin_run c now r s"
    fix q assume "q \<in> set (r # rs)"
    then consider "q = r" | "q \<in> set rs" by auto
    then show "\<exists>p \<in> set (run_contexts (fold (pin_run c now) (r # rs) s)). rc_run p = r_id q \<and> rc_context p = c"
    proof cases
      case 1
      with pin_run_pins [of c now r s] Cons.IH [of ?s] show ?thesis by simp
    next
      case 2
      with Cons.IH [of ?s] show ?thesis by simp
    qed
  next
    fix i assume "\<exists>p \<in> set (run_contexts s). rc_run p = i \<and> rc_context p = c"
    from pin_run_keeps [OF this, of now r] Cons.IH [of "pin_run c now r s"]
    show "\<exists>p \<in> set (run_contexts (fold (pin_run c now) (r # rs) s)). rc_run p = i \<and> rc_context p = c"
      by simp
  qed
qed

lemma pin_run_tables [simp]:
  "tasks (pin_run c now r s) = tasks s" "runs (pin_run c now r s) = runs s" "revisions (pin_run c now r s) = revisions s"
  by (simp_all add: pin_run_def)

lemma fold_pin_run_tables [simp]:
  "tasks (fold (pin_run c now) rs s) = tasks s" "runs (fold (pin_run c now) rs s) = runs s"
  "revisions (fold (pin_run c now) rs s) = revisions s"
  by (induction rs arbitrary: s) simp_all

lemma pin_live_runs_tables [simp]:
  "tasks (pin_live_runs task c now s) = tasks s" "runs (pin_live_runs task c now s) = runs s"
  "revisions (pin_live_runs task c now s) = revisions s"
  by (simp_all add: pin_live_runs_def)

lemma pin_live_runs_pins:
  assumes "r \<in> set (runs s)" "r_task r = task" "r_status r = ''running'' \<or> r_status r = ''paused''"
  shows "\<exists>p \<in> set (run_contexts (pin_live_runs task c now s)). rc_run p = r_id r \<and> rc_context p = c"
  using assms fold_pin_run [of "filter (\<lambda>r. r_task r = task \<and> (r_status r = ''running'' \<or> r_status r = ''paused'')) (runs s)" c now s]
  by (simp add: pin_live_runs_def)

lemma append_event_revisions [simp]:
  "revisions (append_event_tx at ai et ei ty pl co now s) = revisions s"
  by (simp add: append_event_tx_def)

lemma apply_txE:
  assumes "apply_tx task revision ack fresh now s = Inr s'"
  obtains v cur where "find (\<lambda>v. tr_id v = revision \<and> tr_task v = task) (revisions s) = Some v"
    "spec_conn task s = Inr cur" "sv_state cur \<noteq> Done" "sv_state cur \<noteq> Cancelled" "tr_base_version v = sv_version cur"
    "tasks s' = update_where (\<lambda>t. t_id t = task \<and> t_spec_version t = sv_version cur
             \<and> t_state t \<noteq> ''done'' \<and> t_state t \<noteq> ''cancelled'')
           (\<lambda>t. t\<lparr>t_title := ts_title (tr_after v), t_description := ts_description (tr_after v),
                 t_criteria := ts_criteria (tr_after v), t_acceptance_version := t_acceptance_version t + 1,
                 t_spec_version := tr_version v, t_context := Some fresh, t_updated_at := now\<rparr>) (tasks s)"
    "runs s' = runs s"
    "revisions s' = update_where (\<lambda>w. tr_id w = revision)
           (\<lambda>w. w\<lparr>tr_status := ''applied'', tr_resolved_at := Some now, tr_context_after := Some fresh,
                 tr_ack_run := map_option ka_run ack, tr_ack_agent := map_option ka_agent ack,
                 tr_ack_impact := map_option ka_impact ack, tr_ack_plan := map_option ka_plan ack\<rparr>) (revisions s)"
    "\<forall>r \<in> set (runs s'). r_task r = task \<and> (r_status r = ''running'' \<or> r_status r = ''paused'')
         \<longrightarrow> (\<exists>p \<in> set (run_contexts s'). rc_run p = r_id r \<and> rc_context p = fresh)"
proof -
  have pins: "\<forall>r \<in> set (runs (append_event_tx a b c d e f g now (pin_live_runs task fresh now s1))).
      r_task r = task \<and> (r_status r = ''running'' \<or> r_status r = ''paused'')
      \<longrightarrow> (\<exists>p \<in> set (run_contexts (append_event_tx a b c d e f g now (pin_live_runs task fresh now s1))).
           rc_run p = r_id r \<and> rc_context p = fresh)" for a b c d e f g s1
    using pin_live_runs_pins [of _ s1 task fresh now] by (simp add: append_event_tx_def)
  from assms show thesis
    unfolding apply_tx_def res_simps Let_def de_Morgan_disj not_not
    by (elim exE conjE)
      (drule Inr_inject, drule insert_context_Inr, elim conjE, hypsubst,
        rule that, assumption, assumption, assumption, assumption, assumption,
        simp_all add: update_tasks_def pins)
qed

lemma notify_executor_tables:
  assumes "notify_executor task recipient version reason ids now s = Inr s'"
  shows "revisions s' = revisions s \<and> tasks s' = tasks s"
  using assms
  by (auto simp: notify_executor_def res_simps Let_def ensure_task_agent_thread_tx_def enqueue_agent_delivery_tx_def append_event_tx_def
      split: option.splits if_splits)

lemma insert_revision_Inr:
  "insert_revision v s = Inr s' \<Longrightarrow> s' = s\<lparr>revisions := revisions s @ [v]\<rparr>"
  by (auto simp: insert_revision_def split: if_splits)

lemma baseline_tables:
  "baseline_tx task fresh now s = Inr s' \<Longrightarrow> tasks s' = tasks s \<and> runs s' = runs s"
  by (auto simp: baseline_tx_def res_simps dest!: insert_revision_Inr split: if_splits)

end
