(* ===== verification/Lifecycle.thy ===== *)
theory Lifecycle
  imports Revisions
begin

text \<open>
  The invariant of tasks, assignments and runs, stated once over the three tables, and one
  lemma per kind of change an operation makes to them.
\<close>

definition active :: "assignment \<Rightarrow> bool" where
  "active a \<longleftrightarrow> a_status a = ''active''"

definition live :: "run \<Rightarrow> bool" where
  "live r \<longleftrightarrow> r_status r \<in> live_statuses"

definition task_is :: "id \<Rightarrow> string \<Rightarrow> db \<Rightarrow> bool" where
  "task_is i st s \<longleftrightarrow> (\<exists>t \<in> set (tasks s). t_id t = i \<and> t_state t = st)"

definition core_ok :: "db \<Rightarrow> bool" where
  "core_ok s \<longleftrightarrow>
     distinct (map t_id (tasks s))
     \<and> distinct (map a_id (assignments s))
     \<and> distinct (map r_id (runs s))
     \<and> distinct (map (\<lambda>a. (a_task a, a_role a)) (filter active (assignments s)))
     \<and> a_task ` set (assignments s) \<subseteq> t_id ` set (tasks s)
     \<and> (\<lambda>r. (r_assignment r, r_task r, r_agent r)) ` set (runs s)
         \<subseteq> (\<lambda>a. (a_id a, a_task a, a_agent a)) ` set (assignments s)
     \<and> distinct (map r_assignment (filter live (runs s)))
     \<and> (\<forall>a \<in> set (filter active (assignments s)).
          \<not> task_is (a_task a) ''cancelled'' s
          \<and> (a_role a = ''executor'' \<longrightarrow> \<not> task_is (a_task a) ''done'' s))"

definition task_view :: "db \<Rightarrow> (id \<times> string) list" where
  "task_view s = map (\<lambda>t. (t_id t, t_state t)) (tasks s)"

definition assignment_view :: "db \<Rightarrow> (id \<times> id \<times> string \<times> id \<times> string) list" where
  "assignment_view s = map (\<lambda>a. (a_id a, a_task a, a_role a, a_agent a, a_status a)) (assignments s)"

definition run_view_list :: "db \<Rightarrow> (id \<times> id \<times> id \<times> id \<times> string) list" where
  "run_view_list s = map (\<lambda>r. (r_id r, r_assignment r, r_task r, r_agent r, r_status r)) (runs s)"

definition core_of ::
  "(id \<times> string) list \<Rightarrow> (id \<times> id \<times> string \<times> id \<times> string) list \<Rightarrow> (id \<times> id \<times> id \<times> id \<times> string) list \<Rightarrow> bool" where
  "core_of T A R \<longleftrightarrow>
     distinct (map fst T) \<and> distinct (map fst A) \<and> distinct (map fst R)
     \<and> distinct (map (\<lambda>(i, t, role, g, st). (t, role)) (filter (\<lambda>(i, t, role, g, st). st = ''active'') A))
     \<and> (\<lambda>(i, t, role, g, st). t) ` set A \<subseteq> fst ` set T
     \<and> (\<lambda>(i, a, t, g, st). (a, t, g)) ` set R \<subseteq> (\<lambda>(i, t, role, g, st). (i, t, g)) ` set A
     \<and> distinct (map (\<lambda>(i, a, t, g, st). a) (filter (\<lambda>(i, a, t, g, st). st \<in> live_statuses) R))
     \<and> (\<forall>a \<in> set (filter (\<lambda>(i, t, role, g, st). st = ''active'') A).
          case a of (i, t, role, g, st) \<Rightarrow>
            (t, ''cancelled'') \<notin> set T \<and> (role = ''executor'' \<longrightarrow> (t, ''done'') \<notin> set T))"

lemma core_ok_views: "core_ok s \<longleftrightarrow> core_of (task_view s) (assignment_view s) (run_view_list s)"
proof -
  have in_view: "(i, st) \<in> set (task_view s) \<longleftrightarrow> task_is i st s" for i st
    by (auto simp: task_view_def task_is_def)
  have fun_eqs: "active = (\<lambda>a. a_status a = ''active'')" "live = (\<lambda>r. r_status r \<in> live_statuses)"
    by (simp_all add: fun_eq_iff active_def live_def)
  show ?thesis
    unfolding core_ok_def core_of_def in_view fun_eqs
    by (simp add: task_view_def assignment_view_def run_view_list_def
        filter_map comp_def image_image)
qed

text \<open>A change that leaves these columns alone keeps the invariant.\<close>

lemma core_ok_cong:
  assumes "core_ok s" "task_view s' = task_view s" "assignment_view s' = assignment_view s"
    "run_view_list s' = run_view_list s"
  shows "core_ok s'"
  using assms by (simp add: core_ok_views)

lemma core_ok_same:
  "core_ok s \<Longrightarrow> tasks s' = tasks s \<Longrightarrow> assignments s' = assignments s \<Longrightarrow> runs s' = runs s \<Longrightarrow> core_ok s'"
  by (erule core_ok_cong) (simp_all add: task_view_def assignment_view_def run_view_list_def)

lemma core_ok_append_event [simp]:
  "core_ok (append_event_tx at ai et ei ty pl co now s) = core_ok s"
  by (simp add: core_ok_views task_view_def assignment_view_def run_view_list_def)

lemma task_view_update:
  assumes "\<And>t. P t \<Longrightarrow> t_id (f t) = t_id t \<and> t_state (f t) = t_state t"
  shows "core_ok (update_tasks P f s) = core_ok s"
  using map_update_where [of P "\<lambda>t. (t_id t, t_state t)" f] assms
  by (simp add: core_ok_views task_view_def assignment_view_def run_view_list_def update_tasks_def)

lemma assignment_view_update:
  assumes "\<And>a. P a \<Longrightarrow> a_id (f a) = a_id a \<and> a_task (f a) = a_task a \<and> a_role (f a) = a_role a
      \<and> a_agent (f a) = a_agent a \<and> a_status (f a) = a_status a"
  shows "core_ok (update_assignments P f s) = core_ok s"
  using map_update_where [of P "\<lambda>a. (a_id a, a_task a, a_role a, a_agent a, a_status a)" f] assms
  by (simp add: core_ok_views task_view_def assignment_view_def run_view_list_def update_assignments_def)

lemma run_view_update:
  assumes "\<And>r. P r \<Longrightarrow> r_id (f r) = r_id r \<and> r_assignment (f r) = r_assignment r \<and> r_task (f r) = r_task r
      \<and> r_agent (f r) = r_agent r \<and> r_status (f r) = r_status r"
  shows "core_ok (update_runs P f s) = core_ok s"
  using map_update_where [of P "\<lambda>r. (r_id r, r_assignment r, r_task r, r_agent r, r_status r)" f] assms
  by (simp add: core_ok_views task_view_def assignment_view_def run_view_list_def update_runs_def)

subsection \<open>Changes of the three tables\<close>

lemma task_is_update_assignments [simp]:
  "task_is i st (update_assignments P f s) = task_is i st s"
  "task_is i st (update_runs Q g s) = task_is i st s"
  by (simp_all add: task_is_def update_assignments_def update_runs_def)

lemma core_ok_release:
  assumes ok: "core_ok s"
    and keep: "\<And>a. P a \<Longrightarrow> a_id (f a) = a_id a \<and> a_task (f a) = a_task a \<and> a_role (f a) = a_role a
      \<and> a_agent (f a) = a_agent a"
    and status: "\<And>a. P a \<Longrightarrow> active (f a) \<Longrightarrow> active a"
  shows "core_ok (update_assignments P f s)"
proof -
  let ?A = "update_where P f (assignments s)"
  have ids: "map a_id ?A = map a_id (assignments s)" "map a_task ?A = map a_task (assignments s)"
    "map (\<lambda>a. (a_id a, a_task a, a_agent a)) ?A = map (\<lambda>a. (a_id a, a_task a, a_agent a)) (assignments s)"
    using keep by (simp_all add: map_update_where)
  have dist: "distinct (map (\<lambda>a. (a_task a, a_role a)) (filter active ?A))"
    by (rule filter_subseq_update_where) (use ok keep status in \<open>auto simp: core_ok_def\<close>)
  have act: "\<exists>b \<in> set (filter active (assignments s)). a_task b = a_task a \<and> a_role b = a_role a"
    if "a \<in> set (filter active ?A)" for a
    using that keep status by (force simp: set_update_where)
  have sets: "a_task ` set ?A = a_task ` set (assignments s)"
    "(\<lambda>a. (a_id a, a_task a, a_agent a)) ` set ?A = (\<lambda>a. (a_id a, a_task a, a_agent a)) ` set (assignments s)"
    using arg_cong [OF ids(2), of set] arg_cong [OF ids(3), of set] unfolding list.set_map by simp_all
  have "\<not> task_is (a_task a) ''cancelled'' s \<and> (a_role a = ''executor'' \<longrightarrow> \<not> task_is (a_task a) ''done'' s)"
    if "a \<in> set (filter active ?A)" for a
  proof -
    from act [OF that] obtain b where b: "b \<in> set (filter active (assignments s))"
      "a_task b = a_task a" "a_role b = a_role a" by blast
    from ok b(1) have "\<not> task_is (a_task b) ''cancelled'' s
        \<and> (a_role b = ''executor'' \<longrightarrow> \<not> task_is (a_task b) ''done'' s)"
      unfolding core_ok_def by blast
    then show ?thesis unfolding b .
  qed
  then show ?thesis
    using ok ids(1) dist sets unfolding core_ok_def by (simp add: update_assignments_def task_is_def)
qed

lemma core_ok_append_assignment:
  assumes ok: "core_ok s" and fresh: "\<not> list_ex (\<lambda>b. a_id b = a_id a) (assignments s)"
    and unique: "\<not> list_ex (\<lambda>b. a_task b = a_task a \<and> a_role b = a_role a \<and> a_status b = ''active'') (assignments s)"
    and task: "find_task (a_task a) s = Some t" "t_state t \<noteq> ''done''" "t_state t \<noteq> ''cancelled''"
  shows "core_ok (s\<lparr>assignments := assignments s @ [a]\<rparr>)"
proof -
  from ok task(1) have only: "u = t" if "u \<in> set (tasks s)" "t_id u = a_task a" for u
    using that distinct_map_inj [of t_id "tasks s" u t] find_task_SomeD [of "a_task a" s t] by (auto simp: core_ok_def)
  then have "\<not> task_is (a_task a) ''cancelled'' s" "\<not> task_is (a_task a) ''done'' s"
    using task by (auto simp: task_is_def)
  moreover have "(a_task a, a_role a) \<notin> (\<lambda>a. (a_task a, a_role a)) ` set (filter active (assignments s))"
    using unique by (auto simp: list_ex_iff active_def)
  moreover have "a_id a \<notin> a_id ` set (assignments s)" using fresh by (auto simp: list_ex_iff)
  moreover have "a_task a \<in> t_id ` set (tasks s)" using task(1) by (rule find_task_in_ids)
  ultimately show ?thesis
    using ok unfolding core_ok_def by (auto simp: task_is_def image_subset_iff)
qed

lemma core_ok_append_run:
  assumes ok: "core_ok s" and fresh: "\<not> list_ex (\<lambda>q. r_id q = r_id r) (runs s)"
    and a: "a \<in> set (assignments s)" "a_id a = r_assignment r" "a_task a = r_task r" "a_agent a = r_agent r"
    and idle: "\<not> list_ex (\<lambda>q. r_assignment q = r_assignment r \<and> live q) (runs s)"
  shows "core_ok (s\<lparr>runs := runs s @ [r]\<rparr>)"
proof -
  have "r_id r \<notin> r_id ` set (runs s)" using fresh by (auto simp: list_ex_iff)
  moreover have "r_assignment r \<notin> r_assignment ` set (filter live (runs s))"
    using idle by (auto simp: list_ex_iff)
  moreover have "(r_assignment r, r_task r, r_agent r) \<in> (\<lambda>a. (a_id a, a_task a, a_agent a)) ` set (assignments s)"
    using a by force
  ultimately show ?thesis using ok unfolding core_ok_def by (simp add: task_is_def)
qed

lemma core_ok_update_runs:
  assumes ok: "core_ok s"
    and keep: "\<And>r. P r \<Longrightarrow> r_id (f r) = r_id r \<and> r_assignment (f r) = r_assignment r \<and> r_task (f r) = r_task r
      \<and> r_agent (f r) = r_agent r"
    and status: "\<And>r. P r \<Longrightarrow> live (f r) \<Longrightarrow> live r"
  shows "core_ok (update_runs P f s)"
proof -
  let ?R = "update_where P f (runs s)"
  have ids: "map r_id ?R = map r_id (runs s)"
    "map (\<lambda>r. (r_assignment r, r_task r, r_agent r)) ?R = map (\<lambda>r. (r_assignment r, r_task r, r_agent r)) (runs s)"
    using keep by (simp_all add: map_update_where)
  have "distinct (map r_assignment (filter live ?R))"
    by (rule filter_subseq_update_where) (use ok keep status in \<open>auto simp: core_ok_def\<close>)
  moreover have "(\<lambda>r. (r_assignment r, r_task r, r_agent r)) ` set ?R
      = (\<lambda>r. (r_assignment r, r_task r, r_agent r)) ` set (runs s)"
    using arg_cong [OF ids(2), of set] unfolding list.set_map by simp
  ultimately show ?thesis
    using ok ids(1) unfolding core_ok_def by (simp add: update_runs_def task_is_def)
qed

lemma core_ok_update_tasks:
  assumes ok: "core_ok s"
    and keep: "\<And>t. P t \<Longrightarrow> t_id (f t) = t_id t"
    and final: "\<And>t a. P t \<Longrightarrow> t \<in> set (tasks s) \<Longrightarrow> a \<in> set (assignments s) \<Longrightarrow> active a \<Longrightarrow> a_task a = t_id t \<Longrightarrow>
      t_state (f t) \<noteq> ''cancelled'' \<and> (a_role a = ''executor'' \<longrightarrow> t_state (f t) \<noteq> ''done'')"
  shows "core_ok (update_tasks P f s)"
proof -
  have ids: "map t_id (update_where P f (tasks s)) = map t_id (tasks s)"
    using keep by (simp add: map_update_where)
  then have sets: "t_id ` set (update_where P f (tasks s)) = t_id ` set (tasks s)"
    by (metis list.set_map)
  have source: "task_is (a_task a) st (update_tasks P f s) \<Longrightarrow>
      task_is (a_task a) st s \<or> (\<exists>t \<in> set (tasks s). P t \<and> t_id t = a_task a \<and> t_state (f t) = st)" for a st
    using keep by (auto simp: task_is_def update_tasks_def set_update_where split: if_splits)
  have "\<not> task_is (a_task a) ''cancelled'' (update_tasks P f s)
      \<and> (a_role a = ''executor'' \<longrightarrow> \<not> task_is (a_task a) ''done'' (update_tasks P f s))"
    if "a \<in> set (filter active (assignments s))" for a
  proof -
    from that have a: "a \<in> set (assignments s)" "active a" by simp_all
    from that ok have "\<not> task_is (a_task a) ''cancelled'' s"
      "a_role a = ''executor'' \<Longrightarrow> \<not> task_is (a_task a) ''done'' s"
      unfolding core_ok_def by blast+
    then show ?thesis using source [of a] final [OF _ _ a] by metis
  qed
  then show ?thesis
    using ok ids sets unfolding core_ok_def by (simp add: update_tasks_def)
qed

lemma core_ok_append_task:
  assumes ok: "core_ok s" and fresh: "find_task (t_id t) s = None"
  shows "core_ok (s\<lparr>tasks := tasks s @ [t]\<rparr>)"
proof -
  have new: "t_id t \<notin> t_id ` set (tasks s)" using fresh find_task_in by blast
  have "a_task a \<in> t_id ` set (tasks s)" if "a \<in> set (assignments s)" for a
    using that ok unfolding core_ok_def by blast
  with new have "a_task a \<noteq> t_id t" if "a \<in> set (assignments s)" for a
    using that by metis
  with ok new show ?thesis
    unfolding core_ok_def by (auto simp: task_is_def image_subset_iff)
qed


text \<open>A row comes back to a filtered view: no other row of the view has its key.\<close>

lemma distinct_filter_reactivate:
  assumes "distinct (map key rows)" "distinct (map k (filter Q rows))"
    and "\<And>r. r \<in> set rows \<Longrightarrow> P r \<Longrightarrow> key r = i \<and> k r = z \<and> k (f r) = z"
    and "\<And>r. r \<in> set rows \<Longrightarrow> Q r \<Longrightarrow> k r = z \<Longrightarrow> key r = i"
  shows "distinct (map k (filter Q (update_where P f rows)))"
  using assms
proof (induction rows)
  case Nil
  then show ?case by simp
next
  case (Cons r rs)
  have ih: "distinct (map k (filter Q (update_where P f rs)))"
    using Cons.prems by (intro Cons.IH) (auto split: if_splits)
  have d: "distinct (map k (filter Q rs))" using Cons.prems(2) by (simp split: if_splits)
  show ?case
  proof (cases "key r = i")
    case True
    with Cons.prems(1) have "\<forall>q \<in> set rs. key q \<noteq> i" by (auto dest!: sym [of "key _" "key r"])
    with Cons.prems(3,4) have no: "\<not> list_ex P rs" "\<forall>q \<in> set rs. Q q \<longrightarrow> k q \<noteq> z"
      by (auto simp: list_ex_iff)
    then show ?thesis
      using d Cons.prems(2) Cons.prems(3) [of r] by (auto simp: update_where_none split: if_splits)
  next
    case False
    with Cons.prems(3) have no: "\<not> P r" by auto
    have "k r \<notin> k ` set (filter Q (update_where P f rs))" if "Q r"
    proof
      assume "k r \<in> k ` set (filter Q (update_where P f rs))"
      then obtain q where q: "q \<in> set rs" "k (if P q then f q else q) = k r" "Q (if P q then f q else q)"
        by (auto simp: set_update_where)
      have "k r \<noteq> z" using Cons.prems(4) [of r] that False by auto
      with q Cons.prems(3) [of q] have "\<not> P q" by auto
      with q have "k r \<in> k ` set (filter Q rs)" by (intro rev_image_eqI [of q]) simp_all
      with Cons.prems(2) that show False by simp
    qed
    with no ih show ?thesis by simp
  qed
qed

lemma core_ok_reactivate:
  assumes ok: "core_ok s" and a: "find_assignment i s = Some a"
    and keep: "\<And>b. P b \<Longrightarrow> a_id b = i \<and> a_id (f b) = a_id b \<and> a_task (f b) = a_task b \<and> a_role (f b) = a_role b
      \<and> a_agent (f b) = a_agent b"
    and alone: "\<not> list_ex (\<lambda>b. a_task b = a_task a \<and> a_role b = a_role a \<and> a_status b = ''active'' \<and> a_id b \<noteq> i)
      (assignments s)"
    and task: "find_task (a_task a) s = Some t" "t_state t \<noteq> ''done''" "t_state t \<noteq> ''cancelled''"
  shows "core_ok (update_assignments P f s)"
proof -
  let ?A = "update_where P f (assignments s)"
  have only_a: "b = a" if "b \<in> set (assignments s)" "P b" for b
    using ok that keep [OF that(2)] find_assignment_SomeD [OF a]
      distinct_map_inj [of a_id "assignments s" b a] by (simp add: core_ok_def)
  have only_t: "u = t" if "u \<in> set (tasks s)" "t_id u = a_task a" for u
    using that ok distinct_map_inj [of t_id "tasks s" u t] find_task_SomeD [OF task(1)]
    by (auto simp: core_ok_def)
  then have open_task: "\<not> task_is (a_task a) ''cancelled'' s" "\<not> task_is (a_task a) ''done'' s"
    using task by (auto simp: task_is_def)
  have ids: "map a_id ?A = map a_id (assignments s)" "map a_task ?A = map a_task (assignments s)"
    "map (\<lambda>a. (a_id a, a_task a, a_agent a)) ?A = map (\<lambda>a. (a_id a, a_task a, a_agent a)) (assignments s)"
    using keep by (simp_all add: map_update_where)
  have sets: "a_task ` set ?A = a_task ` set (assignments s)"
    "(\<lambda>a. (a_id a, a_task a, a_agent a)) ` set ?A = (\<lambda>a. (a_id a, a_task a, a_agent a)) ` set (assignments s)"
    using arg_cong [OF ids(2), of set] arg_cong [OF ids(3), of set] unfolding list.set_map by simp_all
  have dist: "distinct (map (\<lambda>a. (a_task a, a_role a)) (filter active ?A))"
  proof (rule distinct_filter_reactivate [where key = a_id and i = i and z = "(a_task a, a_role a)"])
    fix b assume "b \<in> set (assignments s)" "P b"
    with only_a keep show "a_id b = i \<and> (a_task b, a_role b) = (a_task a, a_role a)
        \<and> (a_task (f b), a_role (f b)) = (a_task a, a_role a)" by metis
  next
    fix b assume "b \<in> set (assignments s)" "active b" "(a_task b, a_role b) = (a_task a, a_role a)"
    with alone show "a_id b = i" by (auto simp: list_ex_iff active_def)
  qed (use ok in \<open>auto simp: core_ok_def\<close>)
  have fin: "\<not> task_is (a_task b) ''cancelled'' s \<and> (a_role b = ''executor'' \<longrightarrow> \<not> task_is (a_task b) ''done'' s)"
    if b: "b \<in> set (filter active ?A)" for b
  proof -
    from b obtain c where c: "c \<in> set (assignments s)" "b = (if P c then f c else c)" "active b"
      by (auto simp: set_update_where)
    show ?thesis
    proof (cases "P c")
      case True
      with c only_a keep [OF True] have "a_task b = a_task a" by auto
      with open_task show ?thesis by simp
    next
      case False
      with c have "c \<in> set (filter active (assignments s))" "b = c" by auto
      with ok show ?thesis unfolding core_ok_def by blast
    qed
  qed
  show ?thesis
    using ok ids(1) dist sets fin unfolding core_ok_def by (simp add: update_assignments_def task_is_def)
qed

text \<open>Only a task without assignments is deleted.\<close>

lemma core_ok_delete_task:
  assumes ok: "core_ok s" and idle: "\<not> list_ex (\<lambda>a. a_task a = i) (assignments s)"
  shows "filter (\<lambda>a. a_task a \<noteq> i) (assignments s) = assignments s"
    and "filter (\<lambda>r. r_task r \<noteq> i) (runs s) = runs s"
    and "tasks s' = filter (\<lambda>t. t_id t \<noteq> i) (tasks s) \<Longrightarrow> assignments s' = assignments s \<Longrightarrow> runs s' = runs s
      \<Longrightarrow> core_ok s'"
proof -
  from idle have a: "a_task a \<noteq> i" if "a \<in> set (assignments s)" for a
    using that by (auto simp: list_ex_iff)
  then show "filter (\<lambda>a. a_task a \<noteq> i) (assignments s) = assignments s" by (simp add: filter_id_conv)
  have "r_task r \<noteq> i" if "r \<in> set (runs s)" for r
  proof -
    from ok that have "(r_assignment r, r_task r, r_agent r) \<in> (\<lambda>a. (a_id a, a_task a, a_agent a)) ` set (assignments s)"
      unfolding core_ok_def by blast
    then obtain a' where "a' \<in> set (assignments s)" "r_task r = a_task a'" by auto
    with a [of a'] show ?thesis by simp
  qed
  then show "filter (\<lambda>r. r_task r \<noteq> i) (runs s) = runs s" by (simp add: filter_id_conv)
  assume t: "tasks s' = filter (\<lambda>t. t_id t \<noteq> i) (tasks s)" "assignments s' = assignments s" "runs s' = runs s"
  have refs: "a_task ` set (assignments s) \<subseteq> t_id ` set (tasks s')"
  proof (rule image_subsetI)
    fix a' assume a': "a' \<in> set (assignments s)"
    from ok have "a_task ` set (assignments s) \<subseteq> t_id ` set (tasks s)" by (simp add: core_ok_def)
    from subsetD [OF this imageI [OF a']] obtain t where "t \<in> set (tasks s)" "t_id t = a_task a'"
      by (elim imageE) simp
    with a [OF a'] show "a_task a' \<in> t_id ` set (tasks s')"
      unfolding t(1) by (intro image_eqI [of _ _ t]) simp_all
  qed
  have dist: "distinct (map t_id (tasks s'))"
    using ok unfolding core_ok_def t(1) by (blast intro: distinct_map_filter)
  have less: "\<not> task_is k st s \<Longrightarrow> \<not> task_is k st s'" for k st
    by (auto simp: t(1) task_is_def)
  show "core_ok s'"
    unfolding core_ok_def t(2,3) using ok [unfolded core_ok_def]
  proof (elim conjE, intro conjI)
    assume open_tasks: "\<forall>a \<in> set (filter active (assignments s)). \<not> task_is (a_task a) ''cancelled'' s
        \<and> (a_role a = ''executor'' \<longrightarrow> \<not> task_is (a_task a) ''done'' s)"
    show "\<forall>a \<in> set (filter active (assignments s)). \<not> task_is (a_task a) ''cancelled'' s'
        \<and> (a_role a = ''executor'' \<longrightarrow> \<not> task_is (a_task a) ''done'' s')"
      using open_tasks less by simp
  qed (assumption | rule dist refs)+
qed

subsection \<open>Rows that are final\<close>

definition run_final :: "run \<Rightarrow> bool" where
  "run_final r \<longleftrightarrow> r_status r \<in> {''completed'', ''cancelled'', ''failed'', ''handed_off'', ''abandoned''}"

definition run_moves :: "run \<Rightarrow> run \<Rightarrow> bool" where
  "run_moves r r' \<longleftrightarrow>
     r_id r' = r_id r \<and> r_task r' = r_task r \<and> r_assignment r' = r_assignment r \<and> r_agent r' = r_agent r
     \<and> r_conversation r' = r_conversation r \<and> r_started_at r' = r_started_at r
     \<and> (run_final r \<longrightarrow> r' = r)"

interpretation run_cycle: row_lifecycle r_id run_moves run_final
  by unfold_locales (auto simp: run_moves_def)

definition assignment_final :: "assignment \<Rightarrow> bool" where
  "assignment_final a \<longleftrightarrow> a_status a \<in> {''completed'', ''released''}"

definition assignment_moves :: "assignment \<Rightarrow> assignment \<Rightarrow> bool" where
  "assignment_moves a a' \<longleftrightarrow>
     a_id a' = a_id a \<and> a_task a' = a_task a \<and> a_role a' = a_role a \<and> a_agent a' = a_agent a
     \<and> a_acquired_at a' = a_acquired_at a \<and> (assignment_final a \<longrightarrow> a' = a)"

interpretation assignment_cycle: row_lifecycle a_id assignment_moves assignment_final
  by unfold_locales (auto simp: assignment_moves_def)

end
