(* ===== verification/System.thy ===== *)
theory System
  imports Lifecycle
begin

text \<open>
  The store as a state machine: one step per committed operation, the invariant every step
  keeps, and the rows no step changes any more.
\<close>

subsection \<open>The invariant of the store\<close>

definition pending :: "task_revision \<Rightarrow> bool" where
  "pending v \<longleftrightarrow> tr_status v = ''pending_ack''"

definition revisions_ok :: "db \<Rightarrow> bool" where
  "revisions_ok s \<longleftrightarrow>
     distinct (map tr_id (revisions s))
     \<and> distinct (map (\<lambda>v. (tr_task v, tr_version v)) (revisions s))
     \<and> distinct (map tr_task (filter pending (revisions s)))"

definition store_ok :: "db \<Rightarrow> bool" where
  "store_ok s \<longleftrightarrow> core_ok s \<and> graph_ok s \<and> contexts_ok s \<and> revisions_ok s"

text \<open>What a step keeps: the invariant, and the rows that are final.\<close>

definition keeps :: "db \<Rightarrow> db \<Rightarrow> bool" where
  "keeps s s' \<longleftrightarrow>
     (store_ok s \<longrightarrow> store_ok s'
        \<and> advances run_moves (runs s) (runs s')
        \<and> advances assignment_moves (assignments s) (assignments s')
        \<and> settled delivered (deliveries s) (deliveries s'))"

lemma keeps_refl [simp]: "keeps s s"
  by (simp add: keeps_def run_cycle.advances_refl assignment_cycle.advances_refl settled_refl)

lemma keeps_trans: "keeps s s' \<Longrightarrow> keeps s' s'' \<Longrightarrow> keeps s s''"
  unfolding keeps_def
  by (meson run_cycle.advances_trans assignment_cycle.advances_trans settled_trans)

lemma contexts_ok_cong: "contexts s' = contexts s \<Longrightarrow> contexts_ok s' = contexts_ok s"
  by (simp add: contexts_ok_def history_def)

lemma revisions_ok_cong: "revisions s' = revisions s \<Longrightarrow> revisions_ok s' = revisions_ok s"
  by (simp add: revisions_ok_def)

lemma keepsI:
  assumes "store_ok s \<Longrightarrow> core_ok s'" "store_ok s \<Longrightarrow> graph_ok s'"
    "store_ok s \<Longrightarrow> contexts_ok s'" "store_ok s \<Longrightarrow> revisions_ok s'"
    "store_ok s \<Longrightarrow> advances run_moves (runs s) (runs s')"
    "store_ok s \<Longrightarrow> advances assignment_moves (assignments s) (assignments s')"
    "store_ok s \<Longrightarrow> advances delivery_moves (deliveries s) (deliveries s')"
  shows "keeps s s'"
  using assms delivery_cycle.advances_settled by (simp add: keeps_def store_ok_def)

text \<open>A change of the task, assignment and run tables.\<close>

lemma keeps_coreI:
  assumes "store_ok s \<Longrightarrow> core_ok s'"
    and "t_id ` set (tasks s) \<subseteq> t_id ` set (tasks s')"
    and "dependencies s' = dependencies s" "chain_members s' = chain_members s"
    and "contexts s' = contexts s" "revisions s' = revisions s" "deliveries s' = deliveries s"
    and "store_ok s \<Longrightarrow> advances run_moves (runs s) (runs s')"
    and "store_ok s \<Longrightarrow> advances assignment_moves (assignments s) (assignments s')"
  shows "keeps s s'"
  using assms graph_ok_cong [OF assms(3,4,2)] contexts_ok_cong [OF assms(5)] revisions_ok_cong [OF assms(6)]
  by (intro keepsI) (simp_all add: store_ok_def delivery_cycle.advances_refl)

lemma keeps_same:
  assumes "tasks s' = tasks s" "assignments s' = assignments s" "runs s' = runs s"
    and "dependencies s' = dependencies s" "chain_members s' = chain_members s"
    and "contexts s' = contexts s" "revisions s' = revisions s" "deliveries s' = deliveries s"
  shows "keeps s s'"
  by (rule keeps_coreI)
    (simp_all add: assms store_ok_def core_ok_same [OF _ assms(1-3)] run_cycle.advances_refl assignment_cycle.advances_refl)

lemma keeps_append_event [simp]:
  "keeps s (append_event_tx at ai et ei ty pl co now s') = keeps s s'"
proof
  have "keeps s' (append_event_tx at ai et ei ty pl co now s')"
    by (rule keeps_same) (simp_all add: append_event_tx_def)
  then show "keeps s s' \<Longrightarrow> keeps s (append_event_tx at ai et ei ty pl co now s')"
    by (rule keeps_trans [rotated])
  have "keeps (append_event_tx at ai et ei ty pl co now s') s'"
    by (rule keeps_same) (simp_all add: append_event_tx_def)
  then show "keeps s (append_event_tx at ai et ei ty pl co now s') \<Longrightarrow> keeps s s'"
    by (rule keeps_trans [rotated])
qed

text \<open>Tables outside the invariant.\<close>

lemma keeps_other_table:
  assumes "keeps s' s''" "keeps s'' s'"
  shows "keeps s s'' = keeps s s'"
  using assms by (blast intro: keeps_trans)

lemma keeps_other_tables [simp]:
  "keeps s (s'\<lparr>threads := x1\<rparr>) = keeps s s'" "keeps s (s'\<lparr>messages := x2\<rparr>) = keeps s s'"
  "keeps s (s'\<lparr>intakes := x3\<rparr>) = keeps s s'" "keeps s (s'\<lparr>receipts := x4\<rparr>) = keeps s s'"
  "keeps s (s'\<lparr>requests := x5\<rparr>) = keeps s s'" "keeps s (s'\<lparr>group_members := x6\<rparr>) = keeps s s'"
  "keeps s (s'\<lparr>task_groups := x7\<rparr>) = keeps s s'" "keeps s (s'\<lparr>task_chains := x8\<rparr>) = keeps s s'"
  "keeps s (s'\<lparr>projects := x9\<rparr>) = keeps s s'" "keeps s (s'\<lparr>run_contexts := x10\<rparr>) = keeps s s'"
  "keeps s (s'\<lparr>takeovers := y0\<rparr>) = keeps s s'" "keeps s (s'\<lparr>policies := y1\<rparr>) = keeps s s'"
  "keeps s (s'\<lparr>continuations := y2\<rparr>) = keeps s s'" "keeps s (s'\<lparr>dispatch_decisions := y3\<rparr>) = keeps s s'"
  "keeps s (s'\<lparr>schedulers := y4\<rparr>) = keeps s s'" "keeps s (s'\<lparr>relationships := y5\<rparr>) = keeps s s'"
  "keeps s (s'\<lparr>artifacts := y6\<rparr>) = keeps s s'" "keeps s (s'\<lparr>decisions := y7\<rparr>) = keeps s s'"
  "keeps s (s'\<lparr>handoffs := y8\<rparr>) = keeps s s'" "keeps s (s'\<lparr>handoff_refs := y9\<rparr>) = keeps s s'"
  "keeps s (s'\<lparr>milestones := y10\<rparr>) = keeps s s'" "keeps s (s'\<lparr>milestone_refs := y11\<rparr>) = keeps s s'"
  "keeps s (s'\<lparr>job_waits := y12\<rparr>) = keeps s s'" "keeps s (s'\<lparr>terminal_events := y13\<rparr>) = keeps s s'"
  "keeps s (s'\<lparr>adhoc_bindings := y14\<rparr>) = keeps s s'" "keeps s (s'\<lparr>outbox := y15\<rparr>) = keeps s s'"
  "keeps s (s'\<lparr>runtime_bindings := y16\<rparr>) = keeps s s'" "keeps s (s'\<lparr>provisionings := y17\<rparr>) = keeps s s'"
  "keeps s (s'\<lparr>launch_attempts := y18\<rparr>) = keeps s s'" "keeps s (s'\<lparr>launch_profiles := y19\<rparr>) = keeps s s'"
  "keeps s (s'\<lparr>jobs := y20\<rparr>) = keeps s s'" "keeps s (s'\<lparr>instructions := y21\<rparr>) = keeps s s'"
  "keeps s (s'\<lparr>agents := y22\<rparr>) = keeps s s'" "keeps s (s'\<lparr>profiles := y23\<rparr>) = keeps s s'"
  "keeps s (s'\<lparr>accounts := y24\<rparr>) = keeps s s'" "keeps s (s'\<lparr>machines := y25\<rparr>) = keeps s s'"
  "keeps s (s'\<lparr>capacities := y26\<rparr>) = keeps s s'" "keeps s (s'\<lparr>memories := y27\<rparr>) = keeps s s'"
  "keeps s (s'\<lparr>packages := y28\<rparr>) = keeps s s'" "keeps s (s'\<lparr>events := y29\<rparr>) = keeps s s'"
  by (rule keeps_other_table; rule keeps_same; simp)+

subsection \<open>Statements that keep the invariant\<close>

lemma update_statements_tables [simp]:
  "runs (update_assignments P f s) = runs s" "tasks (update_assignments P f s) = tasks s"
  "runs (update_tasks Q g s) = runs s" "assignments (update_tasks Q g s) = assignments s"
  "assignments (update_runs R h s) = assignments s" "tasks (update_runs R h s) = tasks s"
  by (simp_all add: update_assignments_def update_tasks_def update_runs_def)

lemma update_where_set: "update_where P f rows = update_where (\<lambda>r. P r \<and> r \<in> set rows) f rows"
  by (simp add: update_where_def)

lemma keeps_update_assignments:
  assumes "\<And>a. store_ok s \<Longrightarrow> a \<in> set (assignments s) \<Longrightarrow> P a \<Longrightarrow>
    assignment_moves a (f a) \<and> (active (f a) \<longrightarrow> active a)"
  shows "keeps s (update_assignments P f s)"
proof -
  let ?P = "\<lambda>a. P a \<and> a \<in> set (assignments s)"
  have same: "update_assignments P f s = update_assignments ?P f s"
    unfolding update_assignments_def using update_where_set [of P f "assignments s"] by simp
  have core: "core_ok (update_assignments ?P f s)" if "store_ok s"
    using that assms [OF that] by (intro core_ok_release) (auto simp: store_ok_def assignment_moves_def)
  have adv: "advances assignment_moves (assignments s) (assignments (update_assignments ?P f s))" if "store_ok s"
    using assms [OF that] unfolding update_assignments_def
    by (auto intro: assignment_cycle.advances_update_where)
  show ?thesis
    unfolding same
    by (rule keeps_coreI) (simp_all add: core adv, simp_all add: update_assignments_def run_cycle.advances_refl)
qed

lemma keeps_update_runs:
  assumes "\<And>r. store_ok s \<Longrightarrow> r \<in> set (runs s) \<Longrightarrow> P r \<Longrightarrow> run_moves r (f r) \<and> (live (f r) \<longrightarrow> live r)"
  shows "keeps s (update_runs P f s)"
proof -
  let ?P = "\<lambda>r. P r \<and> r \<in> set (runs s)"
  have same: "update_runs P f s = update_runs ?P f s"
    unfolding update_runs_def using update_where_set [of P f "runs s"] by simp
  have core: "core_ok (update_runs ?P f s)" if "store_ok s"
    using that assms [OF that] by (intro core_ok_update_runs) (auto simp: store_ok_def run_moves_def)
  have adv: "advances run_moves (runs s) (runs (update_runs ?P f s))" if "store_ok s"
    using assms [OF that] unfolding update_runs_def by (auto intro: run_cycle.advances_update_where)
  show ?thesis
    unfolding same
    by (rule keeps_coreI) (simp_all add: core adv, simp_all add: update_runs_def assignment_cycle.advances_refl)
qed

lemma active_task_open:
  assumes "core_ok s" "a \<in> set (assignments s)" "active a" "t \<in> set (tasks s)" "t_id t = a_task a"
  shows "t_state t \<noteq> ''cancelled''" and "a_role a = ''executor'' \<Longrightarrow> t_state t \<noteq> ''done''"
proof -
  have "a \<in> set (filter active (assignments s))" using assms by simp
  with assms(1) have "\<not> task_is (a_task a) ''cancelled'' s"
    "a_role a = ''executor'' \<longrightarrow> \<not> task_is (a_task a) ''done'' s"
    unfolding core_ok_def by blast+
  with assms(4,5) show "t_state t \<noteq> ''cancelled''" "a_role a = ''executor'' \<Longrightarrow> t_state t \<noteq> ''done''"
    by (auto simp: task_is_def)
qed

lemma keeps_update_tasks_final:
  assumes "\<And>t. P t \<Longrightarrow> t_id (f t) = t_id t"
    and "\<And>t a. store_ok s \<Longrightarrow> P t \<Longrightarrow> t \<in> set (tasks s) \<Longrightarrow> a \<in> set (assignments s) \<Longrightarrow> active a
      \<Longrightarrow> a_task a = t_id t \<Longrightarrow>
      t_state (f t) \<noteq> ''cancelled'' \<and> (a_role a = ''executor'' \<longrightarrow> t_state (f t) \<noteq> ''done'')"
  shows "keeps s (update_tasks P f s)"
proof (rule keeps_coreI)
  show "core_ok (update_tasks P f s)" if "store_ok s"
    using that assms(2) [OF that] by (intro core_ok_update_tasks assms(1)) (auto simp: store_ok_def)
  have "map t_id (update_where P f (tasks s)) = map t_id (tasks s)"
    using assms(1) by (simp add: map_update_where)
  then have "t_id ` set (update_where P f (tasks s)) = t_id ` set (tasks s)"
    by (metis list.set_map)
  then show "t_id ` set (tasks s) \<subseteq> t_id ` set (tasks (update_tasks P f s))"
    by (simp add: update_tasks_def)
qed (simp_all add: update_tasks_def run_cycle.advances_refl assignment_cycle.advances_refl)

lemma keeps_update_tasks:
  assumes "\<And>t. P t \<Longrightarrow> t_id (f t) = t_id t
    \<and> (t_state (f t) = t_state t \<or> t_state (f t) \<noteq> ''done'' \<and> t_state (f t) \<noteq> ''cancelled'')"
  shows "keeps s (update_tasks P f s)"
proof (rule keeps_update_tasks_final)
  show "P t \<Longrightarrow> t_id (f t) = t_id t" for t using assms by blast
  show "t_state (f t) \<noteq> ''cancelled'' \<and> (a_role a = ''executor'' \<longrightarrow> t_state (f t) \<noteq> ''done'')"
    if "store_ok s" "P t" "t \<in> set (tasks s)" "a \<in> set (assignments s)" "active a" "a_task a = t_id t" for t a
    using assms [OF that(2)] active_task_open [of s a t] that by (auto simp: store_ok_def)
qed

lemma keeps_insert_assignment:
  assumes "insert_assignment a s = Inr s'"
    and "find_task (a_task a) s = Some t" "t_state t \<noteq> ''done''" "t_state t \<noteq> ''cancelled''" "a_status a = ''active''"
  shows "keeps s s'"
proof -
  from assms(1,5) have s': "s' = s\<lparr>assignments := assignments s @ [a]\<rparr>"
    and fresh: "\<not> list_ex (\<lambda>b. a_id b = a_id a) (assignments s)"
    and unique: "\<not> list_ex (\<lambda>b. a_task b = a_task a \<and> a_role b = a_role a \<and> a_status b = ''active'') (assignments s)"
    by (simp_all add: insert_assignment_Inr)
  show ?thesis
    unfolding s' using core_ok_append_assignment [OF _ fresh unique assms(2-4)]
    by (intro keeps_coreI) (simp_all add: store_ok_def run_cycle.advances_refl assignment_cycle.advances_append)
qed

lemma keeps_insert_run:
  assumes "insert_run r s = Inr s'"
    and "find_assignment (r_assignment r) s = Some a" "a_task a = r_task r" "a_agent a = r_agent r"
    and "\<not> list_ex (\<lambda>q. r_assignment q = r_assignment r \<and> r_status q \<in> live_statuses) (runs s)"
  shows "keeps s s'"
proof -
  from assms(1) have s': "s' = s\<lparr>runs := runs s @ [r]\<rparr>"
    and fresh: "\<not> list_ex (\<lambda>q. r_id q = r_id r) (runs s)"
    by (simp_all add: insert_run_Inr)
  have idle: "\<not> list_ex (\<lambda>q. r_assignment q = r_assignment r \<and> live q) (runs s)"
    using assms(5) by (simp add: live_def)
  have core: "core_ok (s\<lparr>runs := runs s @ [r]\<rparr>)" if "core_ok s"
    using find_assignment_SomeD [OF assms(2)] assms(3,4)
    by (intro core_ok_append_run [OF that fresh _ _ _ _ idle, of a]) simp_all
  show ?thesis
    unfolding s' using core
    by (intro keeps_coreI) (simp_all add: store_ok_def run_cycle.advances_append assignment_cycle.advances_refl)
qed

lemma keeps_revisions:
  assumes "tasks s' = tasks s" "assignments s' = assignments s" "runs s' = runs s"
    and "dependencies s' = dependencies s" "chain_members s' = chain_members s"
    and "contexts s' = contexts s" "deliveries s' = deliveries s"
    and "revisions_ok s \<Longrightarrow> revisions_ok s'"
  shows "keeps s s'"
  using assms graph_ok_cong [OF assms(4,5)] contexts_ok_cong [OF assms(6)]
  by (intro keepsI) (simp_all add: store_ok_def core_ok_same [OF _ assms(1-3)] run_cycle.advances_refl
      assignment_cycle.advances_refl delivery_cycle.advances_refl)

text \<open>Statements on revisions only settle pending ones.\<close>

lemma revisions_ok_settle:
  assumes "revisions_ok s"
    and "\<And>v. P v \<Longrightarrow> tr_id (f v) = tr_id v \<and> tr_task (f v) = tr_task v \<and> tr_version (f v) = tr_version v \<and> \<not> pending (f v)"
    and "revisions s' = update_where P f (revisions s)"
  shows "revisions_ok s'"
  using assms filter_subseq_update_where [of P pending f tr_task "revisions s"]
  unfolding revisions_ok_def assms(3) by (simp add: map_update_where)

lemma revisions_ok_insert:
  assumes "revisions_ok s" "insert_revision v s = Inr s'"
  shows "revisions_ok s'"
proof -
  from assms(2) have s': "revisions s' = revisions s @ [v]"
    and new: "tr_id v \<notin> tr_id ` set (revisions s)"
      "(tr_task v, tr_version v) \<notin> (\<lambda>v. (tr_task v, tr_version v)) ` set (revisions s)"
      "pending v \<Longrightarrow> tr_task v \<notin> tr_task ` set (filter pending (revisions s))"
    by (force simp: insert_revision_def list_ex_iff pending_def split: if_splits)+
  with assms(1) show ?thesis by (simp add: revisions_ok_def)
qed

subsection \<open>Operations on tasks, assignments and runs\<close>

lemma keeps_commit_then:
  assumes "\<And>y s'. body s = Inr (y, s') \<Longrightarrow> keeps s s'"
  shows "keeps s (snd (commit_then body rd s))"
  by (rule commit_then_invariant [where I = "keeps s"]) (simp_all add: assms)

lemma keeps_commit:
  assumes "\<And>y s'. body s = Inr (y, s') \<Longrightarrow> keeps s s'"
  shows "keeps s (snd (commit body s))"
  unfolding commit_def using assms by (rule keeps_commit_then)

lemma keeps_checked:
  assumes "\<And>y. pre s = Inr y \<Longrightarrow> keeps s (snd (run y s))"
  shows "keeps s (snd (checked pre run s))"
  by (rule checked_invariant [where I = "keeps s"]) (simp_all add: assms)

lemmas keeps_operation = keeps_checked keeps_commit keeps_commit_then

lemma keeps_create_intake:
  "create_assignment_intake_tx i task agent now s = Inr s' \<Longrightarrow> keeps s s'"
  by (auto simp: create_assignment_intake_tx_def Let_def intro!: keeps_same split: if_splits)

lemma keeps_claim_task_tx:
  assumes "claim_task_tx x task agent role n intake fresh now s = Inr (a, s')"
  shows "keeps s s'"
proof -
  let ?a = "\<lparr>a_id = fresh, a_task = task, a_role = role, a_agent = agent, a_status = ''active'',
      a_phase = (if intake \<and> role = ''executor'' then context_review else implementing),
      a_acquired_at = now, a_expires_at = lease_end now n, a_renewed_at = now,
      a_released_at = None, a_release_reason = None\<rparr>"
  from assms obtain s1 s2 where
    insert: "(case find_task task s of
          None \<Rightarrow> Inl (NotFound (''task '' @ task))
        | Some t \<Rightarrow>
            if t_state t = ''done'' \<or> t_state t = ''cancelled''
            then Inl (Conflict (''task is '' @ t_state t))
            else (case insert_assignment ?a s of
                Inl UniqueViolation \<Rightarrow>
                  Inl (Conflict (''task role '' @ [CHR 0x27] @ role @ [CHR 0x27] @ '' already has an active assignment''))
              | Inl e \<Rightarrow> Inl (storage e)
              | Inr s' \<Rightarrow> Inr s')) = Inr s1"
    and s2: "(if intake \<and> role = ''executor'' then create_assignment_intake_tx fresh task agent now s1 else Inr s1) = Inr s2"
    and s': "keeps s s' = keeps s (update_tasks (\<lambda>t. t_id t = task)
        (\<lambda>t. t\<lparr>t_state := (if role = ''executor'' \<and> t_state t = ''ready'' then ''in_progress'' else t_state t),
             t_updated_at := now\<rparr>) s2)"
    unfolding claim_task_tx_def res_simps Let_def
    by (elim exE conjE) (rule that, assumption+, drule sym, simp)
  from insert obtain t where t: "find_task task s = Some t" "t_state t \<noteq> ''done''" "t_state t \<noteq> ''cancelled''"
    and s1: "insert_assignment ?a s = Inr s1"
    by (auto split: option.splits if_splits sum.splits sql_error.splits)
  have "keeps s s1" using keeps_insert_assignment [OF s1] t by simp
  moreover have "keeps s1 s2" using s2 keeps_create_intake by (auto split: if_splits)
  ultimately have "keeps s s2" by (rule keeps_trans)
  then show ?thesis unfolding s' by (rule keeps_trans) (rule keeps_update_tasks, simp)
qed

lemma keeps_enforce_execution_phase:
  "enforce_execution_phase_tx x a s = Inr s' \<Longrightarrow> keeps s s'"
  by (auto simp: enforce_execution_phase_tx_def res_simps assignment_moves_def active_def assignment_final_def
      intro!: keeps_update_assignments split: if_splits)

lemma execution_phase_assignment:
  assumes "enforce_execution_phase_tx x b s = Inr s'" "find_assignment i s = Some a"
  shows "\<exists>a'. find_assignment i s' = Some a' \<and> a_task a' = a_task a \<and> a_agent a' = a_agent a \<and> runs s' = runs s"
proof -
  have *: "find_assignment i (update_assignments P (\<lambda>b. b\<lparr>a_phase := p\<rparr>) s)
      = Some (if P a then a\<lparr>a_phase := p\<rparr> else a)" for P p
    using assms(2) by (simp add: find_assignment_def update_assignments_def find_update_where)
  from assms show ?thesis
    by (auto simp: enforce_execution_phase_tx_def res_simps * split: if_splits)
qed

lemma keeps_start_run_tx:
  assumes "start_run_tx x i actor conversation enforce fresh now s = Inr (v, s')"
  shows "keeps s s'"
proof -
  have run: "keeps s s2" if a: "find_assignment i s = Some a"
    and idle: "\<not> list_ex (\<lambda>r. r_assignment r = i \<and> r_status r \<in> live_statuses) (runs s)"
    and s1: "(if enforce then enforce_execution_phase_tx x a s else Inr s) = Inr s1"
    and s2: "insert_run \<lparr>r_id = fresh, r_task = a_task a, r_assignment = i, r_agent = a_agent a,
          r_conversation = conversation, r_status = ''running'', r_stop_reason = None,
          r_checkpoint = None, r_result = None, r_started_at = now, r_ended_at = None\<rparr> s1 = Inr s2" for a s1 s2
  proof -
    have "keeps s s1" using s1 keeps_enforce_execution_phase by (auto split: if_splits)
    moreover obtain a' where "find_assignment i s1 = Some a'" "a_task a' = a_task a" "a_agent a' = a_agent a"
      "runs s1 = runs s"
      using s1 execution_phase_assignment [OF _ a] a by (auto split: if_splits)
    then have "keeps s1 s2" using keeps_insert_run [OF s2] idle by simp
    ultimately show ?thesis by (rule keeps_trans)
  qed
  have pinned: "keeps s s3" if "keeps s s2" "insert_run_context c s2 = Inr s3" for c s2 s3
    using that(1) by (rule keeps_trans)
      (use that(2) in \<open>auto simp: insert_run_context_def intro!: keeps_same split: if_splits\<close>)
  from assms obtain a s1 s2 s3 where
    a: "find_assignment i s = Some a"
    and idle: "\<not> list_ex (\<lambda>r. r_assignment r = i \<and> r_status r \<in> live_statuses) (runs s)"
    and s1: "(if enforce then enforce_execution_phase_tx x a s else Inr s) = Inr s1"
    and s2: "insert_run \<lparr>r_id = fresh, r_task = a_task a, r_assignment = i, r_agent = a_agent a,
          r_conversation = conversation, r_status = ''running'', r_stop_reason = None,
          r_checkpoint = None, r_result = None, r_started_at = now, r_ended_at = None\<rparr> s1 = Inr s2"
    and s3: "(case Option.bind (find_task (a_task a) s1) t_context of None \<Rightarrow> Inr s2
       | Some c \<Rightarrow> exec (insert_run_context \<lparr>rc_run = fresh, rc_context = c, rc_pinned_at = now\<rparr> s2)) = Inr s3"
    and s': "keeps s s' = keeps s s3"
    unfolding start_run_tx_def res_simps Let_def
    by (elim exE conjE) (rule that, assumption+, drule sym, simp)
  from run [OF a idle s1 s2] have "keeps s s2" .
  with s3 have "keeps s s3" by (auto simp: res_simps intro: pinned split: option.splits)
  with s' show ?thesis by simp
qed

lemma keeps_claim_for_execution_tx:
  assumes "claim_task_for_execution_tx x task agent role n fresh_a fresh_r now s = Inr (y, s')"
  shows "keeps s s'"
proof -
  have requests: "keeps s (s1\<lparr>requests := qs\<rparr>)" if "keeps s s1" for s1 qs
    using that by (rule keeps_trans) (simp add: keeps_same)
  have both: "keeps s s2" if "claim_task_tx x task agent role n True fresh_a now s = Inr (a, s1)"
    "start_run_tx x fresh_a agent None False fresh_r now s1 = Inr (r, s2)" for a r s1 s2
    using keeps_trans [OF keeps_claim_task_tx [OF that(1)] keeps_start_run_tx [OF that(2)]] .
  from assms show ?thesis
    by (auto simp: claim_task_for_execution_tx_def res_simps Let_def intro!: requests split: option.splits) (rule both; simp)+
qed

text \<open>Rows found by their key.\<close>

lemma found_assignment:
  "store_ok s \<Longrightarrow> find_assignment i s = Some a \<Longrightarrow> b \<in> set (assignments s) \<Longrightarrow> a_id b = i \<Longrightarrow> b = a"
  using distinct_map_inj [of a_id "assignments s" b a] find_assignment_SomeD [of i s a]
  by (simp add: store_ok_def core_ok_def)

lemma found_run:
  "store_ok s \<Longrightarrow> find_run i s = Some r \<Longrightarrow> q \<in> set (runs s) \<Longrightarrow> r_id q = i \<Longrightarrow> q = r"
  using distinct_map_inj [of r_id "runs s" q r] find_run_SomeD [of i s r]
  by (simp add: store_ok_def core_ok_def)

lemmas row_defs =
  assignment_moves_def assignment_final_def active_def run_moves_def run_final_def live_def live_statuses_def

lemma keeps_renew_assignment_tx:
  "renew_assignment_tx i actor n now s = Inr (u, s') \<Longrightarrow> keeps s s'"
  by (auto simp: renew_assignment_tx_def res_simps Let_def row_defs intro!: keeps_update_assignments)

lemma keeps_expire_one: "keeps (snd acc) (snd (expire_one now a acc))"
proof -
  have "keeps s (update_assignments (\<lambda>b. a_id b = a_id a \<and> a_status b = ''active'')
      (\<lambda>b. b\<lparr>a_status := ''expired'', a_released_at := Some now, a_release_reason := Some ''lease_expired''\<rparr>) s)" for s
    by (rule keeps_update_assignments) (auto simp: row_defs)
  then show ?thesis by (cases acc) (simp add: expire_one_def Let_def)
qed

lemma keeps_fold_expire: "keeps (snd acc) (snd (fold (expire_one now) as acc))"
proof (induction as arbitrary: acc)
  case Nil
  then show ?case by simp
next
  case (Cons a as)
  from keeps_trans [OF keeps_expire_one Cons.IH] show ?case by simp
qed

lemma keeps_expire_tx: "expire_stale_assignments_tx now s = Inr (n, s') \<Longrightarrow> keeps s s'"
  using keeps_fold_expire [of "(0, s)" now "filter (stale_assignment now s) (assignments s)"]
  by (simp add: expire_stale_assignments_tx_def)

lemma own_live_runD:
  assumes "own_live_run i actor now s = Inr r"
  shows "find_run i s = Some r" "r_agent r = actor" "r_status r = ''running'' \<or> r_status r = ''paused''"
    "active_lease (r_assignment r) now s"
  using assms by (auto simp: own_live_run_def res_simps)

lemma keeps_update_own_run:
  assumes "own_live_run i actor now s = Inr r"
    and "\<not> run_final r \<Longrightarrow> run_moves r (f r)"
  shows "keeps s (update_runs (\<lambda>q. r_id q = i) f s)"
proof (rule keeps_update_runs)
  fix q assume q: "store_ok s" "q \<in> set (runs s)" "r_id q = i"
  with own_live_runD(1) [OF assms(1)] have "q = r" by (intro found_run)
  with own_live_runD(3) [OF assms(1)] assms(2) show "run_moves q (f q) \<and> (live (f q) \<longrightarrow> live q)"
    by (auto simp: row_defs)
qed

lemma keeps_checkpoint_run_tx: "checkpoint_run_tx i actor c now s = Inr (u, s') \<Longrightarrow> keeps s s'"
  by (auto simp: checkpoint_run_tx_def res_simps row_defs intro!: keeps_update_own_run)

text \<open>A recovery gives the expired executor its assignment back.\<close>

lemma keeps_recover_assignment_tx:
  assumes "recover_assignment_tx i run actor n reason now s = Inr (u, s')"
  shows "keeps s s'"
proof -
  let ?stale = "\<lambda>a b. a_id b = a_id a \<and> (a_status b = ''expired'' \<or> a_status b = ''active'' \<and> a_expires_at b \<le> now)"
  let ?f = "\<lambda>b. b\<lparr>a_status := ''active'', a_renewed_at := now, a_expires_at := lease_end now n,
        a_released_at := None, a_release_reason := None\<rparr>"
  from assms obtain a t where a: "find_assignment i s = Some a" "a_role a = ''executor''"
    and t: "find_task (a_task a) s = Some t" "t_state t = ''in_progress''"
    and alone: "\<not> list_ex (\<lambda>b. a_task b = a_task a \<and> a_role b = ''executor''
           \<and> a_status b = ''active'' \<and> a_id b \<noteq> a_id a) (assignments s)"
    and s': "keeps s s' = keeps s (update_assignments (?stale a) ?f s)"
    unfolding recover_assignment_tx_def res_simps Let_def
    by (elim exE conjE) (rule that, assumption+, drule sym, simp)
  have id: "a_id a = i" using a(1) find_assignment_SomeD by blast
  have core: "core_ok (update_assignments (?stale a) ?f s)" if "store_ok s"
    using that a t alone id
    by (intro core_ok_reactivate [OF _ a(1) _ _ t(1)]) (auto simp: store_ok_def)
  have adv: "advances assignment_moves (assignments s) (update_where (?stale a) ?f (assignments s))"
    by (rule assignment_cycle.advances_update_where) (auto simp: row_defs)
  show ?thesis
    unfolding s' by (rule keeps_coreI) (simp_all add: core, simp_all add: update_assignments_def adv run_cycle.advances_refl)
qed

lemma keeps_if: "(store_ok s \<Longrightarrow> keeps s s') \<Longrightarrow> keeps s s'"
  by (simp add: keeps_def)

lemma keeps_store_ok: "keeps s s' \<Longrightarrow> store_ok s \<Longrightarrow> store_ok s'"
  by (simp add: keeps_def)

lemma only_active:
  assumes "store_ok s" "a \<in> set (assignments s)" "b \<in> set (assignments s)" "active a" "active b"
    "a_task a = a_task b" "a_role a = a_role b"
  shows "a = b"
  using assms distinct_map_inj [of "\<lambda>a. (a_task a, a_role a)" "filter active (assignments s)" a b]
  by (simp add: store_ok_def core_ok_def)

lemma run_assignment:
  assumes "store_ok s" "find_run i s = Some r" "find_assignment (r_assignment r) s = Some a"
  shows "a_task a = r_task r" "a_agent a = r_agent r"
proof -
  have "r \<in> set (runs s)" using find_run_SomeD [OF assms(2)] by simp
  with assms(1) have "(r_assignment r, r_task r, r_agent r) \<in> (\<lambda>a. (a_id a, a_task a, a_agent a)) ` set (assignments s)"
    unfolding store_ok_def core_ok_def by blast
  then obtain b where b: "b \<in> set (assignments s)" "a_id b = r_assignment r" "a_task b = r_task r" "a_agent b = r_agent r"
    by auto
  with found_assignment [OF assms(1,3)] show "a_task a = r_task r" "a_agent a = r_agent r" by auto
qed

lemma save_completion_tables:
  assumes "save_completion_conn r d fresh now s = Inr s'"
  shows "keeps s s'" "assignments s' = assignments s" "runs s' = runs s"
  using assms by (auto simp: save_completion_conn_def res_simps intro!: keeps_same split: if_splits)

lemma keeps_complete_run_tx:
  assumes "complete_run_tx x i actor result fresh now s = Inr (u, s')"
  shows "keeps s s'"
proof (rule keeps_if)
  assume ok: "store_ok s"
  let ?finish = "\<lambda>q. q\<lparr>r_status := ''completed'', r_stop_reason := Some ''normal'', r_result := Some result, r_ended_at := Some now\<rparr>"
  let ?close = "\<lambda>b. b\<lparr>a_status := ''completed'', a_released_at := Some now, a_release_reason := Some ''run_completed''\<rparr>"
  let ?finished = "\<lambda>s1. update_runs (\<lambda>q. r_id q = i) ?finish s1"
  let ?closed = "\<lambda>r s2. update_assignments (\<lambda>b. a_id b = r_assignment r) ?close s2"
  let ?event = "\<lambda>r a s3. append_event_tx ''agent_instance'' (r_agent r) ''run'' i ''run.completed''
           [(''task_id'', PStr (r_task r)), (''role'', PStr (a_role a))] None now s3"
  let ?done = "\<lambda>r s3. update_tasks (\<lambda>t. t_id t = r_task r) (\<lambda>t. t\<lparr>t_state := ''done'', t_updated_at := now\<rparr>) s3"
  from assms obtain r d s1 a where own: "own_live_run i actor now s = Inr r"
    and s1: "save_completion_conn r d fresh now s = Inr s1"
    and a: "fetch_assignment (r_assignment r) (?finished s1) = Inr a"
    and rest: "(if a_role a = ''executor''
      then bind_res (enforce_gate_conn (x_pointer x) (r_task r) (?event r a (?closed r (?finished s1)))) (\<lambda>_.
       Inr ((), append_event_tx ''agent_instance'' (r_agent r) ''task'' (r_task r) ''task.state_changed''
         [(''state'', PStr ''done'')] None now (?done r (?event r a (?closed r (?finished s1))))))
      else Inr ((), ?event r a (?closed r (?finished s1)))) = Inr (u, s')"
    unfolding complete_run_tx_def res_simps Let_def
    by (elim exE conjE) (rule that, assumption+)
  let ?s2 = "?finished s1" and ?s3 = "?event r a (?closed r (?finished s1))"
  have s1_same: "assignments s1 = assignments s" "runs s1 = runs s"
    using save_completion_tables [OF s1] by simp_all
  then have own1: "own_live_run i actor now s1 = Inr r"
    using own by (simp add: own_live_run_def find_run_def active_lease_def)
  have k2: "keeps s ?s2"
    using save_completion_tables(1) [OF s1]
    by (rule keeps_trans) (rule keeps_update_own_run [OF own1], simp add: run_moves_def)
  have ok2: "store_ok ?s2" using keeps_store_ok [OF k2 ok] .
  have a2: "find_assignment (r_assignment r) ?s2 = Some a" using a by (simp add: fetch_assignment_def res_simps)
  have same2: "assignments ?s2 = assignments s" by (simp add: s1_same)
  from own_live_runD(4) [OF own1] obtain b where b: "b \<in> set (assignments ?s2)" "a_id b = r_assignment r" "active b"
    by (auto simp: active_lease_def list_ex_iff active_def)
  with found_assignment [OF ok2 a2] have act: "active a" "a \<in> set (assignments ?s2)" by auto
  have "keeps ?s2 (?closed r ?s2)"
    by (rule keeps_update_assignments) (use found_assignment [OF ok2 a2] act in \<open>auto simp: row_defs\<close>)
  with k2 have k3: "keeps s ?s3" by (simp add: keeps_trans)
  have r2: "find_run i s = Some r" using own_live_runD(1) [OF own] .
  have task: "a_task a = r_task r"
    using run_assignment [OF ok r2, of a] a2 same2 by (simp add: find_assignment_def)
  have "keeps ?s3 (?done r ?s3)" if executor: "a_role a = ''executor''"
  proof (rule keeps_update_tasks_final)
    fix t b assume t: "t_id t = r_task r" and b: "b \<in> set (assignments ?s3)" "active b" "a_task b = t_id t"
    from b(1,2) obtain c where c: "c \<in> set (assignments ?s2)" "c = b" "a_id b \<noteq> r_assignment r"
      by (auto simp: update_assignments_def set_update_where active_def split: if_splits)
    have "a_role b \<noteq> ''executor''"
    proof
      assume "a_role b = ''executor''"
      with only_active [OF ok2 act(2) c(1) act(1)] c b t task executor have "a = b" by simp
      with c find_assignment_SomeD [OF a2] show False by simp
    qed
    then show "t_state (t\<lparr>t_state := ''done'', t_updated_at := now\<rparr>) \<noteq> ''cancelled''
        \<and> (a_role b = ''executor'' \<longrightarrow> t_state (t\<lparr>t_state := ''done'', t_updated_at := now\<rparr>) \<noteq> ''done'')"
      by simp
  qed simp
  with k3 have "keeps s (?done r ?s3)" if "a_role a = ''executor''"
    using that by (blast intro: keeps_trans)
  with rest k3 show "keeps s s'"
    by (auto simp: res_simps split: if_splits)
qed

lemma keeps_stop_launches: "keeps s (stop_launches task reason now s)"
  by (rule keeps_same) (simp_all add: stop_launches_def)

lemma keeps_stop_runs: "keeps s (stop_runs task reason now s)"
proof -
  have 1: "keeps s (update_runs (\<lambda>r. r_task r = task \<and> r_status r \<in> live_statuses \<and> M r)
      (\<lambda>r. r\<lparr>r_status := ''cancelling'', r_stop_reason := Some reason, r_ended_at := None\<rparr>) s)" for s M
    by (rule keeps_update_runs) (auto simp: row_defs)
  have 2: "keeps s (update_runs (\<lambda>r. r_task r = task \<and> r_status r \<in> live_statuses \<and> M r)
      (\<lambda>r. r\<lparr>r_status := ''cancelled'', r_stop_reason := Some reason, r_ended_at := Some now\<rparr>) s)" for s M
    by (rule keeps_update_runs) (auto simp: row_defs)
  show ?thesis unfolding stop_runs_def Let_def by (rule keeps_trans [OF 1 2])
qed

lemma stop_tables:
  "assignments (stop_runs task reason now s) = assignments s"
  "assignments (stop_launches task reason now s) = assignments s"
  by (simp_all add: stop_runs_def stop_launches_def Let_def)

lemma keeps_settle_revisions:
  assumes "\<And>v. P v \<Longrightarrow> tr_id (f v) = tr_id v \<and> tr_task (f v) = tr_task v \<and> tr_version (f v) = tr_version v \<and> \<not> pending (f v)"
  shows "keeps s (s\<lparr>revisions := update_where P f (revisions s)\<rparr>)"
  by (rule keeps_revisions) (simp_all add: revisions_ok_settle [OF _ assms])

text \<open>A cancelled task has no active assignment left.\<close>

lemma keeps_cancel_task_tx:
  assumes "cancel_task_tx k actor_type actor event_type reason now s = Inr s'"
  shows "keeps s s'"
proof -
  let ?task = "t_id (k_row k)"
  let ?s2 = "stop_runs ?task reason now (stop_launches ?task reason now s)"
  let ?s3 = "update_assignments (\<lambda>a. a_task a = ?task \<and> a_status a = ''active'')
      (\<lambda>a. a\<lparr>a_status := ''released'', a_released_at := Some now, a_release_reason := Some reason\<rparr>) ?s2"
  let ?s4 = "?s3\<lparr>requests := update_where (\<lambda>q. ar_task q = ?task \<and> ar_status q = ''pending'')
      (\<lambda>q. q\<lparr>ar_status := ''withdrawn'', ar_resolved_at := Some now, ar_resolution := Some reason\<rparr>) (requests ?s3)\<rparr>"
  let ?s5 = "?s4\<lparr>revisions := update_where (\<lambda>v. tr_task v = ?task \<and> tr_status v = ''pending_ack'')
      (\<lambda>v. v\<lparr>tr_status := ''rejected'', tr_resolved_at := Some now, tr_ack_impact := Some ''Task cancelled''\<rparr>)
      (revisions ?s4)\<rparr>"
  let ?s6 = "update_tasks (\<lambda>t. t_id t = ?task) (\<lambda>t. t\<lparr>t_state := ''cancelled'', t_updated_at := now\<rparr>) ?s5"
  have "keeps s ?s2" by (rule keeps_trans [OF keeps_stop_launches keeps_stop_runs])
  moreover have "keeps ?s2 ?s3" by (rule keeps_update_assignments) (auto simp: row_defs)
  moreover have "keeps ?s3 ?s4" by (rule keeps_same) simp_all
  moreover have "keeps ?s4 ?s5" by (rule keeps_settle_revisions) (simp add: pending_def)
  moreover have "keeps ?s5 ?s6"
  proof (rule keeps_update_tasks_final)
    fix t a assume "t_id t = ?task" "a \<in> set (assignments ?s5)" "active a" "a_task a = t_id t"
    then show "t_state (t\<lparr>t_state := ''cancelled'', t_updated_at := now\<rparr>) \<noteq> ''cancelled''
        \<and> (a_role a = ''executor'' \<longrightarrow> t_state (t\<lparr>t_state := ''cancelled'', t_updated_at := now\<rparr>) \<noteq> ''done'')"
      by (auto simp: update_assignments_def set_update_where active_def split: if_splits)
  qed simp
  ultimately have "keeps s ?s6" by (blast intro: keeps_trans)
  with assms show ?thesis by (auto simp: cancel_task_tx_def Let_def split: if_splits)
qed

lemma keeps_delete_task_row:
  assumes "delete_task_row i s = Inr s'" "\<not> list_ex (\<lambda>a. a_task a = i) (assignments s)"
  shows "keeps s s'"
proof -
  from assms(1) have free: "\<not> task_referenced i s"
    and tables: "tasks s' = filter (\<lambda>t. t_id t \<noteq> i) (tasks s)"
      "assignments s' = filter (\<lambda>a. a_task a \<noteq> i) (assignments s)"
      "runs s' = filter (\<lambda>r. r_task r \<noteq> i) (runs s)" "contexts s' = filter (\<lambda>c. cx_task c \<noteq> i) (contexts s)"
      "revisions s' = filter (\<lambda>v. tr_task v \<noteq> i) (revisions s)"
      "dependencies s' = dependencies s" "chain_members s' = chain_members s" "deliveries s' = deliveries s"
    by (auto simp: delete_task_row_def split: if_splits)
  have rows: "assignments s' = assignments s" "runs s' = runs s" "core_ok s'" if "store_ok s"
    using that core_ok_delete_task [OF _ assms(2)] tables by (simp_all add: store_ok_def)
  have kept: "j \<in> t_id ` set (tasks s')" if "j \<in> t_id ` set (tasks s)" "j \<noteq> i" for j
    using that unfolding tables by auto
  have free': "\<not> list_ex (\<lambda>d. d_task d = i \<or> d_on d = i) (dependencies s)"
    "\<not> list_ex (\<lambda>m. cm_task m = i) (chain_members s)"
    using free unfolding task_referenced_def by blast+
  have "deps_in_tasks s'" if "deps_in_tasks s"
    unfolding deps_in_tasks_def tables(6)
  proof
    fix d assume d: "d \<in> set (dependencies s)"
    with free'(1) have "d_task d \<noteq> i" "d_on d \<noteq> i" by (auto simp: list_ex_iff)
    moreover from d that have "d_task d \<in> t_id ` set (tasks s)" "d_on d \<in> t_id ` set (tasks s)"
      unfolding deps_in_tasks_def by blast+
    ultimately show "d_on d \<in> t_id ` set (tasks s') \<and> d_task d \<in> t_id ` set (tasks s')"
      using kept by blast
  qed
  moreover have "cm_task ` set (chain_members s) \<subseteq> t_id ` set (tasks s')"
    if "cm_task ` set (chain_members s) \<subseteq> t_id ` set (tasks s)"
  proof (rule image_subsetI)
    fix m assume m: "m \<in> set (chain_members s)"
    with free'(2) have "cm_task m \<noteq> i" by (auto simp: list_ex_iff)
    with kept subsetD [OF that imageI [OF m]] show "cm_task m \<in> t_id ` set (tasks s')" by blast
  qed
  ultimately have "graph_ok s'" if "store_ok s"
    using that tables by (simp add: store_ok_def graph_ok_def)
  moreover have "history task s' = (if task = i then [] else history task s)" for task
    by (auto simp: history_def tables filter_empty_conv intro: filter_cong)
  then have "contexts_ok s'" if "store_ok s"
    using that tables by (simp add: store_ok_def contexts_ok_def distinct_map_filter)
  moreover have "revisions_ok s'" if "store_ok s"
  proof -
    have "filter pending (revisions s') = filter (\<lambda>v. tr_task v \<noteq> i) (filter pending (revisions s))"
      by (simp add: tables conj_commute)
    with that show ?thesis
      unfolding store_ok_def revisions_ok_def by (simp only: tables(5)) (blast intro: distinct_map_filter)
  qed
  ultimately show ?thesis
    using rows tables
    by (intro keepsI) (simp_all add: run_cycle.advances_refl assignment_cycle.advances_refl delivery_cycle.advances_refl)
qed

lemma keeps_forget_events [simp]: "keeps s (forget_task_events i s') = keeps s s'"
proof
  have "keeps s' (forget_task_events i s')" "keeps (forget_task_events i s') s'"
    by (rule keeps_same; simp add: forget_task_events_def)+
  then show "keeps s s' \<Longrightarrow> keeps s (forget_task_events i s')" "keeps s (forget_task_events i s') \<Longrightarrow> keeps s s'"
    by (blast intro: keeps_trans)+
qed

lemma keeps_end_of_task:
  "withdraw_task_as_agent_tx task agent delete now s = Inr (u, s') \<Longrightarrow> keeps s s'"
  "cancel_task_body task now s = Inr (v, s') \<Longrightarrow> keeps s s'"
  "delete_task_tx task now s = Inr (w, s') \<Longrightarrow> keeps s s'"
  by (auto simp: withdraw_task_as_agent_tx_def cancel_task_body_def delete_task_tx_def deleted_event_def res_simps
      has_history_def intro: keeps_cancel_task_tx keeps_delete_task_row split: if_splits sum.splits)

subsection \<open>Operations on projects and tasks\<close>

lemma keeps_project_column: "keeps s (set_project task project now s)"
  unfolding set_project_def by (rule keeps_update_tasks) simp

lemma keeps_reassign:
  "keeps s (forget_intakes task now (restart_reviews task (set_project task project now s)))"
proof -
  have 1: "keeps s (restart_reviews task s)" for s
    unfolding restart_reviews_def by (rule keeps_update_assignments) (auto simp: row_defs)
  have 2: "keeps s (forget_intakes task now s)" for s
    by (rule keeps_same) (simp_all add: forget_intakes_def)
  show ?thesis by (rule keeps_trans [OF keeps_trans [OF keeps_project_column 1] 2])
qed

lemma keeps_project_ops:
  "set_task_project_tx task project now s = Inr (u, s') \<Longrightarrow> keeps s s'"
  "set_task_project_as_agent_tx task project agent now s = Inr (v, s') \<Longrightarrow> keeps s s'"
  "bind_unbound_task_project_tx task p now s = Inr (w, s') \<Longrightarrow> keeps s s'"
  "create_project_tx name description fresh now s = Inr (w, s') \<Longrightarrow> keeps s s'"
  by (auto simp: set_task_project_tx_def set_task_project_as_agent_tx_def bind_unbound_task_project_tx_def
      create_project_tx_def res_simps keeps_project_column keeps_reassign
      intro: keeps_same intro!: keeps_update_tasks split: if_splits)

lemma keeps_insert_revision: "insert_revision v s = Inr s' \<Longrightarrow> keeps s s'"
  by (rule keeps_revisions) (auto simp: insert_revision_def revisions_ok_insert split: if_splits)

lemma keeps_baseline: "baseline_tx task fresh now s = Inr s' \<Longrightarrow> keeps s s'"
  by (auto simp: baseline_tx_def res_simps intro: keeps_insert_revision split: if_splits)

lemma keeps_append_task:
  assumes "find_task (t_id t) s = None"
  shows "keeps s (s\<lparr>tasks := tasks s @ [t]\<rparr>)"
  using assms core_ok_append_task [of s t]
  by (intro keeps_coreI) (auto simp: store_ok_def run_cycle.advances_refl assignment_cycle.advances_refl)

lemma keeps_create_task_tx:
  assumes "create_task_tx input fresh fresh_rev now s = Inr (u, s')"
  shows "keeps s s'"
proof -
  from assms obtain t s2 where t: "t_id t = fresh" "find_task fresh s = None"
    and s2: "baseline_tx fresh fresh_rev now (s\<lparr>tasks := tasks s @ [t]\<rparr>) = Inr s2" and s': "keeps s s' = keeps s s2"
    unfolding create_task_tx_def res_simps Let_def
    by (elim exE conjE) (rule that, rule task_row.simps(1), assumption+, auto split: prod.splits if_splits)
  show ?thesis
    unfolding s' using keeps_trans [OF keeps_append_task keeps_baseline [OF s2]] t by simp
qed

lemma keeps_insert_context:
  assumes "insert_context c s = Inr s'"
    and "cx_version c = (case latest_context (cx_task c) s of None \<Rightarrow> 1 | Some d \<Rightarrow> cx_version d + 1)"
    and "cx_parent c = map_option cx_id (latest_context (cx_task c) s)"
  shows "keeps s s'"
proof -
  have s': "s' = s\<lparr>contexts := contexts s @ [c]\<rparr>" and new: "cx_id c \<notin> cx_id ` set (contexts s)"
    using insert_context_Inr [OF assms(1)] by simp_all
  have "graph_ok s \<Longrightarrow> graph_ok s'" by (rule graph_ok_cong) (simp_all add: s')
  moreover have "contexts_ok s \<Longrightarrow> contexts_ok s'"
    using contexts_ok_append [OF _ new _ assms(2,3)] by (simp add: s')
  moreover have "core_ok s \<Longrightarrow> core_ok s'" by (rule core_ok_same) (simp_all add: s')
  ultimately show ?thesis
    by (intro keepsI) (simp_all add: store_ok_def s' revisions_ok_def run_cycle.advances_refl
        assignment_cycle.advances_refl delivery_cycle.advances_refl)
qed

lemma keeps_reconcile_legacy: "reconcile_legacy_conn x task constraints s = Inr s' \<Longrightarrow> keeps s s'"
  by (auto simp: reconcile_legacy_conn_def res_simps Let_def intro!: keeps_update_tasks split: if_splits)

lemma keeps_write_context_tx:
  assumes "write_context_revision_tx x task write fresh now s = Inr (u, s')"
  shows "keeps s s'"
proof -
  from assms obtain constraints c s1 s2 where
    s1: "reconcile_legacy_conn x task constraints s = Inr s1" and s2: "insert_context c s1 = Inr s2"
    and c: "cx_task c = task" "cx_parent c = map_option cx_id (latest_context task s)"
      "cx_version c = (case latest_context task s of None \<Rightarrow> 1 | Some d \<Rightarrow> cx_version d + 1)"
    and s': "keeps s s' = keeps s (update_tasks (\<lambda>t. t_id t = task) (\<lambda>t. t\<lparr>t_context := Some fresh, t_updated_at := now\<rparr>) s2)"
    unfolding write_context_revision_tx_def res_simps Let_def
    by (elim exE conjE) (rule that, assumption, assumption, simp, simp, simp, drule sym, simp)
  have latest: "latest_context task s1 = latest_context task s"
    using reconcile_contexts [OF s1] by (simp add: latest_context_def)
  have "keeps s s2"
    using keeps_trans [OF keeps_reconcile_legacy [OF s1] keeps_insert_context [OF s2]] c latest by simp
  moreover have "keeps s2 (update_tasks (\<lambda>t. t_id t = task) (\<lambda>t. t\<lparr>t_context := Some fresh, t_updated_at := now\<rparr>) s2)"
    by (rule keeps_update_tasks) simp
  ultimately show ?thesis unfolding s' by (rule keeps_trans)
qed

lemma keeps_pin_live_runs: "keeps s (pin_live_runs task c now s)"
proof -
  have "keeps s (fold (pin_run c now) rs s)" for rs
  proof (induction rs arbitrary: s)
    case Nil
    then show ?case by simp
  next
    case (Cons r rs)
    have "keeps s (pin_run c now r s)" by (rule keeps_same) (simp_all add: pin_run_def)
    with Cons.IH show ?case by (auto intro: keeps_trans)
  qed
  then show ?thesis by (simp add: pin_live_runs_def)
qed

lemma keeps_apply_tx:
  assumes "apply_tx task revision ack fresh now s = Inr s'"
  shows "keeps s s'"
proof -
  let ?t = "\<lambda>cur v s. update_tasks (\<lambda>t. t_id t = task \<and> t_spec_version t = sv_version cur
             \<and> t_state t \<noteq> ''done'' \<and> t_state t \<noteq> ''cancelled'')
           (\<lambda>t. t\<lparr>t_title := ts_title (tr_after v), t_description := ts_description (tr_after v),
                 t_criteria := ts_criteria (tr_after v), t_acceptance_version := t_acceptance_version t + 1,
                 t_spec_version := tr_version v, t_context := Some fresh, t_updated_at := now\<rparr>) s"
  let ?f = "\<lambda>w. w\<lparr>tr_status := ''applied'', tr_resolved_at := Some now, tr_context_after := Some fresh,
                 tr_ack_run := map_option ka_run ack, tr_ack_agent := map_option ka_agent ack,
                 tr_ack_impact := map_option ka_impact ack, tr_ack_plan := map_option ka_plan ack\<rparr>"
  let ?r = "\<lambda>s. s\<lparr>revisions := update_where (\<lambda>w. tr_id w = revision) ?f (revisions s)\<rparr>"
  from assms obtain c cur v s1 where
    v: "find (\<lambda>v. tr_id v = revision \<and> tr_task v = task) (revisions s) = Some v"
    and cur: "spec_conn task s = Inr cur" and s1: "insert_context c s = Inr s1"
    and c: "cx_task c = task" "cx_parent c = map_option cx_id (latest_context task s)"
      "cx_version c = (case latest_context task s of None \<Rightarrow> 1 | Some d \<Rightarrow> cx_version d + 1)"
    and s': "keeps s s' = keeps s (pin_live_runs task fresh now (?r (?t cur v s1)))"
    unfolding apply_tx_def res_simps Let_def
    by (elim exE conjE) (rule that, assumption+, simp, simp, simp, drule sym, simp)
  have "keeps s s1" using keeps_insert_context [OF s1] c by simp
  moreover have "keeps s1 (?t cur v s1)" by (rule keeps_update_tasks) simp
  moreover have "keeps (?t cur v s1) (?r (?t cur v s1))"
    by (rule keeps_settle_revisions) (simp add: pending_def)
  ultimately have "keeps s (?r (?t cur v s1))" by (blast intro: keeps_trans)
  then show ?thesis unfolding s' by (rule keeps_trans) (rule keeps_pin_live_runs)
qed

lemma keeps_enqueue:
  "enqueue_agent_delivery_tx agent task kind source payload fresh now s = Inr s' \<Longrightarrow> keeps s s'"
proof -
  assume tx: "enqueue_agent_delivery_tx agent task kind source payload fresh now s = Inr s'"
  then have s': "tasks s' = tasks s" "assignments s' = assignments s" "runs s' = runs s"
    "dependencies s' = dependencies s" "chain_members s' = chain_members s" "contexts s' = contexts s"
    "revisions s' = revisions s"
    by (auto simp: enqueue_agent_delivery_tx_def split: if_splits)
  show ?thesis
    using s' graph_ok_cong [OF s'(4,5)] contexts_ok_cong [OF s'(6)] revisions_ok_cong [OF s'(7)] advances_enqueue [OF tx]
    by (intro keepsI) (simp_all add: store_ok_def core_ok_same [OF _ s'(1-3)] run_cycle.advances_refl
        assignment_cycle.advances_refl)
qed

lemma keeps_ensure_thread: "ensure_task_agent_thread_tx task agent fresh now s = Inr (i, s') \<Longrightarrow> keeps s s'"
  by (auto simp: ensure_task_agent_thread_tx_def res_simps intro: keeps_same split: option.splits)

lemma keeps_notify_executor:
  assumes "notify_executor task recipient version reason ids now s = Inr s'"
  shows "keeps s s'"
proof -
  from assms obtain thread s1 m payload where
    1: "ensure_task_agent_thread_tx task recipient (fi_thread ids) now s = Inr (thread, s1)"
    and 2: "enqueue_agent_delivery_tx recipient (Some task) ''task_message'' (fi_message ids) payload
      (fi_delivery ids) now (s1\<lparr>messages := m\<rparr>) = Inr s'"
    by (auto simp: notify_executor_def res_simps Let_def)
  have "keeps s1 (s1\<lparr>messages := m\<rparr>)" by (rule keeps_same) simp_all
  with keeps_ensure_thread [OF 1] keeps_enqueue [OF 2] show ?thesis by (blast intro: keeps_trans)
qed

lemma keeps_propose_revision_tx:
  assumes "propose_task_revision_tx task actor draft ids now s = Inr (u, s')"
  shows "keeps s s'"
proof -
  have tail: "keeps s s4" if 1: "baseline_tx task (fi_baseline ids) now s = Inr s1"
    and 2: "insert_revision v s1 = Inr s2"
    and 3: "(if P then (case last_executor task (append_event_tx a b c d e f g now s2) of
          None \<Rightarrow> Inr (append_event_tx a b c d e f g now s2)
        | Some y \<Rightarrow> notify_executor task (a_agent y) version reason ids now (append_event_tx a b c d e f g now s2))
       else apply_tx task i None j now (append_event_tx a b c d e f g now s2)) = Inr s4"
    for s1 v s2 s4 P a b c d e f g version reason i j
  proof -
    have "keeps s (append_event_tx a b c d e f g now s2)"
      using keeps_trans [OF keeps_baseline [OF 1] keeps_insert_revision [OF 2]] by simp
    moreover have "keeps (append_event_tx a b c d e f g now s2) s4"
      using 3 keeps_notify_executor keeps_apply_tx by (auto split: if_splits option.splits)
    ultimately show ?thesis by (rule keeps_trans)
  qed
  from assms show ?thesis
    unfolding propose_task_revision_tx_def res_simps Let_def
    by (elim exE conjE) (drule Inr_inject, elim Pair_inject, hypsubst, rule tail, assumption+)
qed

lemma keeps_revision_answers:
  "ack_task_revision_tx task agent revision run impact plan fresh now s = Inr (u, s') \<Longrightarrow> keeps s s'"
  "reject_task_revision_tx task actor revision reason now s = Inr (v, s') \<Longrightarrow> keeps s s'"
  by (auto simp: ack_task_revision_tx_def reject_task_revision_tx_def res_simps pending_def Let_def
      intro: keeps_apply_tx intro!: keeps_settle_revisions)

subsection \<open>Receipts, intake, collections and deliveries\<close>

lemma keeps_update_receipt: "keeps s (update_receipt i f s)"
  by (rule keeps_same) (simp_all add: update_receipt_def)

lemma keeps_insert_receipt: "insert_receipt_conn i t r rv c k v d now s = Inr s' \<Longrightarrow> keeps s s'"
  by (auto simp: insert_receipt_conn_def intro!: keeps_same split: if_splits)

lemma keeps_verification_ops:
  "begin_verification_tx run agent criterion retry fresh now s = Inr (y, s') \<Longrightarrow> keeps s s'"
  "finish_verification_tx i verdict detail now s = Inr (u, s') \<Longrightarrow> keeps s s'"
  "reconcile_verification_tx task i reason actor actor_text now s = Inr (u, s') \<Longrightarrow> keeps s s'"
  "submit_human_review_tx task input actor' fresh now s = Inr (z, s') \<Longrightarrow> keeps s s'"
  by (auto simp: begin_verification_tx_def finish_verification_tx_def reconcile_verification_tx_def
      submit_human_review_tx_def res_simps Let_def keeps_update_receipt intro: keeps_insert_receipt)

lemma keeps_submit_review_tx:
  assumes "submit_review_tx agent input fresh now s = Inr (i, s')"
  shows "keeps s s'"
proof -
  have state: "keeps s1 (update_tasks (\<lambda>u. t_id u = j)
      (\<lambda>u. u\<lparr>t_state := (if rv_verdict input = ''FAIL'' then ''in_progress'' else ''review''), t_updated_at := now\<rparr>) s1)"
    for s1 j by (rule keeps_update_tasks) simp
  have both: "keeps s (update_tasks (\<lambda>u. t_id u = j)
      (\<lambda>u. u\<lparr>t_state := (if rv_verdict input = ''FAIL'' then ''in_progress'' else ''review''), t_updated_at := now\<rparr>) s1)"
    if "insert_receipt_conn i t r rv c k v d now s = Inr s1" for i t r rv c k v d s1 j
    by (rule keeps_trans [OF keeps_insert_receipt [OF that] state])
  from assms show ?thesis
    unfolding submit_review_tx_def res_simps Let_def
    by (elim exE conjE) (simp add: res_simps, elim conjE, drule sym, simp add: both)
qed


lemma keeps_update_intake [simp]: "keeps s (update_intake i f s') = keeps s s'"
  by (simp add: update_intake_def)

lemma keeps_set_phase: "keeps s s' \<Longrightarrow> keeps s (set_phase i p s')"
  by (rule keeps_trans, assumption, unfold set_phase_def, rule keeps_update_assignments) (auto simp: row_defs)

lemma keeps_extend_lease: "keeps s s' \<Longrightarrow> keeps s (extend_intake_lease_tx i now s')"
  by (rule keeps_trans, assumption, unfold extend_intake_lease_tx_def, rule keeps_update_assignments)
    (auto simp: row_defs)

lemma keeps_begin_execution_tx: "begin_task_execution_tx x task agent a now s = Inr (u, s') \<Longrightarrow> keeps s s'"
  by (auto simp: begin_task_execution_tx_def res_simps Let_def row_defs intro!: keeps_update_assignments)

lemma keeps_record_read_tx:
  "record_intake_read_tx a project head offset next package now s = Inr (u, s') \<Longrightarrow> keeps s s'"
  unfolding record_intake_read_tx_def res_simps Let_def
  by (elim exE conjE, drule Inr_inject, elim Pair_inject, hypsubst) (simp add: keeps_set_phase)

lemma keeps_start_interview_tx:
  assumes "start_intake_interview_tx x task agent a fresh now s = Inr (u, s')"
  shows "keeps s s'"
proof -
  from assms obtain n :: intake and thread s1 where
    s1: "(case in_thread n of Some t \<Rightarrow> Inr (t, s) | None \<Rightarrow> ensure_task_agent_thread_tx task agent fresh now s)
      = Inr (thread, s1)" and s': "keeps s s1 \<Longrightarrow> keeps s s'"
    unfolding start_intake_interview_tx_def res_simps Let_def split_paired_Ex prod.case
    by (elim exE conjE) (rule that, assumption, auto simp: keeps_set_phase keeps_extend_lease)
  have "keeps s s1" using s1 by (auto intro: keeps_ensure_thread split: option.splits)
  with s' show ?thesis .
qed

lemma keeps_finalize_interview_tx:
  "finalize_intake_interview_tx x task agent a input now s = Inr (u, s') \<Longrightarrow> keeps s s'"
  unfolding finalize_intake_interview_tx_def res_simps Let_def
  by (elim exE conjE, drule Inr_inject, elim Pair_inject, hypsubst)
    (cases "if_confirmation input"; simp add: keeps_set_phase keeps_extend_lease)

lemma keeps_graph:
  assumes "tasks s' = tasks s" "assignments s' = assignments s" "runs s' = runs s"
    and "contexts s' = contexts s" "revisions s' = revisions s" "deliveries s' = deliveries s"
    and "graph_ok s \<Longrightarrow> graph_ok s'"
  shows "keeps s s'"
  using assms contexts_ok_cong [OF assms(4)] revisions_ok_cong [OF assms(5)]
  by (intro keepsI) (simp_all add: store_ok_def core_ok_same [OF _ assms(1-3)] run_cycle.advances_refl
      assignment_cycle.advances_refl delivery_cycle.advances_refl)

lemma keeps_set_collections [simp]: "keeps s (set_collections chain rows s') = keeps s s'"
  by (simp add: set_collections_def)

lemma keeps_save_collection_tx: "save_task_collection_tx chain i fresh input now s = Inr (c, s') \<Longrightarrow> keeps s s'"
  by (auto simp: save_task_collection_tx_def res_simps Let_def split: if_splits)

lemma keeps_create_group_tx: "create_agent_task_group_tx agent fresh input now s = Inr (c, s') \<Longrightarrow> keeps s s'"
  by (auto simp: create_agent_task_group_tx_def res_simps Let_def)

lemma keeps_archive_collection_tx: "archive_task_collection_tx chain i now s = Inr (u, s') \<Longrightarrow> keeps s s'"
  by (auto simp: archive_task_collection_tx_def res_simps)

lemma keeps_change_member_tx: "change_agent_task_group_member_tx agent gid task remove now s = Inr (u, s') \<Longrightarrow> keeps s s'"
  by (auto simp: change_agent_task_group_member_tx_def insert_or_ignore_group_member_def res_simps split: if_splits)

lemma keeps_set_member_tx:
  assumes "set_collection_member_tx chain i task join remove now s = Inr (u, s')"
  shows "keeps s s'"
  using assms graph_ok_set_collection_member_tx [OF _ assms]
  by (intro keeps_graph)
    (auto simp: set_collection_member_tx_def res_simps upsert_chain_member_def Let_def
      insert_or_ignore_group_member_def append_event_tx_def split: if_splits)

lemma keeps_save_edge_tx:
  assumes "save_chain_edge_tx c input now s = Inr (u, s')"
  shows "keeps s s'"
  using assms graph_ok_save_chain_edge_tx [OF _ assms]
  by (intro keeps_graph)
    (auto simp: save_chain_edge_tx_def res_simps upsert_edge_def Let_def append_event_tx_def split: if_splits)

lemma keeps_dependency_tx:
  assumes "add_dependency_tx task on actor now s = Inr (d, s')"
  shows "keeps s s'"
  using assms graph_ok_add_dependency_tx [OF _ assms]
  by (intro keeps_graph) (auto simp: add_dependency_tx_def res_simps Let_def append_event_tx_def)

lemma keeps_remove_edge_tx:
  assumes "remove_chain_edge_tx c task j now s = Inr (u, s')"
  shows "keeps s s'"
  using assms graph_ok_edge_removals(1) [OF _ assms]
  by (intro keeps_graph) (auto simp: remove_chain_edge_tx_def res_simps Let_def append_event_tx_def)

lemma keeps_remove_dependency_tx:
  assumes "remove_dependency_tx task on actor now s = Inr (u, s')"
  shows "keeps s s'"
  using assms graph_ok_edge_removals(2) [OF _ assms]
  by (intro keeps_graph) (auto simp: remove_dependency_tx_def res_simps append_event_tx_def)

lemma keeps_deliveries:
  assumes "advances delivery_moves (deliveries s) (deliveries s')"
    and "tasks s' = tasks s" "assignments s' = assignments s" "runs s' = runs s"
    and "dependencies s' = dependencies s" "chain_members s' = chain_members s"
    and "contexts s' = contexts s" "revisions s' = revisions s"
  shows "keeps s s'"
  using assms graph_ok_cong [OF assms(5,6)] contexts_ok_cong [OF assms(7)] revisions_ok_cong [OF assms(8)]
  by (intro keepsI) (simp_all add: store_ok_def core_ok_same [OF _ assms(2-4)] run_cycle.advances_refl
      assignment_cycle.advances_refl)

end
