(* ===== verification/Claims.thy ===== *)
theory Claims
  imports System Examples
begin

text \<open>
  What a claim and the start of a run did when they answered, for the operations built from them:
  takeover, assignment requests, dispatch and the launcher.
\<close>

definition claimed :: "id \<Rightarrow> id \<Rightarrow> string \<Rightarrow> int \<Rightarrow> bool \<Rightarrow> id \<Rightarrow> time \<Rightarrow> assignment" where
  "claimed task agent role n intake fresh now =
     \<lparr>a_id = fresh, a_task = task, a_role = role, a_agent = agent, a_status = ''active'',
      a_phase = (if intake \<and> role = ''executor'' then context_review else implementing),
      a_acquired_at = now, a_expires_at = lease_end now n, a_renewed_at = now,
      a_released_at = None, a_release_reason = None\<rparr>"

lemma create_intake_tables:
  assumes "create_assignment_intake_tx i task agent now s = Inr s'"
  shows "tasks s' = tasks s" "assignments s' = assignments s" "runs s' = runs s" "agents s' = agents s"
    "takeovers s' = takeovers s" "requests s' = requests s"
  using assms by (auto simp: create_assignment_intake_tx_def Let_def split: if_splits)

lemma claim_task_txE:
  assumes "claim_task_tx x task agent role n intake fresh now s = Inr (a, s')"
  obtains t where "a = claimed task agent role n intake fresh now"
    "find_task task s = Some t" "t_state t \<notin> {''done'', ''cancelled''}"
    "role = ''executor'' \<Longrightarrow> enforce_gate_conn (x_pointer x) task s = Inr ()"
    "\<not> cleanup_blocked task s" "\<not> predecessor_runtime_active task s"
    "insert_assignment a s = Inr (s\<lparr>assignments := assignments s @ [a]\<rparr>)"
    "assignments s' = assignments s @ [a]" "runs s' = runs s"
    "tasks s' = update_where (\<lambda>t. t_id t = task)
       (\<lambda>t. t\<lparr>t_state := (if role = ''executor'' \<and> t_state t = ''ready'' then ''in_progress'' else t_state t),
            t_updated_at := now\<rparr>) (tasks s)"
    "takeovers s' = takeovers s" "requests s' = requests s" "agents s' = agents s"
proof -
  let ?a = "claimed task agent role n intake fresh now"
  from assms obtain s1 s2 where
    gate: "(if role = ''executor'' then enforce_gate_conn (x_pointer x) task s else Inr ()) = Inr ()"
    and clean: "\<not> cleanup_blocked task s" "\<not> predecessor_runtime_active task s"
    and insert: "(case find_task task s of
          None \<Rightarrow> Inl (NotFound (''task '' @ task))
        | Some t \<Rightarrow>
            if t_state t = ''done'' \<or> t_state t = ''cancelled''
            then Inl (Conflict (''task is '' @ t_state t))
            else (case insert_assignment ?a s of
                Inl UniqueViolation \<Rightarrow>
                  Inl (Conflict (''task role '' @ [CHR 0x27] @ role @ [CHR 0x27] @ '' already has an active assignment''))
              | Inl e \<Rightarrow> Inl (storage e)
              | Inr s' \<Rightarrow> Inr s')) = Inr s1"
    and intake: "(if intake \<and> role = ''executor'' then create_assignment_intake_tx fresh task agent now s1 else Inr s1) = Inr s2"
    and a: "a = ?a"
    and s': "assignments s' = assignments s2" "runs s' = runs s2" "takeovers s' = takeovers s2" "requests s' = requests s2"
      "agents s' = agents s2"
      "tasks s' = update_where (\<lambda>t. t_id t = task)
       (\<lambda>t. t\<lparr>t_state := (if role = ''executor'' \<and> t_state t = ''ready'' then ''in_progress'' else t_state t),
            t_updated_at := now\<rparr>) (tasks s2)"
    unfolding claim_task_tx_def res_simps Let_def claimed_def [symmetric]
    by (elim exE conjE) (rule that, simp, assumption, assumption, assumption, assumption, simp, auto simp: table_defs)
  from insert obtain t where t: "find_task task s = Some t" "t_state t \<notin> {''done'', ''cancelled''}"
    and ins: "insert_assignment ?a s = Inr s1"
    by (auto split: option.splits if_splits sum.splits sql_error.splits)
  then have s1: "s1 = s\<lparr>assignments := assignments s @ [?a]\<rparr>"
    by (simp add: insert_assignment_Inr)
  have "tasks s2 = tasks s1 \<and> assignments s2 = assignments s1 \<and> runs s2 = runs s1 \<and> takeovers s2 = takeovers s1
      \<and> requests s2 = requests s1 \<and> agents s2 = agents s1"
    using intake create_intake_tables [of fresh task agent now s1 s2] by (cases "intake \<and> role = ''executor''") auto
  with s' s1 have tables: "assignments s' = assignments s @ [a]" "runs s' = runs s" "takeovers s' = takeovers s"
    "requests s' = requests s" "agents s' = agents s"
    "tasks s' = update_where (\<lambda>t. t_id t = task)
       (\<lambda>t. t\<lparr>t_state := (if role = ''executor'' \<and> t_state t = ''ready'' then ''in_progress'' else t_state t),
            t_updated_at := now\<rparr>) (tasks s)"
    by (simp_all add: a)
  show thesis
    using gate ins unfolding s1 a [symmetric]
    by (intro that [OF a t _ clean _ tables(1,2,6,3,4,5)]) (auto split: if_splits)
qed

lemma claimed_simps [simp]:
  "a_id (claimed task agent role n intake fresh now) = fresh"
  "a_task (claimed task agent role n intake fresh now) = task"
  "a_role (claimed task agent role n intake fresh now) = role"
  "a_agent (claimed task agent role n intake fresh now) = agent"
  "a_status (claimed task agent role n intake fresh now) = ''active''"
  "a_acquired_at (claimed task agent role n intake fresh now) = now"
  "a_expires_at (claimed task agent role n intake fresh now) = lease_end now n"
  by (simp_all add: claimed_def)

text \<open>A run started without the intake check, as a claim does it.\<close>

lemma start_run_txE:
  assumes "start_run_tx x i actor conversation False fresh now s = Inr (v, s')"
  obtains a where "find_assignment i s = Some a" "a_status a = ''active''" "now < a_expires_at a" "a_agent a = actor"
    "\<not> list_ex (\<lambda>r. r_assignment r = i \<and> r_status r \<in> live_statuses) (runs s)"
    "r_id (v_run v) = fresh" "r_task (v_run v) = a_task a" "r_assignment (v_run v) = i" "r_agent (v_run v) = a_agent a"
    "r_status (v_run v) = ''running''"
    "runs s' = runs s @ [v_run v]" "assignments s' = assignments s" "tasks s' = tasks s"
    "takeovers s' = takeovers s" "requests s' = requests s" "agents s' = agents s"
proof -
  from assms show thesis
    unfolding start_run_tx_def res_simps Let_def de_Morgan_disj not_not if_False not_le
    by (elim exE conjE)
      (rule that, assumption+,
        auto simp: insert_run_Inr insert_run_context_def append_event_tx_def res_simps split: option.splits if_splits)
qed

text \<open>A run belongs to the task and the agent of its assignment.\<close>

lemma run_owner:
  assumes "store_ok s" "r \<in> set (runs s)" "b \<in> set (assignments s)" "a_id b = r_assignment r"
  shows "a_task b = r_task r \<and> a_agent b = r_agent r"
proof -
  from assms(1,2) have "(r_assignment r, r_task r, r_agent r) \<in> (\<lambda>a. (a_id a, a_task a, a_agent a)) ` set (assignments s)"
    unfolding store_ok_def core_ok_def by blast
  then obtain c where c: "c \<in> set (assignments s)" "a_id c = r_assignment r" "a_task c = r_task r" "a_agent c = r_agent r"
    by auto
  moreover have "b = c"
    using assms c(1,2) distinct_map_inj [of a_id "assignments s" b c] by (simp add: store_ok_def core_ok_def)
  ultimately show ?thesis by simp
qed

lemma updated_row:
  assumes "r \<in> set rows"
  shows "(if P r then f r else r) \<in> set (update_where P f rows)"
  using assms by (auto simp: set_update_where)

end
