(* ===== verification/Takeover.thy ===== *)
theory Takeover
  imports Claims
begin

text \<open>
  Executor takeover (\<open>morrows-store/src/takeover.rs\<close>): a successor agent takes a task in progress
  over from an executor whose lease is gone, or, forced by an operator, from a live one. The
  request carries an idempotency key; a receipt makes its repetition answer the first result.
\<close>

subsection \<open>The predecessor\<close>

definition unsafe_predecessor :: "id \<Rightarrow> db \<Rightarrow> string option" where
  "unsafe_predecessor task s =
     (if predecessor_runtime_active task s then Some ''managed launch or RuntimeScope is still active''
      else if cleanup_blocked task s
        \<or> list_ex (\<lambda>r. r_task r = task
             \<and> list_ex (\<lambda>b. rb_run b = r_id r \<and> rb_terminalized_at b = None) (runtime_bindings s)) (runs s)
        \<or> list_ex (\<lambda>r. r_task r = task \<and> list_ex (\<lambda>p. pv_run p = r_id r) (provisionings s)
             \<and> \<not> list_ex (\<lambda>b. rb_run b = r_id r) (runtime_bindings s)) (runs s)
        \<or> list_ex (\<lambda>w. jw_status w \<in> {''pending'', ''ready'', ''queued''}
             \<and> list_ex (\<lambda>r. r_id r = jw_run w \<and> r_task r = task) (runs s)) (job_waits s)
        \<or> list_ex (\<lambda>l. la_task l = task \<and> (la_status l = ''starting'' \<or> la_status l = ''running''))
            (launch_attempts s)
      then Some ''prior runtime, job or cleanup has not quiesced''
      else None)"

definition latest_executor :: "id \<Rightarrow> db \<Rightarrow> assignment option" where
  "latest_executor task s =
     last_max a_acquired_at (filter (\<lambda>a. a_task a = task \<and> a_role a = ''executor'') (assignments s))"

definition owner_live :: "assignment option \<Rightarrow> time \<Rightarrow> bool" where
  "owner_live previous now \<longleftrightarrow>
     (case previous of None \<Rightarrow> False | Some a \<Rightarrow> a_status a = ''active'' \<and> now < a_expires_at a)"

definition executor_run :: "id \<Rightarrow> db \<Rightarrow> run \<Rightarrow> bool" where
  "executor_run task s r \<longleftrightarrow>
     list_ex (\<lambda>a. a_id a = r_assignment r \<and> a_role a = ''executor'') (assignments s) \<and> r_task r = task"

subsection \<open>The advisory status\<close>

record takeover_status =
  tv_task :: id
  tv_state :: string
  tv_mode :: string
  tv_eligible :: bool
  tv_self_takeover :: bool
  tv_reason :: string
  tv_last_run :: "id option"
  tv_milestone_summary :: "string option"
  tv_executor :: "assignment option"

definition task_takeover_status :: "id \<Rightarrow> time \<Rightarrow> db \<Rightarrow> takeover_status res" where
  "task_takeover_status task now s =
     bind_res (ok_or (NotFound (''task '' @ task)) (find_task task s)) (\<lambda>t.
     let previous = latest_executor task s;
         live = owner_live previous now;
         blocked = unsafe_predecessor task s;
         eligible = (t_state t = ''in_progress'' \<and> \<not> live \<and> blocked = None);
         last_run = map_option r_id (last_max r_started_at (filter (executor_run task s) (runs s)));
         milestone = Option.bind last_run (\<lambda>i.
           last_max ml_sequence (filter (\<lambda>m. ml_run m = i) (milestones s))) in
     Inr \<lparr>tv_task = task, tv_state = t_state t, tv_mode = t_mode t, tv_eligible = eligible,
       tv_self_takeover = (eligible \<and> t_mode t = ''open''),
       tv_reason =
         (if t_state t \<noteq> ''in_progress'' then ''task is '' @ t_state t
          else if live then ''active executor lease''
          else case blocked of Some r \<Rightarrow> r | None \<Rightarrow> ''eligible for authenticated takeover''),
       tv_last_run = last_run,
       tv_milestone_summary = map_option (\<lambda>m. mi_summary (ml_content m)) milestone,
       tv_executor = previous\<rparr>)"

subsection \<open>The takeover\<close>

record takeover_request =
  tq_task :: id
  tq_successor :: id
  tq_lease :: int
  tq_reason :: string
  tq_force :: bool
  tq_operator :: "string option"
  tq_request :: "string option"

text \<open>The identifiers drawn: of a request without key, of the assignment and of the run.\<close>

record takeover_ids =
  ti_key :: string
  ti_assignment :: id
  ti_run :: id

definition takeover_key :: "takeover_request \<Rightarrow> takeover_ids \<Rightarrow> string" where
  "takeover_key q ids = (case tq_request q of Some k \<Rightarrow> k | None \<Rightarrow> ti_key ids)"

definition takeover_actor :: "takeover_request \<Rightarrow> string" where
  "takeover_actor q = (case tq_operator q of Some a \<Rightarrow> a | None \<Rightarrow> tq_successor q)"

definition check_takeover :: "takeover_request \<Rightarrow> takeover_ids \<Rightarrow> db \<Rightarrow> unit res" where
  "check_takeover q ids s =
     bind_res (get_agent (tq_successor q) s) (\<lambda>_.
     let reason = trim (tq_reason q); key = takeover_key q ids in
     bind_res (ensure (\<not> (reason = [] \<or> 1000 < chars_count reason))
       (InvalidInput ''takeover reason must contain 1..1000 characters'')) (\<lambda>_.
     bind_res (ensure (\<not> (tq_force q \<and> tq_operator q = None))
       (InvalidInput ''force takeover requires authenticated operator'')) (\<lambda>_.
     ensure (\<not> (blank key \<or> 128 < length key)) (InvalidInput ''takeover request_id must be 1..128 bytes''))))"

definition same_takeover :: "takeover_request \<Rightarrow> takeover_receipt \<Rightarrow> bool" where
  "same_takeover q k \<longleftrightarrow>
     tk_task k = tq_task q \<and> tk_successor k = tq_successor q \<and> tk_reason k = trim (tq_reason q)
     \<and> tk_force k = tq_force q"

definition find_takeover :: "string \<Rightarrow> string \<Rightarrow> db \<Rightarrow> takeover_receipt option" where
  "find_takeover actor key s = find (\<lambda>k. tk_actor k = actor \<and> tk_key k = key) (takeovers s)"

text \<open>The predecessor's runs are abandoned, its assignments released and the task made ready.\<close>

definition evict_executor :: "id \<Rightarrow> time \<Rightarrow> db \<Rightarrow> db" where
  "evict_executor task now s =
     (let s1 = update_runs (\<lambda>r. r_task r = task \<and> (r_status r = ''running'' \<or> r_status r = ''paused'')
            \<and> list_ex (\<lambda>a. a_id a = r_assignment r \<and> a_task a = task \<and> a_role a = ''executor'') (assignments s))
            (\<lambda>r. r\<lparr>r_status := ''abandoned'', r_stop_reason := Some ''takeover'', r_ended_at := Some now\<rparr>) s;
          s2 = update_assignments (\<lambda>a. a_task a = task \<and> a_role a = ''executor''
            \<and> (a_status a = ''active'' \<or> a_status a = ''expired''))
            (\<lambda>a. a\<lparr>a_status := ''released'', a_released_at := Some now, a_release_reason := Some ''takeover''\<rparr>) s1
      in update_tasks (\<lambda>t. t_id t = task \<and> t_state t = ''in_progress'')
           (\<lambda>t. t\<lparr>t_state := ''ready'', t_updated_at := now\<rparr>) s2)"

text \<open>
  The transaction answers the identifiers of an earlier request's result, which are read back after
  the commit, or the new assignment and run.
\<close>

definition takeover_tx ::
  "external \<Rightarrow> takeover_request \<Rightarrow> takeover_ids \<Rightarrow> time \<Rightarrow> (db, id \<times> id + assignment \<times> run_view) tx" where
  "takeover_tx x q ids now s =
     (let task = tq_task q; actor = takeover_actor q; key = takeover_key q ids; reason = trim (tq_reason q) in
      case find_takeover actor key s of
        Some k \<Rightarrow>
          bind_res (ensure (same_takeover q k)
            (Conflict ''takeover request_id reused with a different payload'')) (\<lambda>_.
          Inr (Inl (tk_assignment k, tk_run k), s))
      | None \<Rightarrow>
          bind_res (ok_or (NotFound (''task '' @ task)) (find_task task s)) (\<lambda>t.
          bind_res (ensure (t_state t = ''in_progress'')
            (Conflict (''task is '' @ t_state t @ ''; takeover needs in_progress''))) (\<lambda>_.
          bind_res (ensure (\<not> (\<not> tq_force q \<and> t_mode t \<noteq> ''open''))
            (Conflict (t_mode t @ '' tasks require authorized control-plane assignment''))) (\<lambda>_.
          bind_res (refuse (\<lambda>r. Conflict (''takeover_blocked: '' @ r)) (unsafe_predecessor task s)) (\<lambda>_.
          let previous = latest_executor task s in
          bind_res (ensure (\<not> (owner_live previous now \<and> \<not> tq_force q))
            (Conflict ''active executor lease; ordinary agents cannot preempt'')) (\<lambda>_.
          let old_runs = map r_id (filter (\<lambda>r. executor_run task s r
                \<and> (r_status r = ''running'' \<or> r_status r = ''paused'')) (runs s)) in
          bind_res (claim_task_tx x task (tq_successor q) ''executor'' (tq_lease q) True (ti_assignment ids) now
            (evict_executor task now s)) (\<lambda>(a, s1).
          bind_res (start_run_tx x (a_id a) (tq_successor q) None False (ti_run ids) now s1) (\<lambda>(v, s2).
          let receipt = \<lparr>tk_actor = actor, tk_key = key, tk_task = task, tk_successor = tq_successor q,
                tk_reason = reason, tk_force = tq_force q, tk_assignment = a_id a, tk_run = r_id (v_run v),
                tk_created_at = now\<rparr> in
          Inr (Inr (a, v), append_event_tx (if tq_force q then ''operator'' else ''agent_instance'') actor
            ''task'' task ''task.executor_taken_over''
            [(''previous_assignment'', p_opt (map_option a_id previous)),
             (''previous_agent'', p_opt (map_option a_agent previous)),
             (''previous_run_ids'', PList (map PStr old_runs)),
             (''new_assignment_id'', PStr (a_id a)), (''new_run_id'', PStr (r_id (v_run v))),
             (''successor'', PStr (tq_successor q)), (''reason'', PStr reason),
             (''force'', PBool (tq_force q)), (''request_id'', PStr key)] None now
            (s2\<lparr>takeovers := takeovers s2 @ [receipt]\<rparr>))))))))))"

definition read_takeover :: "id \<times> id + assignment \<times> run_view \<Rightarrow> db \<Rightarrow> (assignment \<times> run_view) res" where
  "read_takeover r s =
     (case r of
        Inl (i, j) \<Rightarrow> bind_res (get_assignment i s) (\<lambda>a. bind_res (get_run j s) (\<lambda>v. Inr (a, v)))
      | Inr claim \<Rightarrow> Inr claim)"

definition takeover_task_request ::
  "external \<Rightarrow> takeover_request \<Rightarrow> takeover_ids \<Rightarrow> time \<Rightarrow> (db, assignment \<times> run_view) operation" where
  "takeover_task_request x q ids now =
     checked (check_takeover q ids) (\<lambda>_. commit_then (takeover_tx x q ids now) read_takeover)"

definition takeover_task ::
  "external \<Rightarrow> takeover_request \<Rightarrow> takeover_ids \<Rightarrow> time \<Rightarrow> (db, assignment \<times> run_view) operation" where
  "takeover_task x q = takeover_task_request x (q\<lparr>tq_request := None\<rparr>)"

subsection \<open>The store after a takeover\<close>

lemma evict_tables:
  "takeovers (evict_executor task now s) = takeovers s" "agents (evict_executor task now s) = agents s"
  by (simp_all add: evict_executor_def Let_def table_defs)

lemma keeps_evict: "keeps s (evict_executor task now s)"
  unfolding evict_executor_def Let_def
  by (rule keeps_trans [OF keeps_trans [OF keeps_update_runs keeps_update_assignments] keeps_update_tasks])
    (auto simp: row_defs)

lemma takeover_txE:
  assumes "takeover_tx x q ids now s = Inr (Inr (a, v), s')"
  obtains t s1 s2 where "find_takeover (takeover_actor q) (takeover_key q ids) s = None"
    "find_task (tq_task q) s = Some t" "t_state t = ''in_progress''" "tq_force q \<or> t_mode t = ''open''"
    "unsafe_predecessor (tq_task q) s = None"
    "tq_force q \<or> \<not> owner_live (latest_executor (tq_task q) s) now"
    "claim_task_tx x (tq_task q) (tq_successor q) ''executor'' (tq_lease q) True (ti_assignment ids) now
       (evict_executor (tq_task q) now s) = Inr (a, s1)"
    "start_run_tx x (a_id a) (tq_successor q) None False (ti_run ids) now s1 = Inr (v, s2)"
    "runs s' = runs s2" "assignments s' = assignments s2" "tasks s' = tasks s2" "agents s' = agents s2"
    "takeovers s' = takeovers s2 @ [\<lparr>tk_actor = takeover_actor q, tk_key = takeover_key q ids, tk_task = tq_task q,
       tk_successor = tq_successor q, tk_reason = trim (tq_reason q), tk_force = tq_force q, tk_assignment = a_id a,
       tk_run = r_id (v_run v), tk_created_at = now\<rparr>]"
    "keeps s2 s'"
proof -
  from assms have none: "find_takeover (takeover_actor q) (takeover_key q ids) s = None"
    by (auto simp: takeover_tx_def Let_def res_simps split: option.splits)
  with assms none show thesis
    unfolding takeover_tx_def Let_def res_simps
    by (simp only: option.case res_simps split_paired_Ex prod.case sum.inject prod.inject de_Morgan_conj not_not,
        elim exE conjE, hypsubst)
      (rule that, simp_all, auto simp: append_event_tx_def)
qed

lemma keeps_takeover_tx:
  assumes "takeover_tx x q ids now s = Inr (r, s')"
  shows "keeps s s'"
proof (cases r)
  case (Inl i)
  with assms show ?thesis by (auto simp: takeover_tx_def Let_def res_simps split: option.splits)
next
  case (Inr c)
  obtain a v where "c = (a, v)" by (cases c)
  with assms Inr have tx: "takeover_tx x q ids now s = Inr (Inr (a, v), s')" by simp
  from tx obtain s1 s2 where
    c: "claim_task_tx x (tq_task q) (tq_successor q) ''executor'' (tq_lease q) True (ti_assignment ids) now
      (evict_executor (tq_task q) now s) = Inr (a, s1)"
    and r: "start_run_tx x (a_id a) (tq_successor q) None False (ti_run ids) now s1 = Inr (v, s2)" and k: "keeps s2 s'"
    by (rule takeover_txE)
  show ?thesis
    by (rule keeps_trans [OF keeps_trans [OF keeps_trans [OF keeps_evict keeps_claim_task_tx [OF c]] keeps_start_run_tx [OF r]] k])
qed

text \<open>The receipt written last is found by the key of its request.\<close>

lemma takeover_receipt:
  assumes "takeover_tx x q ids now s = Inr (Inr (a, v), s')"
  shows "\<exists>k. find_takeover (takeover_actor q) (takeover_key q ids) s' = Some k \<and> same_takeover q k
    \<and> tk_task k = tq_task q \<and> tk_assignment k = a_id a \<and> tk_run k = r_id (v_run v)"
    and "find_assignment (a_id a) s' \<noteq> None" "find_run (r_id (v_run v)) s' \<noteq> None"
proof -
  from assms obtain s1 s2 where none: "find_takeover (takeover_actor q) (takeover_key q ids) s = None"
    and c: "claim_task_tx x (tq_task q) (tq_successor q) ''executor'' (tq_lease q) True (ti_assignment ids) now
      (evict_executor (tq_task q) now s) = Inr (a, s1)"
    and r: "start_run_tx x (a_id a) (tq_successor q) None False (ti_run ids) now s1 = Inr (v, s2)"
    and tables: "runs s' = runs s2" "assignments s' = assignments s2"
      "takeovers s' = takeovers s2 @ [\<lparr>tk_actor = takeover_actor q, tk_key = takeover_key q ids, tk_task = tq_task q,
       tk_successor = tq_successor q, tk_reason = trim (tq_reason q), tk_force = tq_force q, tk_assignment = a_id a,
       tk_run = r_id (v_run v), tk_created_at = now\<rparr>]"
    by (rule takeover_txE)
  from c r have same: "takeovers s2 = takeovers s" "a \<in> set (assignments s2)" "v_run v \<in> set (runs s2)"
    by (auto elim!: claim_task_txE start_run_txE simp: evict_tables)
  show "\<exists>k. find_takeover (takeover_actor q) (takeover_key q ids) s' = Some k \<and> same_takeover q k
    \<and> tk_task k = tq_task q \<and> tk_assignment k = a_id a \<and> tk_run k = r_id (v_run v)"
    using none by (simp add: find_takeover_def tables same find_append same_takeover_def)
  show "find_assignment (a_id a) s' \<noteq> None" "find_run (r_id (v_run v)) s' \<noteq> None"
    using same(2,3) by (auto simp: find_assignment_def find_run_def find_None_iff tables)
qed


text \<open>An executor whose lease has expired, and another agent.\<close>

definition example_lapsed_store :: db where
  "example_lapsed_store = empty_db\<lparr>
     tasks := [example_task ''t'' ''in_progress''], agents := [example_agent ''e'', example_agent ''g''],
     assignments := [example_assignment ''ae'' ''t'' ''executor'' ''e'' ''active'' 10],
     runs := [example_run ''xe'' ''t'' ''ae'' ''e'' ''running'']\<rparr>"

definition example_takeover :: takeover_request where
  "example_takeover = \<lparr>tq_task = ''t'', tq_successor = ''g'', tq_lease = 60, tq_reason = ''lapsed'', tq_force = False,
     tq_operator = None, tq_request = Some ''k''\<rparr>"

definition example_takeover_ids :: takeover_ids where
  "example_takeover_ids = \<lparr>ti_key = ''u'', ti_assignment = ''ag'', ti_run = ''xg''\<rparr>"

lemmas takeover_example_defs = example_lapsed_store_def example_takeover_def example_takeover_ids_def example_defs

lemma example_lapsed_ok: "store_ok example_lapsed_store"
  by (simp add: store_ok_def core_ok_def graph_ok_def contexts_ok_def revisions_ok_def history_def deps_in_tasks_def
      dep_rel_def wf_acyclic takeover_example_defs task_is_def)

lemma example_taken_over:
  "\<exists>a v s'. takeover_tx example_external example_takeover example_takeover_ids 20 example_lapsed_store = Inr (Inr (a, v), s')"
proof -
  have "case takeover_tx example_external example_takeover example_takeover_ids 20 example_lapsed_store of
      Inr (Inr c, s') \<Rightarrow> True | _ \<Rightarrow> False"
    by code_simp
  then show ?thesis by (auto split: sum.splits prod.splits)
qed


text \<open>The checks of the example's request, and its answer.\<close>

lemma example_trims: "trim ''lapsed'' = ''lapsed''" "\<not> blank ''k''"
  by code_simp+

lemma example_takeover_checked:
  assumes "find_agent ''g'' s \<noteq> None"
  shows "check_takeover example_takeover example_takeover_ids s = Inr ()"
  using assms by (auto simp: check_takeover_def get_agent_def takeover_key_def example_takeover_def example_trims
      chars_count_def Let_def)

lemma example_takeover_answers:
  assumes "takeover_tx example_external example_takeover example_takeover_ids 20 s = Inr (Inr c, s')"
    "find_agent ''g'' s \<noteq> None"
  shows "takeover_task_request example_external example_takeover example_takeover_ids 20 s = (Inr c, s')"
  using assms by (simp add: takeover_task_request_def checked_def example_takeover_checked commit_then_def read_takeover_def)

text \<open>What a request that answered left behind.\<close>

lemma takeover_answered:
  assumes "takeover_task_request x q ids now s = (Inr (a, v), s')"
  obtains rc a' v' where "find_takeover (takeover_actor q) (takeover_key q ids) s' = Some rc" "same_takeover q rc"
    "get_assignment (tk_assignment rc) s' = Inr a'" "get_run (tk_run rc) s' = Inr v'"
    "a_id a' = a_id a" "r_id (v_run v') = r_id (v_run v)" "check_takeover q ids s' = Inr ()"
proof -
  have read: "get_assignment i s' = Inr b \<Longrightarrow> a_id b = i" "get_run j s' = Inr w \<Longrightarrow> r_id (v_run w) = j" for i j b w
    by (auto simp: get_assignment_def get_run_def row_to_run_def res_simps dest: find_assignment_SomeD find_run_SomeD)
  from assms obtain c where check: "check_takeover q ids s = Inr ()"
    and tx: "takeover_tx x q ids now s = Inr (c, s')" and answer: "read_takeover c s' = Inr (a, v)"
    by (auto simp: takeover_task_request_def checked_Inr_iff commit_then_Inr)
  show thesis
  proof (cases c)
    case (Inl ij)
    obtain i j where ij: "ij = (i, j)" by (cases ij)
    with tx Inl obtain rc where "s' = s" "find_takeover (takeover_actor q) (takeover_key q ids) s = Some rc"
      "same_takeover q rc" "tk_assignment rc = i" "tk_run rc = j"
      by (auto simp: takeover_tx_def Let_def res_simps split: option.splits)
    with answer Inl ij check show thesis by (intro that [of rc a v]) (auto simp: read_takeover_def res_simps)
  next
    case (Inr d)
    with answer have d: "d = (a, v)" by (simp add: read_takeover_def)
    note tx' = tx [unfolded Inr d]
    from takeover_receipt [OF tx'] obtain rc b r where rc: "find_takeover (takeover_actor q) (takeover_key q ids) s' = Some rc"
      "same_takeover q rc" "tk_assignment rc = a_id a" "tk_run rc = r_id (v_run v)"
      and found: "find_assignment (a_id a) s' = Some b" "find_run (r_id (v_run v)) s' = Some r" by blast
    have "agents s' = agents s"
      using tx' by (rule takeover_txE) (auto elim!: claim_task_txE start_run_txE simp: evict_tables)
    with check have "check_takeover q ids s' = Inr ()"
      by (simp add: check_takeover_def get_agent_def find_agent_def)
    moreover have "get_assignment (tk_assignment rc) s' = Inr b" "get_run (tk_run rc) s' = Inr (row_to_run s' r)"
      by (simp_all add: get_assignment_def get_run_def rc found)
    ultimately show thesis using rc read(1) [of "tk_assignment rc" b] read(2) [of "tk_run rc" "row_to_run s' r"]
      by (intro that [of rc b "row_to_run s' r"]) simp_all
  qed
qed

text \<open>
  C23. The repetition of a takeover request answers the same assignment and run and changes
  nothing; a request of the same actor with the same key and other contents is a conflict.
\<close>

theorem takeover_is_idempotent:
  assumes "takeover_task_request x q ids now s = (Inr (a, v), s')" "tq_request q = Some k"
  shows "(\<exists>a' v'. takeover_task_request x q ids' later s' = (Inr (a', v'), s')
      \<and> a_id a' = a_id a \<and> r_id (v_run v') = r_id (v_run v))
    \<and> (\<forall>p. tq_request p = Some k \<and> takeover_actor p = takeover_actor q \<and> check_takeover p ids' s' = Inr ()
        \<and> (tq_task p, tq_successor p, trim (tq_reason p), tq_force p)
            \<noteq> (tq_task q, tq_successor q, trim (tq_reason q), tq_force q)
      \<longrightarrow> takeover_task_request x p ids' later s'
          = (Inl (Conflict ''takeover request_id reused with a different payload''), s'))"
proof -
  from assms(1) obtain rc a' v' where rc: "find_takeover (takeover_actor q) (takeover_key q ids) s' = Some rc"
    "same_takeover q rc" "get_assignment (tk_assignment rc) s' = Inr a'" "get_run (tk_run rc) s' = Inr v'"
    "a_id a' = a_id a" "r_id (v_run v') = r_id (v_run v)" "check_takeover q ids s' = Inr ()"
    by (rule takeover_answered)
  have key: "takeover_key p i = k" if "tq_request p = Some k" for p i
    using that by (simp add: takeover_key_def)
  have "check_takeover q ids' s' = Inr ()"
    using rc(7) by (simp add: check_takeover_def key [OF assms(2)])
  then have "takeover_task_request x q ids' later s' = (Inr (a', v'), s')"
    using rc by (simp add: takeover_task_request_def takeover_tx_def Let_def key [OF assms(2)] commit_then_def read_takeover_def)
  moreover have "takeover_task_request x p ids' later s'
      = (Inl (Conflict ''takeover request_id reused with a different payload''), s')"
    if "tq_request p = Some k" "takeover_actor p = takeover_actor q" "check_takeover p ids' s' = Inr ()"
      "(tq_task p, tq_successor p, trim (tq_reason p), tq_force p)
            \<noteq> (tq_task q, tq_successor q, trim (tq_reason q), tq_force q)" for p
  proof -
    have "\<not> same_takeover p rc" using rc(2) that(4) by (auto simp: same_takeover_def)
    with that rc(1) show ?thesis
      by (simp add: takeover_task_request_def takeover_tx_def Let_def key [OF assms(2)] key commit_then_def)
  qed
  ultimately show ?thesis using rc(5,6) by blast
qed

theorem takeover_is_idempotent_witness:
  "\<exists>a v s' a' v'. takeover_task_request example_external example_takeover example_takeover_ids 20 example_lapsed_store = (Inr (a, v), s')
     \<and> takeover_task_request example_external example_takeover example_takeover_ids 30 s' = (Inr (a', v'), s')
     \<and> a_id a' = a_id a"
proof -
  from example_taken_over obtain a v s' where
    "takeover_tx example_external example_takeover example_takeover_ids 20 example_lapsed_store = Inr (Inr (a, v), s')" by blast
  then have op: "takeover_task_request example_external example_takeover example_takeover_ids 20 example_lapsed_store = (Inr (a, v), s')"
    by (rule example_takeover_answers) (simp add: find_agent_def takeover_example_defs)
  have "tq_request example_takeover = Some ''k''" by (simp add: example_takeover_def)
  from takeover_is_idempotent [OF op this, of example_takeover_ids 30] op show ?thesis by blast
qed

text \<open>
  Two executors whose leases expired one after the other: the first, still at work, recovers its
  assignment, which \<open>recover_assignment\<close> allows.
\<close>

definition example_recovered_store :: db where
  "example_recovered_store = (case recover_assignment_tx ''ae'' ''xe'' ''e'' 60 ''back'' 15 (empty_db\<lparr>
     tasks := [example_task ''t'' ''in_progress''],
     agents := [example_agent ''e'', example_agent ''f'', example_agent ''g''],
     assignments := [(example_assignment ''ae'' ''t'' ''executor'' ''e'' ''expired'' 5)\<lparr>a_release_reason := Some ''lease_expired''\<rparr>,
       (example_assignment ''af'' ''t'' ''executor'' ''f'' ''expired'' 9)\<lparr>a_acquired_at := 6,
          a_release_reason := Some ''lease_expired''\<rparr>],
     runs := [example_run ''xe'' ''t'' ''ae'' ''e'' ''running'']\<rparr>) of Inr (_, s) \<Rightarrow> s | Inl _ \<Rightarrow> empty_db)"

text \<open>
  Only the assignment acquired last is asked for a live lease: an ordinary agent takes a task
  over, unforced, from an executor whose older assignment was recovered and is live.
\<close>

theorem recovered_executor_is_preempted:
  "(\<exists>b \<in> set (assignments example_recovered_store). a_task b = ''t'' \<and> a_role b = ''executor'' \<and> active b
      \<and> 20 < a_expires_at b)
   \<and> (\<exists>c s'. takeover_task_request example_external example_takeover example_takeover_ids 20 example_recovered_store = (Inr c, s'))
   \<and> \<not> tq_force example_takeover"
proof -
  have "list_ex (\<lambda>b. a_task b = ''t'' \<and> a_role b = ''executor'' \<and> active b \<and> 20 < a_expires_at b) (assignments example_recovered_store)"
    by code_simp
  moreover have "list_ex (\<lambda>b. ag_id b = ''g'') (agents example_recovered_store)" by code_simp
  then have "find_agent ''g'' example_recovered_store \<noteq> None"
    by (auto simp: find_agent_def find_None_iff list_ex_iff)
  moreover have "case takeover_tx example_external example_takeover example_takeover_ids 20 example_recovered_store of
      Inr (Inr c, s') \<Rightarrow> True | _ \<Rightarrow> False"
    by code_simp
  then obtain c s' where "takeover_tx example_external example_takeover example_takeover_ids 20 example_recovered_store = Inr (Inr c, s')"
    by (auto split: sum.splits prod.splits)
  ultimately show ?thesis
    using example_takeover_answers by (auto simp: list_ex_iff example_takeover_def)
qed

end
