(* ===== verification/Requests.thy ===== *)
theory Requests
  imports Claims
begin

text \<open>
  Assignment requests (\<open>morrows-store/src/assignment_request.rs\<close>): an agent asks for a role of
  an approval task, and the control plane approves or rejects, or the agent withdraws. With them the
  continuation policy of a task and the recovery context of its next executor
  (\<open>morrows-store/src/continuation.rs\<close>).
\<close>

subsection \<open>Requests\<close>

text \<open>The foreign keys, the primary key and the unique index \<open>one_pending_assignment_request\<close>.\<close>

definition insert_request :: "assignment_request \<Rightarrow> db \<Rightarrow> sql_error + db" where
  "insert_request q s =
     (if list_ex (\<lambda>p. ar_id p = ar_id q) (requests s) then Inl PrimaryKeyViolation
      else if ar_status q = ''pending'' \<and> list_ex (\<lambda>p. ar_task p = ar_task q \<and> ar_agent p = ar_agent q
          \<and> ar_role p = ar_role q \<and> ar_status p = ''pending'') (requests s)
      then Inl UniqueViolation
      else if find_task (ar_task q) s = None \<or> find_agent (ar_agent q) s = None then Inl ForeignKeyViolation
      else Inr (s\<lparr>requests := requests s @ [q]\<rparr>))"

definition find_request :: "id \<Rightarrow> db \<Rightarrow> assignment_request option" where
  "find_request i s = find (\<lambda>q. ar_id q = i) (requests s)"

definition get_assignment_request :: "id \<Rightarrow> db \<Rightarrow> assignment_request res" where
  "get_assignment_request i s = ok_or (NotFound (''assignment request '' @ i)) (find_request i s)"

definition live_assignment :: "id \<Rightarrow> id \<Rightarrow> string \<Rightarrow> time \<Rightarrow> assignment \<Rightarrow> bool" where
  "live_assignment task agent role now a \<longleftrightarrow>
     a_task a = task \<and> a_agent a = agent \<and> a_role a = role \<and> a_status a = ''active'' \<and> now < a_expires_at a"

text \<open>The transaction answers an earlier pending request, or the identifier of the new one.\<close>

definition request_assignment_tx ::
  "id \<Rightarrow> id \<Rightarrow> string \<Rightarrow> string \<Rightarrow> id \<Rightarrow> time \<Rightarrow> (db, assignment_request + id) tx" where
  "request_assignment_tx task agent role reason fresh now s =
     bind_res (ok_or (NotFound (''task '' @ task)) (find_task task s)) (\<lambda>row.
     bind_res (row_to_task row) (\<lambda>t.
     bind_res (ensure (k_state t \<noteq> Done \<and> k_state t \<noteq> Cancelled)
       (Conflict (''task is '' @ task_state_display (k_state t)))) (\<lambda>_.
     bind_res (case k_mode t of
         Approval \<Rightarrow> Inr ()
       | Open \<Rightarrow> Inl (Conflict ''task is open; use task_claim to start execution directly'')
       | Dispatch \<Rightarrow> Inl (Conflict ''task is dispatcher-managed and does not accept assignment requests'')) (\<lambda>_.
     case find (\<lambda>q. ar_task q = task \<and> ar_agent q = agent \<and> ar_role q = role \<and> ar_status q = ''pending'') (requests s) of
       Some q \<Rightarrow>
         bind_res (ensure (ar_reason q = reason)
           (Conflict (''pending request '' @ ar_id q
              @ '' already exists with a different reason; withdraw it before submitting a replacement''))) (\<lambda>_.
         Inr (Inl q, s))
     | None \<Rightarrow>
         bind_res (ensure (\<not> list_ex (live_assignment task agent role now) (assignments s))
           (Conflict ''already assigned; read task_context for execution state'')) (\<lambda>_.
         bind_res (exec (insert_request
           \<lparr>ar_id = fresh, ar_task = task, ar_agent = agent, ar_role = role, ar_reason = reason, ar_status = ''pending'',
            ar_assignment = None, ar_resolution = None, ar_created_at = now, ar_resolved_at = None\<rparr> s)) (\<lambda>s1.
         Inr (Inr fresh, append_event_tx ''agent_instance'' agent ''task'' task ''assignment.requested''
           [(''request_id'', PStr fresh), (''role'', PStr role)] None now s1)))))))"

definition request_assignment ::
  "id \<Rightarrow> id \<Rightarrow> string \<Rightarrow> string \<Rightarrow> id \<Rightarrow> time \<Rightarrow> (db, assignment_request) operation" where
  "request_assignment task agent role reason fresh now =
     checked (\<lambda>s. bind_res (get_agent agent s) (\<lambda>_.
         ensure (\<not> (trim role = [] \<or> 100 < length (trim role) \<or> trim reason = []))
           (InvalidInput ''provide role (1..100 bytes) and reason'')))
       (\<lambda>_. commit_then (request_assignment_tx task agent (trim role) (trim reason) fresh now)
          (\<lambda>r s. case r of Inl q \<Rightarrow> Inr q | Inr i \<Rightarrow> get_assignment_request i s))"

definition assignment_requests_page ::
  "id option \<Rightarrow> id option \<Rightarrow> bool \<Rightarrow> int \<Rightarrow> int \<Rightarrow> db \<Rightarrow> assignment_request page res" where
  "assignment_requests_page task agent include_resolved limit offset s =
     fetch_page (rev (sort_key (\<lambda>q. (ar_created_at q, ar_id q))
       (filter (\<lambda>q. (task = None \<or> task = Some (ar_task q)) \<and> (agent = None \<or> agent = Some (ar_agent q))
          \<and> (include_resolved \<or> ar_status q = ''pending'')) (requests s)))) limit offset"

subsection \<open>Their resolution\<close>

definition resolution_status :: "id option \<Rightarrow> string \<Rightarrow> string res" where
  "resolution_status employee action =
     (if employee = None \<and> action = ''approve'' then Inr ''approved''
      else if employee = None \<and> action = ''reject'' then Inr ''rejected''
      else if employee \<noteq> None \<and> action = ''withdraw'' then Inr ''withdrawn''
      else Inl (InvalidInput ''control plane may approve/reject; employee may withdraw''))"

text \<open>The assignment of an approval: the one the requester holds already, or a new claim.\<close>

definition approve_request_tx ::
  "external \<Rightarrow> assignment_request \<Rightarrow> int \<Rightarrow> id \<Rightarrow> time \<Rightarrow> (db, id) tx" where
  "approve_request_tx x q lease fresh now s =
     bind_res (ok_or no_rows (find_task (ar_task q) s)) (\<lambda>t.
     bind_res (ensure (t_mode t = ''approval'')
       (Conflict (''task assignment mode is '' @ t_mode t @ ''; approval is no longer valid''))) (\<lambda>_.
     bind_res (ensure (t_state t \<noteq> ''done'' \<and> t_state t \<noteq> ''cancelled'') (Conflict (''task is '' @ t_state t))) (\<lambda>_.
     case find (live_assignment (ar_task q) (ar_agent q) (ar_role q) now) (assignments s) of
       Some a \<Rightarrow> Inr (a_id a, s)
     | None \<Rightarrow>
         bind_res (claim_task_tx x (ar_task q) (ar_agent q) (ar_role q) lease True fresh now s) (\<lambda>(a, s1).
         Inr (a_id a, s1)))))"

definition resolve_request_tx ::
  "external \<Rightarrow> id \<Rightarrow> id option \<Rightarrow> string \<Rightarrow> string \<Rightarrow> int \<Rightarrow> id \<Rightarrow> time \<Rightarrow> (db, assignment_request option) tx" where
  "resolve_request_tx x i employee status resolution lease fresh now s =
     bind_res (get_assignment_request i s) (\<lambda>q.
     bind_res (ensure (\<not> (employee \<noteq> None \<and> employee \<noteq> Some (ar_agent q)))
       (Conflict ''assignment request belongs to another agent'')) (\<lambda>_.
     if ar_status q = status then Inr (Some q, s)
     else
       bind_res (ensure (ar_status q = ''pending'') (Conflict (''request is '' @ ar_status q))) (\<lambda>_.
       bind_res (if status = ''approved''
           then bind_res (approve_request_tx x q lease fresh now s) (\<lambda>(a, s1). Inr (Some a, s1))
           else Inr (None, s)) (\<lambda>(a, s1).
       Inr (None, append_event_tx (if employee = None then ''operator'' else ''agent_instance'')
         (case employee of None \<Rightarrow> ''control-plane'' | Some e \<Rightarrow> e) ''task'' (ar_task q) ''assignment.request_resolved''
         [(''request_id'', PStr i), (''status'', PStr status), (''assignment_id'', p_opt a), (''resolution'', PStr resolution)]
         None now
         (s1\<lparr>requests := update_where (\<lambda>p. ar_id p = i)
            (\<lambda>p. p\<lparr>ar_status := status, ar_assignment := a, ar_resolution := Some (trim resolution),
               ar_resolved_at := Some now\<rparr>) (requests s1)\<rparr>))))))"

definition resolve_assignment_request ::
  "external \<Rightarrow> id \<Rightarrow> id option \<Rightarrow> string \<Rightarrow> string \<Rightarrow> int \<Rightarrow> id \<Rightarrow> time \<Rightarrow> (db, assignment_request) operation" where
  "resolve_assignment_request x i employee action resolution lease fresh now =
     checked (\<lambda>_. bind_res (resolution_status employee action) (\<lambda>status.
         bind_res (ensure (\<not> blank resolution) (InvalidInput ''resolution reason is required'')) (\<lambda>_. Inr status)))
       (\<lambda>status. commit_then (resolve_request_tx x i employee status resolution lease fresh now)
          (\<lambda>r s. case r of Some q \<Rightarrow> Inr q | None \<Rightarrow> get_assignment_request i s))"

subsection \<open>Continuation\<close>

definition load_policy :: "id \<Rightarrow> db \<Rightarrow> continuation_policy option" where
  "load_policy task s = find (\<lambda>p. cp_task p = task) (continuations s)"

definition task_continuation_policy :: "id \<Rightarrow> db \<Rightarrow> (bool \<times> id list) option res" where
  "task_continuation_policy task s =
     bind_res (get_task task s) (\<lambda>_. Inr (map_option (\<lambda>p. (cp_enabled p, cp_agents p)) (load_policy task s)))"

fun get_agents :: "id list \<Rightarrow> db \<Rightarrow> unit res" where
  "get_agents [] s = Inr ()"
| "get_agents (i # is) s = bind_res (get_agent i s) (\<lambda>_. get_agents is s)"

definition check_continuation :: "id \<Rightarrow> bool \<Rightarrow> id list \<Rightarrow> db \<Rightarrow> unit res" where
  "check_continuation task enabled ids s =
     bind_res (get_task task s) (\<lambda>_.
     bind_res (ensure (\<not> (32 < length ids \<or> \<not> distinct ids \<or> enabled \<and> ids = []))
       (InvalidInput ''continuation needs 1..32 distinct Agent IDs when enabled'')) (\<lambda>_.
     get_agents ids s))"

definition set_continuation_tx :: "id \<Rightarrow> bool \<Rightarrow> id list \<Rightarrow> time \<Rightarrow> (db, bool \<times> id list) tx" where
  "set_continuation_tx task enabled ids now s =
     bind_res (exec (if find_task task s = None then Inl ForeignKeyViolation else Inr ())) (\<lambda>_.
     Inr ((enabled, ids), append_event_tx ''operator'' ''control-plane'' ''task'' task ''continuation.policy_updated''
       [(''enabled'', PBool enabled), (''agent_ids'', PList (map PStr ids))] None now
       (s\<lparr>continuations :=
          (if list_ex (\<lambda>p. cp_task p = task) (continuations s)
           then update_where (\<lambda>p. cp_task p = task)
             (\<lambda>p. p\<lparr>cp_enabled := enabled, cp_agents := ids, cp_updated_at := now\<rparr>) (continuations s)
           else continuations s @ [\<lparr>cp_task = task, cp_enabled = enabled, cp_agents = ids, cp_updated_at = now\<rparr>])\<rparr>)))"

definition set_task_continuation_policy :: "id \<Rightarrow> bool \<Rightarrow> id list \<Rightarrow> time \<Rightarrow> (db, bool \<times> id list) operation" where
  "set_task_continuation_policy task enabled ids now =
     checked (check_continuation task enabled ids) (\<lambda>_. commit (set_continuation_tx task enabled ids now))"

text \<open>The last run of a former executor, joined with its pinned context, its handoff and its checkpoint.\<close>

record predecessor =
  pr_run :: id
  pr_agent :: id
  pr_status :: string
  pr_stop_reason :: "string option"
  pr_milestone :: "milestone_row option"
  pr_checkpoint :: "json option"
  pr_checkpoint_at :: "time option"
  pr_context :: "id option"
  pr_handoff :: "id option"
  pr_started_at :: time
  pr_ended_at :: "time option"

datatype recovery_context = Unavailable string | Available predecessor

definition former_run :: "id \<Rightarrow> db \<Rightarrow> run \<Rightarrow> bool" where
  "former_run task s r \<longleftrightarrow>
     r_task r = task
     \<and> list_ex (\<lambda>a. a_id a = r_assignment r \<and> a_role a = ''executor'' \<and> a_status a \<noteq> ''active'') (assignments s)"

definition checkpoint_time :: "id \<Rightarrow> db \<Rightarrow> time option" where
  "checkpoint_time run s =
     map_option ev_created_at (last_max ev_created_at
       (filter (\<lambda>e. ev_entity_type e = ''run'' \<and> ev_entity_id e = run \<and> ev_type e = ''run.checkpointed'') (events s)))"

definition first_some :: "'a option \<Rightarrow> 'a option \<Rightarrow> 'a option" where
  "first_some m n = (case m of None \<Rightarrow> n | Some x \<Rightarrow> Some x)"

definition predecessor_of :: "db \<Rightarrow> run \<Rightarrow> predecessor" where
  "predecessor_of s r =
     (let handoff = find (\<lambda>h. ho_run h = r_id r) (handoffs s) in
      \<lparr>pr_run = r_id r, pr_agent = r_agent r, pr_status = r_status r,
       pr_stop_reason = first_some (r_stop_reason r) (Option.bind (find_assignment (r_assignment r) s) a_release_reason),
       pr_milestone = last_max ml_sequence (filter (\<lambda>m. ml_run m = r_id r) (milestones s)),
       pr_checkpoint = r_checkpoint r, pr_checkpoint_at = checkpoint_time (r_id r) s,
       pr_context = first_some (map_option ho_context handoff)
         (map_option rc_context (find (\<lambda>c. rc_run c = r_id r) (run_contexts s))),
       pr_handoff = map_option ho_id handoff, pr_started_at = r_started_at r, pr_ended_at = r_ended_at r\<rparr>)"

definition task_recovery_context :: "id \<Rightarrow> id \<Rightarrow> time \<Rightarrow> db \<Rightarrow> recovery_context" where
  "task_recovery_context task actor now s =
     (if \<not> list_ex (live_assignment task actor ''executor'' now) (assignments s)
      then Unavailable ''current_executor_required''
      else case last_max r_started_at (filter (former_run task s) (runs s)) of
        None \<Rightarrow> Unavailable ''no_predecessor_run''
      | Some r \<Rightarrow> Available (predecessor_of s r))"

subsection \<open>What the operations keep\<close>

text \<open>Identifiers are unique, and an agent has at most one pending request for a role of a task.\<close>

definition request_key :: "assignment_request \<Rightarrow> id \<times> id \<times> string" where
  "request_key q = (ar_task q, ar_agent q, ar_role q)"

definition awaiting :: "assignment_request \<Rightarrow> bool" where
  "awaiting q \<longleftrightarrow> ar_status q = ''pending''"

definition requests_ok :: "db \<Rightarrow> bool" where
  "requests_ok s \<longleftrightarrow> distinct (map ar_id (requests s)) \<and> distinct (map request_key (filter awaiting (requests s)))"

lemma requests_ok_events [simp]: "requests_ok (append_event_tx at ai et ei ty pl co now s) = requests_ok s"
  by (simp add: requests_ok_def append_event_tx_def)

lemma requests_ok_insert:
  assumes "requests_ok s" "insert_request q s = Inr s'"
  shows "requests_ok s'"
  using assms
  by (fastforce simp: requests_ok_def insert_request_def list_ex_iff request_key_def awaiting_def split: if_splits)

lemma requests_ok_close:
  assumes "requests_ok s" "requests s' = requests s" "\<And>q. ar_id (f q) = ar_id q \<and> \<not> awaiting (f q)"
  shows "requests_ok (s'\<lparr>requests := update_where P f (requests s')\<rparr>)"
proof -
  have "filter awaiting (update_where P f rows) = filter (\<lambda>q. \<not> P q) (filter awaiting rows)" for rows
    using assms(3) by (induction rows) auto
  moreover have "distinct (map request_key (filter (\<lambda>q. \<not> P q) (filter awaiting (requests s))))"
    using assms(1) unfolding requests_ok_def by (blast intro: distinct_map_filter)
  ultimately show ?thesis
    using assms by (auto simp: requests_ok_def map_update_where)
qed

lemma live_claimed: "live_assignment task agent role now (claimed task agent role n intake fresh now)"
  by (simp add: live_assignment_def lease_end_later)

lemma approve_request_txE:
  assumes "approve_request_tx x q lease fresh now s = Inr (i, s')"
  obtains (holds) a where "a \<in> set (assignments s)" "a_id a = i" "live_assignment (ar_task q) (ar_agent q) (ar_role q) now a"
      "s' = s"
  | (claims) a where "claim_task_tx x (ar_task q) (ar_agent q) (ar_role q) lease True fresh now s = Inr (a, s')" "a_id a = i"
  using assms by (auto simp: approve_request_tx_def res_simps split: option.splits dest!: find_Some_in)

lemma approve_request_task:
  assumes "approve_request_tx x q lease fresh now s = Inr (i, s')"
  obtains t where "find_task (ar_task q) s = Some t" "t_mode t = ''approval''" "t_state t \<notin> {''done'', ''cancelled''}"
  using assms by (auto simp: approve_request_tx_def res_simps)

lemma approval_only [res_simps]:
  "(case m of Approval \<Rightarrow> Inr () | Open \<Rightarrow> Inl e | Dispatch \<Rightarrow> Inl e') = Inr () \<longleftrightarrow> m = Approval"
  by (cases m) simp_all

lemma request_assignment_txE:
  assumes "request_assignment_tx task agent role reason fresh now s = Inr (r, s')"
  obtains (earlier) q where "r = Inl q" "s' = s" "find (\<lambda>q. request_key q = (task, agent, role) \<and> awaiting q) (requests s) = Some q"
      "ar_reason q = reason"
  | (new) s1 q where "r = Inr fresh" "find (\<lambda>q. request_key q = (task, agent, role) \<and> awaiting q) (requests s) = None" "q = \<lparr>ar_id = fresh, ar_task = task, ar_agent = agent, ar_role = role, ar_reason = reason,
      ar_status = ''pending'', ar_assignment = None, ar_resolution = None, ar_created_at = now, ar_resolved_at = None\<rparr>"
      "insert_request q s = Inr s1" "s' = append_event_tx ''agent_instance'' agent ''task'' task ''assignment.requested''
           [(''request_id'', PStr fresh), (''role'', PStr role)] None now s1"
  using assms
  by (auto simp: request_assignment_tx_def res_simps awaiting_def request_key_def split: option.splits)

lemma resolve_request_txE:
  assumes "resolve_request_tx x i employee status resolution lease fresh now s = Inr (r, s')"
  obtains (settled) q where "find_request i s = Some q" "employee = None \<or> employee = Some (ar_agent q)"
      "ar_status q = status" "r = Some q" "s' = s"
  | (resolved) q a s1 where "find_request i s = Some q" "employee = None \<or> employee = Some (ar_agent q)" "awaiting q"
      "ar_status q \<noteq> status" "r = None"
      "if status = ''approved'' then (\<exists>b. a = Some b \<and> approve_request_tx x q lease fresh now s = Inr (b, s1)) else a = None \<and> s1 = s"
      "s' = append_event_tx (if employee = None then ''operator'' else ''agent_instance'')
         (case employee of None \<Rightarrow> ''control-plane'' | Some e \<Rightarrow> e) ''task'' (ar_task q) ''assignment.request_resolved''
         [(''request_id'', PStr i), (''status'', PStr status), (''assignment_id'', p_opt a), (''resolution'', PStr resolution)]
         None now
         (s1\<lparr>requests := update_where (\<lambda>p. ar_id p = i)
            (\<lambda>p. p\<lparr>ar_status := status, ar_assignment := a, ar_resolution := Some (trim resolution),
               ar_resolved_at := Some now\<rparr>) (requests s1)\<rparr>)"
  using assms
  by (auto simp: resolve_request_tx_def get_assignment_request_def res_simps awaiting_def split: if_splits)

lemma keeps_approve_request_tx:
  assumes "approve_request_tx x q lease fresh now s = Inr (i, s')"
  shows "keeps s s'" and "requests s' = requests s" and "runs s' = runs s"
  using assms by (auto elim!: approve_request_txE dest: keeps_claim_task_tx elim: claim_task_txE)

lemma keeps_request_assignment_tx:
  assumes "request_assignment_tx task agent role reason fresh now s = Inr (r, s')"
  shows "keeps s s'"
  using assms by (rule request_assignment_txE) (auto simp: insert_request_def split: if_splits)

lemma keeps_resolve_request_tx:
  assumes "resolve_request_tx x i employee status resolution lease fresh now s = Inr (r, s')"
  shows "keeps s s'"
  using assms by (rule resolve_request_txE) (auto dest: keeps_approve_request_tx split: if_splits)

lemma keeps_set_continuation_tx:
  "set_continuation_tx task enabled ids now s = Inr (r, s') \<Longrightarrow> keeps s s'"
  by (auto simp: set_continuation_tx_def res_simps)

text \<open>
  C24. An agent never has two pending requests for the same role of the same task: requesting and
  resolving keep the identifiers of the requests and the keys of the pending ones distinct.
\<close>

theorem pending_requests_unique:
  assumes "requests_ok s"
  shows "requests_ok (snd (request_assignment task agent role reason fresh now s))
    \<and> requests_ok (snd (resolve_assignment_request x i employee action resolution lease fresh' now s))"
proof
  show "requests_ok (snd (request_assignment task agent role reason fresh now s))"
    unfolding request_assignment_def
    by (rule checked_invariant [where I = requests_ok, OF assms], rule commit_then_invariant [where I = requests_ok, OF assms])
      (erule request_assignment_txE, simp_all add: assms requests_ok_insert [OF assms])
  have kept: "requests_ok s'" if "resolution_status employee action = Inr status"
    "resolve_request_tx x i employee status resolution lease fresh' now s = Inr (r, s')" for status r s'
    using that(2)
  proof (cases rule: resolve_request_txE)
    case (resolved q a s1)
    have "requests s1 = requests s"
      using resolved(6) by (auto dest: keeps_approve_request_tx(2) split: if_splits)
    moreover have "status \<noteq> ''pending''" using that(1) by (auto simp: resolution_status_def split: if_splits)
    ultimately show ?thesis
      unfolding resolved(7) requests_ok_events by (intro requests_ok_close [OF assms]) (auto simp: awaiting_def)
  qed (use assms in simp)
  show "requests_ok (snd (resolve_assignment_request x i employee action resolution lease fresh' now s))"
    unfolding resolve_assignment_request_def
    by (rule checked_invariant [where I = requests_ok, OF assms], rule commit_then_invariant [where I = requests_ok, OF assms])
      (auto simp: res_simps intro: kept)
qed

text \<open>An approval task, and the store after agent e asked to execute it.\<close>

definition example_approval_store :: db where
  "example_approval_store = empty_db\<lparr>
     tasks := [(example_task ''t'' ''ready'')\<lparr>t_mode := ''approval''\<rparr>], agents := [example_agent ''e'']\<rparr>"

definition example_requested_store :: db where
  "example_requested_store = snd (request_assignment ''t'' ''e'' ''executor'' ''mine'' ''q'' 5 example_approval_store)"

lemma example_requested:
  "\<exists>q. request_assignment ''t'' ''e'' ''executor'' ''mine'' ''q'' 5 example_approval_store = (Inr q, example_requested_store)"
proof -
  have "\<not> isl (fst (request_assignment ''t'' ''e'' ''executor'' ''mine'' ''q'' 5 example_approval_store))" by code_simp
  from right_operation [OF this] show ?thesis by (auto simp: example_requested_store_def)
qed

theorem pending_requests_unique_witness:
  "requests_ok example_requested_store \<and> length (requests example_requested_store) = 1"
proof
  have "requests_ok example_approval_store" by (simp add: requests_ok_def example_approval_store_def example_defs)
  from pending_requests_unique [OF this] show "requests_ok example_requested_store" by (simp add: example_requested_store_def)
  show "length (requests example_requested_store) = 1" by code_simp
qed

text \<open>
  Repeating a request that answered, with the same role and reason, answers the pending
  request and changes nothing; asking the same role for another reason is a conflict.
\<close>

theorem request_is_idempotent:
  assumes "request_assignment task agent role reason fresh now s = (Inr q, s')"
  shows "request_assignment task agent role reason fresh' later s' = (Inr q, s')
    \<and> (\<forall>r. trim r \<noteq> [] \<and> trim r \<noteq> trim reason \<longrightarrow>
        isl (fst (request_assignment task agent role r fresh' later s')) \<and> snd (request_assignment task agent role r fresh' later s') = s')"
proof -
  let ?key = "\<lambda>q. request_key q = (task, agent, trim role) \<and> awaiting q"
  from assms obtain g r where checks: "get_agent agent s = Inr g" "\<not> (trim role = [] \<or> 100 < length (trim role) \<or> trim reason = [])"
    and tx: "request_assignment_tx task agent (trim role) (trim reason) fresh now s = Inr (r, s')"
    and answer: "(case r of Inl q \<Rightarrow> Inr q | Inr i \<Rightarrow> get_assignment_request i s') = Inr q"
    by (auto simp: request_assignment_def res_simps commit_then_Inr)
  obtain row t where task: "find_task task s = Some row" "row_to_task row = Inr t" "k_mode t = Approval"
    "k_state t \<noteq> Done" "k_state t \<noteq> Cancelled"
    using tx by (auto simp: request_assignment_tx_def res_simps)
  have same: "find_task task s' = find_task task s \<and> get_agent agent s' = get_agent agent s
      \<and> find ?key (requests s') = Some q \<and> ar_reason q = trim reason"
    using tx
  proof (cases rule: request_assignment_txE)
    case (new s1 p)
    then have s1: "s1 = s\<lparr>requests := requests s @ [p]\<rparr>" and fresh: "find (\<lambda>q. ar_id q = fresh) (requests s) = None"
      by (auto simp: insert_request_def find_None_iff list_ex_iff split: if_splits)
    with new answer have "q = p"
      by (simp add: get_assignment_request_def find_request_def append_event_tx_def find_append)
    with new s1 show ?thesis
      by (simp add: find_task_def get_agent_def find_agent_def append_event_tx_def find_append request_key_def awaiting_def)
  qed (use answer in simp)
  then have found: "find (\<lambda>q. ar_task q = task \<and> ar_agent q = agent \<and> ar_role q = trim role \<and> ar_status q = ''pending'')
      (requests s') = Some q"
    by (simp add: request_key_def awaiting_def)
  have repeat: "request_assignment_tx task agent (trim role) r fresh' later s'
      = (if ar_reason q = r then Inr (Inl q, s') else Inl (Conflict (''pending request '' @ ar_id q
              @ '' already exists with a different reason; withdraw it before submitting a replacement'')))" for r
    unfolding request_assignment_tx_def using same task found by simp
  show ?thesis
    using same checks by (simp add: request_assignment_def checked_def commit_then_def repeat)
qed

theorem request_is_idempotent_witness:
  "\<exists>q. request_assignment ''t'' ''e'' ''executor'' ''mine'' ''q'' 5 example_approval_store = (Inr q, example_requested_store)
     \<and> request_assignment ''t'' ''e'' ''executor'' ''mine'' ''r'' 9 example_requested_store = (Inr q, example_requested_store)"
  using example_requested request_is_idempotent [of "''t''" "''e''" "''executor''" "''mine''" "''q''" 5] by blast

text \<open>
  What a resolution does. Approving a pending request of an approval task leaves the requester
  with a live assignment of the role, the one it held or one claim more, and starts no run; no other
  assignment changes. Rejecting and withdrawing leave assignments, tasks and runs as they are.
\<close>

theorem resolution_effects:
  assumes "resolve_assignment_request x i employee action resolution lease fresh now s = (Inr q, s')"
    "find_request i s = Some p" "awaiting p"
  shows "ar_resolution q = Some (trim resolution) \<and> ar_resolved_at q = Some now
    \<and> runs s' = runs s
    \<and> (if action = ''approve''
       then ar_status q = ''approved'' \<and> employee = None
         \<and> (\<exists>t. find_task (ar_task p) s = Some t \<and> t_mode t = ''approval'' \<and> t_state t \<notin> {''done'', ''cancelled''})
         \<and> (\<exists>b \<in> set (assignments s'). live_assignment (ar_task p) (ar_agent p) (ar_role p) now b
              \<and> ar_assignment q = Some (a_id b)
              \<and> (assignments s' = assignments s \<or> assignments s' = assignments s @ [b]))
       else ar_status q \<in> {''rejected'', ''withdrawn''} \<and> ar_assignment q = None
         \<and> assignments s' = assignments s \<and> tasks s' = tasks s
         \<and> (ar_status q = ''withdrawn'' \<longrightarrow> employee = Some (ar_agent p)))"
proof -
  from assms(1) obtain status r where st: "resolution_status employee action = Inr status"
    and tx: "resolve_request_tx x i employee status resolution lease fresh now s = Inr (r, s')"
    and answer: "(case r of Some q \<Rightarrow> Inr q | None \<Rightarrow> get_assignment_request i s') = Inr q"
    by (auto simp: resolve_assignment_request_def res_simps commit_then_Inr)
  from tx show ?thesis
  proof (cases rule: resolve_request_txE)
    case (settled q')
    with assms(2,3) st show ?thesis by (auto simp: resolution_status_def awaiting_def split: if_splits)
  next
    case (resolved q' a s1)
    let ?f = "\<lambda>p. p\<lparr>ar_status := status, ar_assignment := a, ar_resolution := Some (trim resolution), ar_resolved_at := Some now\<rparr>"
    have q': "q' = p" using resolved(1) assms(2) by simp
    have rows: "requests s1 = requests s" "runs s1 = runs s"
      using resolved(6) by (auto dest: keeps_approve_request_tx split: if_splits)
    have "find (\<lambda>q. ar_id q = i) (update_where (\<lambda>p. ar_id p = i) ?f (requests s)) = Some (?f p)"
      using assms(2) by (auto simp: find_request_def find_update_where dest: find_Some_in)
    with answer resolved(5,7) rows have q: "q = ?f p"
      by (simp add: get_assignment_request_def find_request_def append_event_tx_def)
    show ?thesis
    proof (cases "action = ''approve''")
      case True
      with st have status: "status = ''approved''" "employee = None" by (auto simp: resolution_status_def split: if_splits)
      with resolved(6) obtain b where b: "a = Some b" "approve_request_tx x p lease fresh now s = Inr (b, s1)" by (auto simp: q')
      from b(2) obtain c where "c \<in> set (assignments s1)" "a_id c = b" "live_assignment (ar_task p) (ar_agent p) (ar_role p) now c"
        "assignments s1 = assignments s \<or> assignments s1 = assignments s @ [c]"
        by (cases rule: approve_request_txE) (blast, auto elim!: claim_task_txE intro: that live_claimed)
      moreover from b(2) obtain t where "find_task (ar_task p) s = Some t" "t_mode t = ''approval''" "t_state t \<notin> {''done'', ''cancelled''}"
        by (rule approve_request_task)
      ultimately show ?thesis using True status b(1) rows
        by (auto simp: q resolved(7))
    next
      case False
      with st have "status = ''rejected'' \<or> status = ''withdrawn'' \<and> employee \<noteq> None"
        by (auto simp: resolution_status_def split: if_splits)
      with resolved(2,6) False rows show ?thesis by (auto simp: q q' resolved(7))
    qed
  qed
qed

text \<open>The control plane approves the request; agent e holds the role afterwards.\<close>

definition example_request :: assignment_request where
  "example_request = \<lparr>ar_id = ''q'', ar_task = ''t'', ar_agent = ''e'', ar_role = ''executor'', ar_reason = ''mine'',
     ar_status = ''pending'', ar_assignment = None, ar_resolution = None, ar_created_at = 5, ar_resolved_at = None\<rparr>"

theorem resolution_effects_witness:
  "\<exists>q s'. resolve_assignment_request example_external ''q'' None ''approve'' ''yes'' 60 ''a'' 6
       (example_approval_store\<lparr>requests := [example_request]\<rparr>) = (Inr q, s')
     \<and> ar_status q = ''approved'' \<and> (\<exists>b \<in> set (assignments s'). live_assignment ''t'' ''e'' ''executor'' 6 b)"
proof -
  let ?s = "example_approval_store\<lparr>requests := [example_request]\<rparr>"
  have "\<not> isl (fst (resolve_assignment_request example_external ''q'' None ''approve'' ''yes'' 60 ''a'' 6 ?s))" by code_simp
  from right_operation [OF this] obtain q s' where
    op: "resolve_assignment_request example_external ''q'' None ''approve'' ''yes'' 60 ''a'' 6 ?s = (Inr q, s')" by blast
  have "find_request ''q'' ?s = Some example_request" "awaiting example_request"
    by (simp_all add: find_request_def awaiting_def example_request_def)
  from resolution_effects [OF op this] op show ?thesis by (auto simp: example_request_def)
qed

end
