(* ===== verification/Dispatch.thy ===== *)
theory Dispatch
  imports Requests
begin

text \<open>
  The dispatcher (\<open>morrows-store/src/dispatch.rs\<close>): the policies of tasks, the evaluation that
  ranks the agents for a task, and the transactions that assign the agent ranked first.
\<close>

subsection \<open>Sorting\<close>

text \<open>\<open>slice::sort_by\<close>: a stable sort by a comparator.\<close>

datatype ordering = Less | Equal | Greater

definition cmp_of :: "'a::linorder \<Rightarrow> 'a \<Rightarrow> ordering" where
  "cmp_of a b = (if a < b then Less else if a = b then Equal else Greater)"

fun then_with :: "ordering \<Rightarrow> ordering \<Rightarrow> ordering" where
  "then_with Equal o2 = o2"
| "then_with o1 o2 = o1"

fun insert_by :: "('a \<Rightarrow> 'a \<Rightarrow> ordering) \<Rightarrow> 'a \<Rightarrow> 'a list \<Rightarrow> 'a list" where
  "insert_by cmp x [] = [x]"
| "insert_by cmp x (y # ys) = (if cmp x y = Greater then y # insert_by cmp x ys else x # y # ys)"

fun sort_by :: "('a \<Rightarrow> 'a \<Rightarrow> ordering) \<Rightarrow> 'a list \<Rightarrow> 'a list" where
  "sort_by cmp [] = []"
| "sort_by cmp (x # xs) = insert_by cmp x (sort_by cmp xs)"

lemma sort_by_key:
  assumes "\<And>a b. cmp a b = Greater \<longleftrightarrow> f b < f a"
  shows "sort_by cmp xs = sort_key f xs"
proof -
  have "insert_by cmp x ys = insort_key f x ys" for x ys
    by (induction ys) (auto simp: assms not_less)
  then show ?thesis by (induction xs) (simp_all add: sort_key_def)
qed

definition to_ascii_lowercase :: "string \<Rightarrow> string" where
  "to_ascii_lowercase s =
     map (\<lambda>c. let n = of_char c :: nat in if 65 \<le> n \<and> n \<le> 90 then char_of (n + 32) else c) s"

subsection \<open>Policies\<close>

record policy_input =
  pi_role :: string
  pi_capabilities :: "string list"
  pi_profile :: "id option"
  pi_account :: "id option"
  pi_machine :: "id option"
  pi_heartbeat_ttl :: int
  pi_capacity_ttl :: int
  pi_lease :: int
  pi_enabled :: bool

definition validate_policy :: "policy_input \<Rightarrow> unit res" where
  "validate_policy i =
     bind_res (ensure (\<not> blank (pi_role i)) (InvalidInput ''role cannot be empty'')) (\<lambda>_.
     bind_res (ensure (\<not> (pi_heartbeat_ttl i \<le> 0 \<or> pi_capacity_ttl i \<le> 0))
       (InvalidInput ''dispatch TTLs must be positive'')) (\<lambda>_.
     bind_res (ensure (\<not> pi_lease i < 30) (InvalidInput ''dispatch lease must be at least 30 seconds'')) (\<lambda>_.
     ensure (\<not> list_ex blank (pi_capabilities i)) (InvalidInput ''required capabilities cannot be empty''))))"

definition get_profile :: "id \<Rightarrow> db \<Rightarrow> profile_row res" where
  "get_profile i s = ok_or (NotFound (''profile '' @ i)) (find (\<lambda>p. pf_id p = i) (profiles s))"

definition get_account :: "id \<Rightarrow> db \<Rightarrow> account_row res" where
  "get_account i s = ok_or (NotFound (''account '' @ i)) (find (\<lambda>p. au_id p = i) (accounts s))"

definition get_machine :: "id \<Rightarrow> db \<Rightarrow> machine_row res" where
  "get_machine i s = ok_or (NotFound (''machine '' @ i)) (find (\<lambda>p. mc_id p = i) (machines s))"

definition validate_filter_refs :: "policy_input \<Rightarrow> db \<Rightarrow> unit res" where
  "validate_filter_refs i s =
     bind_res (case pi_profile i of None \<Rightarrow> Inr () | Some p \<Rightarrow> bind_res (get_profile p s) (\<lambda>_. Inr ())) (\<lambda>_.
     bind_res (case pi_account i of None \<Rightarrow> Inr () | Some a \<Rightarrow> bind_res (get_account a s) (\<lambda>_. Inr ())) (\<lambda>_.
     case pi_machine i of None \<Rightarrow> Inr () | Some m \<Rightarrow> bind_res (get_machine m s) (\<lambda>_. Inr ())))"

definition load_policy_conn :: "id \<Rightarrow> string \<Rightarrow> db \<Rightarrow> dispatch_policy res" where
  "load_policy_conn task role s =
     ok_or (NotFound (''dispatch policy '' @ task @ ''/'' @ role))
       (find (\<lambda>p. dp_task p = task \<and> dp_role p = role) (policies s))"

definition get_dispatch_policy :: "id \<Rightarrow> string \<Rightarrow> db \<Rightarrow> dispatch_policy res" where
  "get_dispatch_policy task role s = bind_res (get_task task s) (\<lambda>_. load_policy_conn task role s)"

definition list_dispatch_policies :: "db \<Rightarrow> dispatch_policy list" where
  "list_dispatch_policies s = sort_key (\<lambda>p. (dp_task p, dp_role p)) (policies s)"

text \<open>The foreign keys of a policy row.\<close>

definition policy_refs :: "dispatch_policy \<Rightarrow> db \<Rightarrow> bool" where
  "policy_refs p s \<longleftrightarrow>
     find_task (dp_task p) s \<noteq> None
     \<and> (case dp_profile p of None \<Rightarrow> True | Some i \<Rightarrow> list_ex (\<lambda>r. pf_id r = i) (profiles s))
     \<and> (case dp_account p of None \<Rightarrow> True | Some i \<Rightarrow> list_ex (\<lambda>r. au_id r = i) (accounts s))
     \<and> (case dp_machine p of None \<Rightarrow> True | Some i \<Rightarrow> list_ex (\<lambda>r. mc_id r = i) (machines s))"

definition upsert_policy :: "dispatch_policy \<Rightarrow> db \<Rightarrow> sql_error + db" where
  "upsert_policy p s =
     (if \<not> policy_refs p s then Inl ForeignKeyViolation
      else let same = (\<lambda>q. dp_task q = dp_task p \<and> dp_role q = dp_role p) in
        Inr (s\<lparr>policies := (if list_ex same (policies s)
          then update_where same (\<lambda>q. p\<lparr>dp_created_at := dp_created_at q\<rparr>) (policies s)
          else policies s @ [p])\<rparr>))"

definition set_dispatch_policy_tx :: "id \<Rightarrow> policy_input \<Rightarrow> time \<Rightarrow> (db, unit) tx" where
  "set_dispatch_policy_tx task i now s =
     bind_res (exec (upsert_policy
       \<lparr>dp_task = task, dp_role = trim (pi_role i), dp_capabilities = remdups_adj (sort (pi_capabilities i)),
        dp_profile = pi_profile i, dp_account = pi_account i, dp_machine = pi_machine i,
        dp_heartbeat_ttl = pi_heartbeat_ttl i, dp_capacity_ttl = pi_capacity_ttl i, dp_lease = max (pi_lease i) 30,
        dp_enabled = pi_enabled i, dp_created_at = now, dp_updated_at = now\<rparr> s)) (\<lambda>s1.
     let s2 = (if pi_enabled i
         then update_tasks (\<lambda>t. t_id t = task) (\<lambda>t. t\<lparr>t_mode := ''dispatch'', t_updated_at := now\<rparr>) s1 else s1) in
     Inr ((), append_event_tx ''system'' ''dispatcher'' ''task'' task ''dispatch.policy.set''
       [(''role'', PStr (trim (pi_role i))), (''enabled'', PBool (pi_enabled i)),
        (''assignment_mode'', if pi_enabled i then PStr ''dispatch'' else PNull)] None now s2))"

definition set_dispatch_policy :: "id \<Rightarrow> policy_input \<Rightarrow> time \<Rightarrow> (db, dispatch_policy) operation" where
  "set_dispatch_policy task i now =
     checked (\<lambda>s. bind_res (get_task task s) (\<lambda>_. bind_res (validate_policy i) (\<lambda>_. validate_filter_refs i s)))
       (\<lambda>_. commit_then (set_dispatch_policy_tx task i now) (\<lambda>_. get_dispatch_policy task (trim (pi_role i))))"

subsection \<open>Scheduler settings\<close>

definition get_scheduler_settings :: "string \<Rightarrow> db \<Rightarrow> scheduler_settings res" where
  "get_scheduler_settings role s =
     bind_res (ensure (trim role \<noteq> []) (InvalidInput ''role cannot be empty'')) (\<lambda>_.
     ok_or (NotFound (''dispatch scheduler settings for role '' @ trim role))
       (find (\<lambda>e. ss_role e = trim role) (schedulers s)))"

definition list_scheduler_settings :: "db \<Rightarrow> scheduler_settings list" where
  "list_scheduler_settings s = sort_key ss_role (schedulers s)"

definition check_scheduler :: "string \<Rightarrow> int \<Rightarrow> bool \<Rightarrow> unit res" where
  "check_scheduler role interval auto_launch =
     bind_res (ensure (trim role \<noteq> []) (InvalidInput ''role cannot be empty'')) (\<lambda>_.
     bind_res (ensure (1 \<le> interval \<and> interval \<le> 300)
       (InvalidInput ''scheduler interval_seconds must be between 1 and 300'')) (\<lambda>_.
     ensure (\<not> (auto_launch \<and> trim role \<noteq> ''executor''))
       (InvalidInput ''scheduler auto_launch is only supported for executor assignments'')))"

definition upsert_scheduler :: "scheduler_settings \<Rightarrow> db \<Rightarrow> db" where
  "upsert_scheduler e s =
     s\<lparr>schedulers := (if list_ex (\<lambda>d. ss_role d = ss_role e) (schedulers s)
        then update_where (\<lambda>d. ss_role d = ss_role e) (\<lambda>d. e\<lparr>ss_created_at := ss_created_at d\<rparr>) (schedulers s)
        else schedulers s @ [e])\<rparr>"

definition set_scheduler_settings :: "string \<Rightarrow> bool \<Rightarrow> int \<Rightarrow> bool \<Rightarrow> time \<Rightarrow> (db, scheduler_settings) operation" where
  "set_scheduler_settings role enabled interval auto_launch now =
     checked (\<lambda>_. check_scheduler role interval auto_launch)
       (\<lambda>_. commit_then (\<lambda>s. Inr ((), upsert_scheduler
            \<lparr>ss_role = trim role, ss_enabled = enabled, ss_interval = interval, ss_auto_launch = auto_launch,
             ss_created_at = now, ss_updated_at = now\<rparr> s))
          (\<lambda>_. get_scheduler_settings (trim role)))"

subsection \<open>The evaluation\<close>

definition age :: "time \<Rightarrow> time \<Rightarrow> int" where
  "age now seen = max 0 ((now - seen) div seconds 1)"

text \<open>Why a task cannot be dispatched now.\<close>

definition task_reasons :: "external \<Rightarrow> task_row \<Rightarrow> dispatch_policy \<Rightarrow> task_gate \<Rightarrow> time \<Rightarrow> db \<Rightarrow> string list" where
  "task_reasons x t p gate now s =
     (if t_mode t \<noteq> ''dispatch'' then [''assignment_mode:'' @ t_mode t] else [])
     @ (if predecessor_runtime_active (t_id t) s then [''previous_execution_still_stopping''] else [])
     @ (if t_state t \<noteq> ''ready'' \<and> t_state t \<noteq> ''in_progress'' then [''task_state:'' @ t_state t] else [])
     @ (if cleanup_blocked (t_id t) s then [''runtime_cleanup_pending''] else [])
     @ (if \<not> dp_enabled p then [''policy_disabled''] else [])
     @ (if tg_state gate \<noteq> Eligible then [''unfinished_dependencies'', ''chain_gate:'' @ x_gate x gate] else [])
     @ (if list_ex (\<lambda>a. a_task a = t_id t \<and> a_role a = dp_role p \<and> a_status a = ''active'' \<and> now < a_expires_at a) (assignments s)
        then [''active_assignment_exists''] else [])"

text \<open>An agent joined with its newest capacity snapshot and the number of its live assignments.\<close>

definition newest_capacity :: "id \<Rightarrow> db \<Rightarrow> capacity_snapshot option" where
  "newest_capacity agent s = last_max cs_observed_at (filter (\<lambda>c. cs_agent c = agent) (capacities s))"

definition live_count :: "id \<Rightarrow> time \<Rightarrow> db \<Rightarrow> int" where
  "live_count agent now s =
     int (rows_affected (\<lambda>a. a_agent a = agent \<and> a_status a = ''active'' \<and> now < a_expires_at a) (assignments s))"

definition instance_reasons :: "dispatch_policy \<Rightarrow> time \<Rightarrow> agent_row \<Rightarrow> string list" where
  "instance_reasons p now a =
     (if to_ascii_lowercase (ag_status a) \<noteq> ''online'' then [''instance_status:'' @ ag_status a] else [])
     @ map (\<lambda>c. ''missing_capability:'' @ c) (filter (\<lambda>c. c \<notin> set (ag_capabilities a)) (dp_capabilities p))
     @ (if dp_profile p \<noteq> None \<and> dp_profile p \<noteq> Some (ag_profile a) then [''profile_mismatch''] else [])
     @ (if dp_account p \<noteq> None \<and> dp_account p \<noteq> ag_account a then [''account_mismatch''] else [])
     @ (if dp_machine p \<noteq> None \<and> dp_machine p \<noteq> ag_machine a then [''machine_mismatch''] else [])
     @ (if dp_heartbeat_ttl p < age now (ag_heartbeat a) then [''stale_heartbeat''] else [])"

definition effective_slots :: "int \<Rightarrow> capacity_snapshot \<Rightarrow> int" where
  "effective_slots busy c =
     (let n = max 0 (cs_available_slots c - max 0 (busy - cs_active_assignments c)) in
      case cs_max_concurrency c of None \<Rightarrow> n | Some m \<Rightarrow> min n (max 0 (m - busy)))"

definition blocking_status :: "string \<Rightarrow> bool" where
  "blocking_status st \<longleftrightarrow> to_ascii_lowercase st \<in> {''blocked'', ''throttled'', ''unavailable'', ''offline''}"

definition blocking_quota :: "string option \<Rightarrow> bool" where
  "blocking_quota quota \<longleftrightarrow>
     (case quota of None \<Rightarrow> False | Some q \<Rightarrow> to_ascii_lowercase q \<in> {''usage_limited'', ''exhausted'', ''blocked''})"

definition capacity_reasons :: "dispatch_policy \<Rightarrow> time \<Rightarrow> int \<Rightarrow> capacity_snapshot \<Rightarrow> string list" where
  "capacity_reasons p now busy c =
     (if dp_capacity_ttl p < age now (cs_observed_at c) then [''stale_capacity''] else [])
     @ (if blocking_status (cs_status c) then [''capacity_status:'' @ cs_status c] else [])
     @ (case cs_quota_state c of
          None \<Rightarrow> []
        | Some q \<Rightarrow> if blocking_quota (Some q) then [''quota_state:'' @ q] else [])
     @ (if effective_slots busy c \<le> 0 then [''no_effective_slots''] else [])"

definition dispatch_candidate_of ::
  "dispatch_policy \<Rightarrow> time \<Rightarrow> db \<Rightarrow> agent_row \<Rightarrow> dispatch_candidate \<times> time option" where
  "dispatch_candidate_of p now s a =
     (let c = newest_capacity (ag_id a) s;
          busy = live_count (ag_id a) now s;
          reasons = instance_reasons p now a
            @ (case c of None \<Rightarrow> [''missing_capacity''] | Some c \<Rightarrow> capacity_reasons p now busy c) in
      (\<lparr>dc_agent = ag_id a, dc_name = ag_name a, dc_eligible = (reasons = []),
        dc_slots = (case c of None \<Rightarrow> 0 | Some c \<Rightarrow> effective_slots busy c), dc_active = busy,
        dc_heartbeat_age = age now (ag_heartbeat a), dc_capacity_age = map_option (\<lambda>c. age now (cs_observed_at c)) c,
        dc_capacity_status = map_option cs_status c, dc_quota_state = Option.bind c cs_quota_state,
        dc_reasons = reasons\<rparr>, map_option cs_observed_at c))"

text \<open>A continuation policy admits its agents only, each once for the task.\<close>

definition continuation_of :: "id \<Rightarrow> dispatch_policy \<Rightarrow> db \<Rightarrow> continuation_policy option" where
  "continuation_of task p s =
     (if dp_role p = ''executor'' then Option.bind (load_policy task s) (\<lambda>k. if cp_enabled k then Some k else None) else None)"

definition attempted :: "id \<Rightarrow> db \<Rightarrow> id list" where
  "attempted task s =
     remdups (map a_agent (filter (\<lambda>a. a_task a = task \<and> a_role a = ''executor'') (assignments s)))"

definition restrict_candidate ::
  "id list \<Rightarrow> id list \<Rightarrow> dispatch_candidate \<times> time option \<Rightarrow> dispatch_candidate \<times> time option" where
  "restrict_candidate ids tried c =
     (let d = fst c;
          reasons = dc_reasons d
            @ (if dc_agent d \<notin> set ids then [''outside_continuation_candidates'']
               else if dc_agent d \<in> set tried then [''already_attempted_this_task''] else []) in
      (d\<lparr>dc_reasons := reasons, dc_eligible := (reasons = [])\<rparr>, snd c))"

fun position :: "id list \<Rightarrow> id \<Rightarrow> int option" where
  "position [] i = None"
| "position (j # js) i = (if j = i then Some 0 else map_option (\<lambda>n. n + 1) (position js i))"

definition position_or_max :: "id list \<Rightarrow> id \<Rightarrow> int" where
  "position_or_max ids i = (case position ids i of None \<Rightarrow> 2 ^ 64 - 1 | Some n \<Rightarrow> n)"

fun cmp_option :: "time option \<Rightarrow> time option \<Rightarrow> ordering" where
  "cmp_option None None = Equal"
| "cmp_option None (Some _) = Less"
| "cmp_option (Some _) None = Greater"
| "cmp_option (Some a) (Some b) = cmp_of a b"

definition compare_candidates ::
  "id list option \<Rightarrow> dispatch_candidate \<times> time option \<Rightarrow> dispatch_candidate \<times> time option \<Rightarrow> ordering" where
  "compare_candidates chain a b =
     (if dc_eligible (fst a) \<and> \<not> dc_eligible (fst b) then Less
      else if \<not> dc_eligible (fst a) \<and> dc_eligible (fst b) then Greater
      else case chain of
        Some ids \<Rightarrow> cmp_of (position_or_max ids (dc_agent (fst a))) (position_or_max ids (dc_agent (fst b)))
      | None \<Rightarrow>
          then_with (cmp_of (dc_slots (fst b)) (dc_slots (fst a)))
            (then_with (cmp_of (dc_active (fst a)) (dc_active (fst b)))
              (then_with (cmp_option (snd b) (snd a)) (cmp_of (dc_agent (fst a)) (dc_agent (fst b))))))"

definition evaluate_dispatch_conn ::
  "external \<Rightarrow> id \<Rightarrow> dispatch_policy \<Rightarrow> time \<Rightarrow> db \<Rightarrow> dispatch_preview res" where
  "evaluate_dispatch_conn x task p now s =
     bind_res (ok_or (NotFound (''task '' @ task)) (find_task task s)) (\<lambda>t.
     bind_res (gate_conn (x_pointer x) task s) (\<lambda>gate.
     let reasons = task_reasons x t p gate now s;
         chain = map_option cp_agents (continuation_of task p s);
         listed = map (dispatch_candidate_of p now s) (sort_key ag_id (agents s));
         admitted = (case chain of None \<Rightarrow> listed | Some ids \<Rightarrow> map (restrict_candidate ids (attempted task s)) listed);
         ranked = map fst (sort_by (compare_candidates chain) admitted) in
     Inr \<lparr>dv_task = task, dv_role = dp_role p, dv_policy = p, dv_dispatchable = (reasons = []), dv_reasons = reasons,
       dv_candidates = ranked,
       dv_selected = (if reasons = [] then map_option dc_agent (find dc_eligible ranked) else None)\<rparr>))"

definition dispatch_preview_of :: "external \<Rightarrow> id \<Rightarrow> string \<Rightarrow> time \<Rightarrow> db \<Rightarrow> dispatch_preview res" where
  "dispatch_preview_of x task role now s =
     bind_res (load_policy_conn task role s) (\<lambda>p. evaluate_dispatch_conn x task p now s)"

definition task_dispatch_decisions :: "id \<Rightarrow> db \<Rightarrow> dispatch_decision_row list res" where
  "task_dispatch_decisions task s =
     bind_res (get_task task s) (\<lambda>_.
       Inr (rev (sort_key (\<lambda>d. (dd_created_at d, dd_id d)) (filter (\<lambda>d. dd_task d = task) (dispatch_decisions s)))))"

subsection \<open>The dispatch\<close>

definition dispatch_expire_one :: "time \<Rightarrow> assignment \<Rightarrow> db \<Rightarrow> db" where
  "dispatch_expire_one now a s =
     (let P = (\<lambda>b. a_id b = a_id a \<and> a_status b = ''active'');
          s1 = update_assignments P (\<lambda>b. b\<lparr>a_status := ''expired'', a_released_at := Some now,
                 a_release_reason := Some ''lease_expired''\<rparr>) s
      in if rows_affected P (assignments s) = 1
         then append_event_tx ''system'' ''dispatcher'' ''task'' (a_task a) ''assignment.expired''
                [(''assignment_id'', PStr (a_id a)), (''agent_instance_id'', PStr (a_agent a))] None now s1
         else s1)"

definition expire_stale_tx :: "time \<Rightarrow> db \<Rightarrow> db" where
  "expire_stale_tx now s = fold (dispatch_expire_one now) (filter (stale_assignment now s) (assignments s)) s"

definition insert_dispatch_assignment_tx ::
  "id \<Rightarrow> id \<Rightarrow> string \<Rightarrow> int \<Rightarrow> id \<Rightarrow> time \<Rightarrow> (db, assignment) tx" where
  "insert_dispatch_assignment_tx task agent role lease_seconds fresh now s =
     (let expires = lease_end now lease_seconds;
          a = \<lparr>a_id = fresh, a_task = task, a_role = role, a_agent = agent, a_status = ''active'',
               a_phase = (if role = ''executor'' then context_review else implementing), a_acquired_at = now,
               a_expires_at = expires, a_renewed_at = now, a_released_at = None, a_release_reason = None\<rparr> in
      bind_res (ensure (list_ex (\<lambda>t. t_id t = task \<and> t_mode t = ''dispatch''
            \<and> (t_state t = ''ready'' \<or> t_state t = ''in_progress'')) (tasks s))
        (Conflict ''task is not dispatchable'')) (\<lambda>_.
      bind_res (case insert_assignment a s of
            Inl UniqueViolation \<Rightarrow> Inl (Conflict ''task role already has an active assignment'')
          | Inl e \<Rightarrow> Inl (storage e)
          | Inr s1 \<Rightarrow> Inr s1) (\<lambda>s1.
      bind_res (if role = ''executor'' then create_assignment_intake_tx fresh task agent now s1 else Inr s1) (\<lambda>s2.
      Inr (a, append_event_tx ''agent_instance'' agent ''task'' task ''assignment.claimed''
        [(''assignment_id'', PStr fresh), (''role'', PStr role), (''expires_at'', PTime expires),
         (''source'', PStr ''dispatcher'')] None now
        (update_tasks (\<lambda>t. t_id t = task)
          (\<lambda>t. t\<lparr>t_state := (if t_state t = ''ready'' then ''in_progress'' else t_state t), t_updated_at := now\<rparr>) s2))))))"

definition insert_decision_tx ::
  "id \<Rightarrow> string \<Rightarrow> string \<Rightarrow> id option \<Rightarrow> id option \<Rightarrow> dispatch_preview \<Rightarrow> id \<Rightarrow> time \<Rightarrow> (db, dispatch_decision_row) tx" where
  "insert_decision_tx task role outcome selected assignment preview fresh now s =
     (let d = \<lparr>dd_id = fresh, dd_task = task, dd_role = role, dd_outcome = outcome, dd_selected = selected,
               dd_assignment = assignment, dd_preview = preview, dd_created_at = now\<rparr> in
      bind_res (exec (if list_ex (\<lambda>e. dd_id e = fresh) (dispatch_decisions s) then Inl PrimaryKeyViolation
          else if find_task task s = None then Inl ForeignKeyViolation
          else Inr (s\<lparr>dispatch_decisions := dispatch_decisions s @ [d]\<rparr>))) (\<lambda>s1. Inr (d, s1)))"

text \<open>The assignment of the selected agent, if the task can be dispatched.\<close>

definition assign_selected_tx ::
  "id \<Rightarrow> string \<Rightarrow> int \<Rightarrow> dispatch_preview \<Rightarrow> id \<Rightarrow> time \<Rightarrow> (db, assignment option) tx" where
  "assign_selected_tx task role lease_seconds v fresh now s =
     (if dv_dispatchable v
      then (case dv_selected v of
          Some agent \<Rightarrow> bind_res (insert_dispatch_assignment_tx task agent role lease_seconds fresh now s)
            (\<lambda>(a, s1). Inr (Some a, s1))
        | None \<Rightarrow> Inr (None, s))
      else Inr (None, s))"

text \<open>The decision on record, with its event; both dispatch operations write it.\<close>

definition record_outcome_tx ::
  "id \<Rightarrow> string \<Rightarrow> dispatch_preview \<Rightarrow> assignment option \<Rightarrow> id \<Rightarrow> time
     \<Rightarrow> (db, dispatch_decision_row \<times> assignment option) tx" where
  "record_outcome_tx task role v a fresh now s =
     bind_res (insert_decision_tx task role (if a \<noteq> None then ''assigned'' else ''no_candidate'')
       (if a \<noteq> None then dv_selected v else None) (map_option a_id a) v fresh now s) (\<lambda>(d, s1).
     Inr ((d, a), append_event_tx ''system'' ''dispatcher'' ''task'' task
       (if a \<noteq> None then ''dispatch.assigned'' else ''dispatch.no_candidate'')
       [(''decision_id'', PStr (dd_id d)), (''role'', PStr role), (''agent_instance_id'', p_opt (dd_selected d))] None now s1))"

definition dispatch_task_tx ::
  "external \<Rightarrow> id \<Rightarrow> string \<Rightarrow> id \<Rightarrow> id \<Rightarrow> time \<Rightarrow> (db, dispatch_decision_row \<times> assignment option) tx" where
  "dispatch_task_tx x task role fresh_assignment fresh_decision now s =
     (let s0 = expire_stale_tx now s in
      bind_res (load_policy_conn task role s0) (\<lambda>p.
      bind_res (evaluate_dispatch_conn x task p now s0) (\<lambda>v.
      bind_res (assign_selected_tx task (dp_role p) (dp_lease p) v fresh_assignment now s0) (\<lambda>(a, s1).
      record_outcome_tx task (dp_role p) v a fresh_decision now s1))))"

definition dispatch_task ::
  "external \<Rightarrow> id \<Rightarrow> string \<Rightarrow> id \<Rightarrow> id \<Rightarrow> time \<Rightarrow> (db, dispatch_decision_row \<times> assignment option) operation" where
  "dispatch_task x task role fresh_assignment fresh_decision now =
     commit (dispatch_task_tx x task role fresh_assignment fresh_decision now)"

text \<open>The queue of a role, and the walk through it up to the first assignment.\<close>

definition dispatch_queue :: "string \<Rightarrow> db \<Rightarrow> id list" where
  "dispatch_queue role s =
     map t_id (sort_key (\<lambda>t. (- t_priority t, t_created_at t, t_id t))
       (filter (\<lambda>t. t_mode t = ''dispatch'' \<and> (t_state t = ''ready'' \<or> t_state t = ''in_progress'')
          \<and> list_ex (\<lambda>p. dp_task p = t_id t \<and> dp_role p = role \<and> dp_enabled p) (policies s)) (tasks s)))"

fun dispatch_loop ::
  "external \<Rightarrow> string \<Rightarrow> bool \<Rightarrow> (id \<Rightarrow> id \<times> id) \<Rightarrow> time \<Rightarrow> id list \<Rightarrow> (dispatch_decision_row \<times> assignment option) list
     \<Rightarrow> (db, (dispatch_decision_row \<times> assignment option) option \<times> (dispatch_decision_row \<times> assignment option) list) tx" where
  "dispatch_loop x role record_none fresh now [] attempts s = Inr ((None, attempts), s)"
| "dispatch_loop x role record_none fresh now (task # rest) attempts s =
     bind_res (load_policy_conn task role s) (\<lambda>p.
     bind_res (evaluate_dispatch_conn x task p now s) (\<lambda>v.
     bind_res (assign_selected_tx task role (dp_lease p) v (fst (fresh task)) now s) (\<lambda>(a, s1).
     if a = None \<and> \<not> record_none then dispatch_loop x role record_none fresh now rest attempts s1
     else
       bind_res (record_outcome_tx task role v a (snd (fresh task)) now s1) (\<lambda>(d, s2).
       if snd d \<noteq> None then Inr ((Some d, attempts @ [d]), s2)
       else dispatch_loop x role record_none fresh now rest (attempts @ [d]) s2))))"

definition dispatch_next_inner ::
  "external \<Rightarrow> string \<Rightarrow> bool \<Rightarrow> (id \<Rightarrow> id \<times> id) \<Rightarrow> time
     \<Rightarrow> (db, (dispatch_decision_row \<times> assignment option) option \<times> (dispatch_decision_row \<times> assignment option) list) operation" where
  "dispatch_next_inner x role record_none fresh now =
     checked (\<lambda>_. ensure (\<not> blank role) (InvalidInput ''role cannot be empty''))
       (\<lambda>_. commit (\<lambda>s. let s0 = expire_stale_tx now s in
          dispatch_loop x (trim role) record_none fresh now (dispatch_queue (trim role) s0) [] s0))"

subsection \<open>The ranking\<close>

text \<open>The order of the comparator as a key: eligible agents first, then the better ones.\<close>

definition merit :: "id list option \<Rightarrow> int \<Rightarrow> int \<Rightarrow> time option \<Rightarrow> id \<Rightarrow> int \<times> int \<times> int \<times> int \<times> id" where
  "merit chain slots busy seen i =
     (case chain of
        Some ids \<Rightarrow> (position_or_max ids i, 0, 0, 0, [])
      | None \<Rightarrow> (- slots, busy, case seen of None \<Rightarrow> (1, 0, i) | Some t \<Rightarrow> (0, - t, i)))"

definition rank :: "id list option \<Rightarrow> dispatch_candidate \<times> time option \<Rightarrow> bool \<times> int \<times> int \<times> int \<times> int \<times> id" where
  "rank chain c = (\<not> dc_eligible (fst c), merit chain (dc_slots (fst c)) (dc_active (fst c)) (snd c) (dc_agent (fst c)))"

lemma cmp_of_simps [simp]:
  "cmp_of a b = Greater \<longleftrightarrow> b < a" "cmp_of a b = Less \<longleftrightarrow> a < b" "cmp_of a b = Equal \<longleftrightarrow> a = b"
  by (auto simp: cmp_of_def)

lemma then_with_Greater [simp]: "then_with a b = Greater \<longleftrightarrow> a = Greater \<or> a = Equal \<and> b = Greater"
  by (cases a) simp_all

lemma cmp_option_key:
  "cmp_option a b = Greater \<longleftrightarrow>
     (case a of None \<Rightarrow> (1::int, 0::int) | Some t \<Rightarrow> (0, - t)) < (case b of None \<Rightarrow> (1, 0) | Some t \<Rightarrow> (0, - t))"
  "cmp_option a b = Equal \<longleftrightarrow> a = b"
  by (cases a; cases b; auto simp: less_prod_simp)+

lemma compare_rank: "compare_candidates chain a b = Greater \<longleftrightarrow> rank chain b < rank chain a"
  by (cases chain; cases "snd a"; cases "snd b")
    (auto simp: compare_candidates_def rank_def merit_def less_prod_simp)

lemma candidates_sorted: "sort_by (compare_candidates chain) cs = sort_key (rank chain) cs"
  by (rule sort_by_key) (rule compare_rank)

text \<open>The conditions on an agent, on a task, and the merit of an agent, read off the store.\<close>

definition fit :: "id \<Rightarrow> dispatch_policy \<Rightarrow> time \<Rightarrow> db \<Rightarrow> agent_row \<Rightarrow> bool" where
  "fit task p now s a \<longleftrightarrow>
     to_ascii_lowercase (ag_status a) = ''online''
     \<and> set (dp_capabilities p) \<subseteq> set (ag_capabilities a)
     \<and> (dp_profile p = None \<or> dp_profile p = Some (ag_profile a))
     \<and> (dp_account p = None \<or> dp_account p = ag_account a)
     \<and> (dp_machine p = None \<or> dp_machine p = ag_machine a)
     \<and> age now (ag_heartbeat a) \<le> dp_heartbeat_ttl p
     \<and> (case newest_capacity (ag_id a) s of
          None \<Rightarrow> False
        | Some c \<Rightarrow> age now (cs_observed_at c) \<le> dp_capacity_ttl p \<and> \<not> blocking_status (cs_status c)
            \<and> \<not> blocking_quota (cs_quota_state c) \<and> 0 < effective_slots (live_count (ag_id a) now s) c)
     \<and> (case continuation_of task p s of
          None \<Rightarrow> True
        | Some k \<Rightarrow> ag_id a \<in> set (cp_agents k) \<and> ag_id a \<notin> set (attempted task s))"

definition agent_merit :: "id \<Rightarrow> dispatch_policy \<Rightarrow> time \<Rightarrow> db \<Rightarrow> agent_row \<Rightarrow> int \<times> int \<times> int \<times> int \<times> id" where
  "agent_merit task p now s a =
     (let c = newest_capacity (ag_id a) s; busy = live_count (ag_id a) now s in
      merit (map_option cp_agents (continuation_of task p s))
        (case c of None \<Rightarrow> 0 | Some c \<Rightarrow> effective_slots busy c) busy (map_option cs_observed_at c) (ag_id a))"

definition dispatchable :: "external \<Rightarrow> id \<Rightarrow> dispatch_policy \<Rightarrow> time \<Rightarrow> db \<Rightarrow> bool" where
  "dispatchable x task p now s \<longleftrightarrow>
     (case (find_task task s, gate_conn (x_pointer x) task s) of
        (Some t, Inr gate) \<Rightarrow>
          t_mode t = ''dispatch'' \<and> (t_state t = ''ready'' \<or> t_state t = ''in_progress'') \<and> dp_enabled p
          \<and> tg_state gate = Eligible \<and> \<not> predecessor_runtime_active task s \<and> \<not> cleanup_blocked task s
          \<and> (\<forall>a \<in> set (assignments s). \<not> (a_task a = task \<and> a_role a = dp_role p \<and> active a \<and> now < a_expires_at a))
      | _ \<Rightarrow> False)"

definition admitted_candidate :: "id \<Rightarrow> dispatch_policy \<Rightarrow> time \<Rightarrow> db \<Rightarrow> agent_row \<Rightarrow> dispatch_candidate \<times> time option" where
  "admitted_candidate task p now s a =
     (case continuation_of task p s of
        None \<Rightarrow> dispatch_candidate_of p now s a
      | Some k \<Rightarrow> restrict_candidate (cp_agents k) (attempted task s) (dispatch_candidate_of p now s a))"

lemma instance_reasons_none:
  "instance_reasons p now a = [] \<longleftrightarrow>
     to_ascii_lowercase (ag_status a) = ''online'' \<and> set (dp_capabilities p) \<subseteq> set (ag_capabilities a)
     \<and> (dp_profile p = None \<or> dp_profile p = Some (ag_profile a)) \<and> (dp_account p = None \<or> dp_account p = ag_account a)
     \<and> (dp_machine p = None \<or> dp_machine p = ag_machine a) \<and> age now (ag_heartbeat a) \<le> dp_heartbeat_ttl p"
  by (auto simp: instance_reasons_def filter_empty_conv subset_iff)

lemma capacity_reasons_none:
  "capacity_reasons p now busy c = [] \<longleftrightarrow>
     age now (cs_observed_at c) \<le> dp_capacity_ttl p \<and> \<not> blocking_status (cs_status c)
     \<and> \<not> blocking_quota (cs_quota_state c) \<and> 0 < effective_slots busy c"
  by (auto simp: capacity_reasons_def blocking_quota_def split: option.splits)

lemma admitted_rank:
  "rank (map_option cp_agents (continuation_of task p s)) (admitted_candidate task p now s a)
     = (\<not> fit task p now s a, agent_merit task p now s a)"
  "dc_agent (fst (admitted_candidate task p now s a)) = ag_id a"
  "dc_eligible (fst (admitted_candidate task p now s a)) = fit task p now s a"
  by (cases "continuation_of task p s"; cases "newest_capacity (ag_id a) s";
      auto simp: admitted_candidate_def rank_def agent_merit_def fit_def dispatch_candidate_of_def restrict_candidate_def
        Let_def instance_reasons_none capacity_reasons_none)+

lemma sort_key_map: "sort_key f (map g xs) = map g (sort_key (\<lambda>x. f (g x)) xs)"
proof -
  have "insort_key f (g x) (map g ys) = map g (insort_key (\<lambda>x. f (g x)) x ys)" for x ys
    by (induction ys) simp_all
  then show ?thesis by (induction xs) (simp_all add: sort_key_def)
qed

lemma evaluate_dispatch_Inr:
  assumes "evaluate_dispatch_conn x task p now s = Inr v"
  shows "dv_dispatchable v = dispatchable x task p now s"
    "dv_candidates v = map (fst \<circ> admitted_candidate task p now s)
       (sort_key (\<lambda>a. (\<not> fit task p now s a, agent_merit task p now s a)) (sort_key ag_id (agents s)))"
    "dv_selected v = (if dispatchable x task p now s then map_option dc_agent (find dc_eligible (dv_candidates v)) else None)"
proof -
  let ?chain = "map_option cp_agents (continuation_of task p s)"
  let ?as = "sort_key ag_id (agents s)"
  have admitted: "(case ?chain of None \<Rightarrow> map (dispatch_candidate_of p now s) as
      | Some ids \<Rightarrow> map (restrict_candidate ids (attempted task s)) (map (dispatch_candidate_of p now s) as))
      = map (admitted_candidate task p now s) as" for as
    by (cases "continuation_of task p s") (simp_all add: admitted_candidate_def [abs_def] comp_def)
  from assms obtain t gate where t: "find_task task s = Some t" "t_id t = task" and g: "gate_conn (x_pointer x) task s = Inr gate"
    and v: "v = \<lparr>dv_task = task, dv_role = dp_role p, dv_policy = p, dv_dispatchable = (task_reasons x t p gate now s = []),
       dv_reasons = task_reasons x t p gate now s,
       dv_candidates = map fst (sort_by (compare_candidates ?chain) (map (admitted_candidate task p now s) ?as)),
       dv_selected = (if task_reasons x t p gate now s = [] then map_option dc_agent (find dc_eligible
         (map fst (sort_by (compare_candidates ?chain) (map (admitted_candidate task p now s) ?as)))) else None)\<rparr>"
    unfolding evaluate_dispatch_conn_def Let_def admitted by (auto simp: res_simps dest: find_task_SomeD)
  have reasons: "task_reasons x t p gate now s = [] \<longleftrightarrow> dispatchable x task p now s"
    using t g by (auto simp: task_reasons_def dispatchable_def list_ex_iff active_def)
  have "sort_by (compare_candidates ?chain) (map (admitted_candidate task p now s) ?as)
      = map (admitted_candidate task p now s) (sort_key (\<lambda>a. (\<not> fit task p now s a, agent_merit task p now s a)) ?as)"
    unfolding candidates_sorted by (simp add: sort_key_map admitted_rank)
  with reasons show "dv_dispatchable v = dispatchable x task p now s"
    "dv_candidates v = map (fst \<circ> admitted_candidate task p now s)
       (sort_key (\<lambda>a. (\<not> fit task p now s a, agent_merit task p now s a)) ?as)"
    "dv_selected v = (if dispatchable x task p now s then map_option dc_agent (find dc_eligible (dv_candidates v)) else None)"
    by (simp_all add: v)
qed

text \<open>The first row that satisfies a condition in a list sorted with those rows first.\<close>

lemma find_best:
  assumes "find (\<lambda>a. P a) (sort_key (\<lambda>a. (\<not> P a, k a)) xs) = Some x"
  shows "x \<in> set xs \<and> P x \<and> (\<forall>y \<in> set xs. P y \<longrightarrow> (k x :: 'k::linorder) \<le> k y)"
proof -
  let ?f = "\<lambda>a. (\<not> P a, k a)" and ?l = "sort_key (\<lambda>a. (\<not> P a, k a)) xs"
  from assms obtain i where i: "i < length ?l" "P (?l ! i)" "x = ?l ! i" "\<And>j. j < i \<Longrightarrow> \<not> P (?l ! j)"
    unfolding find_Some_iff by blast
  have "k x \<le> k y" if "y \<in> set xs" "P y" for y
  proof -
    from that(1) have "y \<in> set ?l" by simp
    then obtain j where j: "j < length ?l" "y = ?l ! j" unfolding in_set_conv_nth by blast
    with that(2) i(4) have "i \<le> j" by (meson not_less)
    then have "?f x \<le> ?f y"
      using i(3) j sorted_nth_mono [OF sorted_sort_key, of i j ?f xs] by simp
    with that(2) i(2,3) show ?thesis by (simp add: less_eq_prod_simp)
  qed
  moreover have "x \<in> set ?l" unfolding i(3) using i(1) by (rule nth_mem)
  then have "x \<in> set xs" by simp
  ultimately show ?thesis using i by blast
qed

text \<open>
  C25. The dispatcher selects an agent exactly when the task can be dispatched and some agent is
  fit for it, and then the best of them: the first in the continuation policy that was not tried
  yet, or else one with the most effective slots, the fewest live assignments among those, the
  newest snapshot and the smallest identifier.
\<close>

theorem dispatch_selects_the_best:
  assumes "evaluate_dispatch_conn x task p now s = Inr v"
  shows "dv_dispatchable v = dispatchable x task p now s
    \<and> (case dv_selected v of
         None \<Rightarrow> \<not> dispatchable x task p now s \<or> \<not> (\<exists>a \<in> set (agents s). fit task p now s a)
       | Some g \<Rightarrow> dispatchable x task p now s
           \<and> (\<exists>a \<in> set (agents s). ag_id a = g \<and> fit task p now s a
               \<and> (\<forall>b \<in> set (agents s). fit task p now s b \<longrightarrow> agent_merit task p now s a \<le> agent_merit task p now s b)))"
proof -
  let ?l = "sort_key (\<lambda>a. (\<not> fit task p now s a, agent_merit task p now s a)) (sort_key ag_id (agents s))"
  have "find dc_eligible (map (fst \<circ> admitted_candidate task p now s) as)
      = map_option (fst \<circ> admitted_candidate task p now s) (find (fit task p now s) as)" for as
    by (induction as) (simp_all add: admitted_rank)
  then have selected: "dv_selected v = (if dispatchable x task p now s then map_option ag_id (find (fit task p now s) ?l) else None)"
    unfolding evaluate_dispatch_Inr [OF assms] by (simp add: option.map_comp comp_def admitted_rank)
  show ?thesis
  proof (cases "find (fit task p now s) ?l")
    case None
    then have "\<not> (\<exists>a \<in> set (agents s). fit task p now s a)" by (auto simp: find_None_iff)
    with None show ?thesis using selected evaluate_dispatch_Inr(1) [OF assms] by simp
  next
    case (Some a)
    from find_best [OF Some] Some show ?thesis
      using selected evaluate_dispatch_Inr(1) [OF assms] by auto
  qed
qed

subsection \<open>What a dispatch does\<close>

lemma keeps_dispatch_expire_one: "keeps s (dispatch_expire_one now a s)"
  by (auto simp: dispatch_expire_one_def Let_def row_defs intro!: keeps_update_assignments)

lemma keeps_expire_stale: "keeps s (expire_stale_tx now s)"
proof -
  have "keeps s (fold (dispatch_expire_one now) as s)" for as
    by (induction as arbitrary: s) (auto intro: keeps_trans keeps_dispatch_expire_one)
  then show ?thesis by (simp add: expire_stale_tx_def)
qed

lemma dispatch_expire_one_tables:
  "tasks (dispatch_expire_one now a s) = tasks s" "runs (dispatch_expire_one now a s) = runs s"
  "agents (dispatch_expire_one now a s) = agents s"
  by (simp_all add: dispatch_expire_one_def Let_def update_assignments_def)

lemma expire_stale_tables:
  "tasks (expire_stale_tx now s) = tasks s" "runs (expire_stale_tx now s) = runs s" "agents (expire_stale_tx now s) = agents s"
proof -
  have "tasks (fold (dispatch_expire_one now) as s) = tasks s \<and> runs (fold (dispatch_expire_one now) as s) = runs s
      \<and> agents (fold (dispatch_expire_one now) as s) = agents s" for as
    by (induction as arbitrary: s) (simp_all add: dispatch_expire_one_tables)
  then show "tasks (expire_stale_tx now s) = tasks s" "runs (expire_stale_tx now s) = runs s" "agents (expire_stale_tx now s) = agents s"
    by (simp_all add: expire_stale_tx_def)
qed

lemma insert_dispatch_assignment_txE:
  assumes "insert_dispatch_assignment_tx task agent role n fresh now s = Inr (a, s')"
  obtains t s1 s2 where "t \<in> set (tasks s)" "t_id t = task" "t_mode t = ''dispatch''" "t_state t = ''ready'' \<or> t_state t = ''in_progress''"
    "a = claimed task agent role n True fresh now" "insert_assignment a s = Inr s1"
    "(if role = ''executor'' then create_assignment_intake_tx fresh task agent now s1 else Inr s1) = Inr s2"
    "s' = append_event_tx ''agent_instance'' agent ''task'' task ''assignment.claimed''
        [(''assignment_id'', PStr fresh), (''role'', PStr role), (''expires_at'', PTime (lease_end now n)),
         (''source'', PStr ''dispatcher'')] None now
        (update_tasks (\<lambda>t. t_id t = task)
          (\<lambda>t. t\<lparr>t_state := (if t_state t = ''ready'' then ''in_progress'' else t_state t), t_updated_at := now\<rparr>) s2)"
    "assignments s' = assignments s @ [a]" "runs s' = runs s" "agents s' = agents s"
    "tasks s' = update_where (\<lambda>t. t_id t = task)
          (\<lambda>t. t\<lparr>t_state := (if t_state t = ''ready'' then ''in_progress'' else t_state t), t_updated_at := now\<rparr>) (tasks s)"
proof -
  let ?a = "claimed task agent role n True fresh now"
  have claimed: "\<lparr>a_id = fresh, a_task = task, a_role = role, a_agent = agent, a_status = ''active'',
      a_phase = (if role = ''executor'' then context_review else implementing), a_acquired_at = now,
      a_expires_at = lease_end now n, a_renewed_at = now, a_released_at = None, a_release_reason = None\<rparr> = ?a"
    by (simp add: claimed_def)
  from assms obtain s1 s2 where
    ok: "list_ex (\<lambda>t. t_id t = task \<and> t_mode t = ''dispatch'' \<and> (t_state t = ''ready'' \<or> t_state t = ''in_progress'')) (tasks s)"
    and ins: "(case insert_assignment ?a s of
            Inl UniqueViolation \<Rightarrow> Inl (Conflict ''task role already has an active assignment'')
          | Inl e \<Rightarrow> Inl (storage e)
          | Inr s1 \<Rightarrow> Inr s1) = Inr s1"
    and s2: "(if role = ''executor'' then create_assignment_intake_tx fresh task agent now s1 else Inr s1) = Inr s2"
    and s': "a = ?a" "s' = append_event_tx ''agent_instance'' agent ''task'' task ''assignment.claimed''
        [(''assignment_id'', PStr fresh), (''role'', PStr role), (''expires_at'', PTime (lease_end now n)),
         (''source'', PStr ''dispatcher'')] None now
        (update_tasks (\<lambda>t. t_id t = task)
          (\<lambda>t. t\<lparr>t_state := (if t_state t = ''ready'' then ''in_progress'' else t_state t), t_updated_at := now\<rparr>) s2)"
    unfolding insert_dispatch_assignment_tx_def Let_def claimed res_simps by auto
  from ok obtain t where t: "t \<in> set (tasks s)" "t_id t = task" "t_mode t = ''dispatch''" "t_state t = ''ready'' \<or> t_state t = ''in_progress''"
    by (auto simp: list_ex_iff)
  from ins have ins': "insert_assignment a s = Inr s1"
    by (auto simp: s'(1) split: sum.splits sql_error.splits)
  then have s1: "s1 = s\<lparr>assignments := assignments s @ [a]\<rparr>" by (simp add: insert_assignment_Inr)
  have "tasks s2 = tasks s \<and> assignments s2 = assignments s @ [a] \<and> runs s2 = runs s \<and> agents s2 = agents s"
    using s2 create_intake_tables [of fresh task agent now s1 s2] by (auto simp: s1 split: if_splits)
  then show thesis
    by (intro that [OF t s'(1) ins' s2 s'(2)]) (simp_all add: s'(2) update_tasks_def)
qed

lemma keeps_insert_dispatch_assignment:
  assumes "insert_dispatch_assignment_tx task agent role n fresh now s = Inr (a, s')"
  shows "keeps s s'"
proof (cases "store_ok s")
  case True
  from assms show ?thesis
  proof (rule insert_dispatch_assignment_txE)
    fix t s1 s2
    assume t: "t \<in> set (tasks s)" "t_id t = task" "t_state t = ''ready'' \<or> t_state t = ''in_progress''"
      and a: "a = claimed task agent role n True fresh now" and ins: "insert_assignment a s = Inr s1"
      and s2: "(if role = ''executor'' then create_assignment_intake_tx fresh task agent now s1 else Inr s1) = Inr s2"
      and s': "s' = append_event_tx ''agent_instance'' agent ''task'' task ''assignment.claimed''
        [(''assignment_id'', PStr fresh), (''role'', PStr role), (''expires_at'', PTime (lease_end now n)),
         (''source'', PStr ''dispatcher'')] None now
        (update_tasks (\<lambda>t. t_id t = task)
          (\<lambda>t. t\<lparr>t_state := (if t_state t = ''ready'' then ''in_progress'' else t_state t), t_updated_at := now\<rparr>) s2)"
    from True t(1,2) have found: "find_task task s = Some t"
      by (auto simp: find_task_def store_ok_def core_ok_def intro: find_unique)
    have "keeps s s1"
      using keeps_insert_assignment [OF ins] found t(3) by (auto simp: a)
    moreover have "keeps s1 s2" using s2 keeps_create_intake by (auto split: if_splits)
    moreover have "keeps s2 s'" unfolding s' keeps_append_event by (rule keeps_update_tasks) auto
    ultimately show "keeps s s'" by (blast intro: keeps_trans)
  qed
qed (simp add: keeps_def)

lemma keeps_assign_selected:
  "assign_selected_tx task role n v fresh now s = Inr (a, s') \<Longrightarrow> keeps s s'"
  by (auto simp: assign_selected_tx_def res_simps split: if_splits option.splits dest: keeps_insert_dispatch_assignment)

lemma record_outcome_txE:
  assumes "record_outcome_tx task role v a fresh now s = Inr (r, s')"
  obtains d where "r = (d, a)" "dd_task d = task" "dd_preview d = v" "dd_assignment d = map_option a_id a"
    "dd_selected d = (if a = None then None else dv_selected v)" "keeps s s'"
    "assignments s' = assignments s" "tasks s' = tasks s" "runs s' = runs s" "agents s' = agents s"
    "s' = append_event_tx ''system'' ''dispatcher'' ''task'' task
       (if a \<noteq> None then ''dispatch.assigned'' else ''dispatch.no_candidate'')
       [(''decision_id'', PStr (dd_id d)), (''role'', PStr role), (''agent_instance_id'', p_opt (dd_selected d))] None now
       (s\<lparr>dispatch_decisions := dispatch_decisions s @ [d]\<rparr>)"
proof -
  from assms obtain d s1 where d: "insert_decision_tx task role (if a \<noteq> None then ''assigned'' else ''no_candidate'')
       (if a \<noteq> None then dv_selected v else None) (map_option a_id a) v fresh now s = Inr (d, s1)"
    and r: "r = (d, a)" "s' = append_event_tx ''system'' ''dispatcher'' ''task'' task
       (if a \<noteq> None then ''dispatch.assigned'' else ''dispatch.no_candidate'')
       [(''decision_id'', PStr (dd_id d)), (''role'', PStr role), (''agent_instance_id'', p_opt (dd_selected d))] None now s1"
    unfolding record_outcome_tx_def res_simps by auto
  from d have "s1 = s\<lparr>dispatch_decisions := dispatch_decisions s @ [d]\<rparr>" "dd_task d = task" "dd_preview d = v"
    "dd_assignment d = map_option a_id a" "dd_selected d = (if a = None then None else dv_selected v)"
    by (auto simp: insert_decision_tx_def Let_def res_simps split: if_splits)
  with r show thesis by (intro that [of d]) simp_all
qed

lemma recorded_store:
  assumes "record_outcome_tx task role v a fresh now s = Inr (r, s')"
  obtains ds es where "s' = s\<lparr>dispatch_decisions := ds, events := es\<rparr>"
  using assms
proof (rule record_outcome_txE)
  fix d
  assume "s' = append_event_tx ''system'' ''dispatcher'' ''task'' task
       (if a \<noteq> None then ''dispatch.assigned'' else ''dispatch.no_candidate'')
       [(''decision_id'', PStr (dd_id d)), (''role'', PStr role), (''agent_instance_id'', p_opt (dd_selected d))] None now
       (s\<lparr>dispatch_decisions := dispatch_decisions s @ [d]\<rparr>)"
  from that [OF this [unfolded append_event_tx_def]] show thesis .
qed

lemma keeps_record_outcome: "record_outcome_tx task role v a fresh now s = Inr (r, s') \<Longrightarrow> keeps s s'"
  by (rule record_outcome_txE)

lemma dispatch_task_txE:
  assumes "dispatch_task_tx x task role i j now s = Inr ((d, a), s')"
  obtains p v s1 where "load_policy_conn task role (expire_stale_tx now s) = Inr p"
    "evaluate_dispatch_conn x task p now (expire_stale_tx now s) = Inr v"
    "assign_selected_tx task (dp_role p) (dp_lease p) v i now (expire_stale_tx now s) = Inr (a, s1)"
    "record_outcome_tx task (dp_role p) v a j now s1 = Inr ((d, a), s')"
proof -
  from assms obtain p v b s1 where *: "load_policy_conn task role (expire_stale_tx now s) = Inr p"
    "evaluate_dispatch_conn x task p now (expire_stale_tx now s) = Inr v"
    "assign_selected_tx task (dp_role p) (dp_lease p) v i now (expire_stale_tx now s) = Inr (b, s1)"
    "record_outcome_tx task (dp_role p) v b j now s1 = Inr ((d, a), s')"
    unfolding dispatch_task_tx_def Let_def res_simps by auto
  moreover from *(4) have "b = a" by (rule record_outcome_txE) simp
  ultimately show thesis by (intro that) simp_all
qed

lemma keeps_dispatch_task_tx:
  assumes "dispatch_task_tx x task role i j now s = Inr (r, s')"
  shows "keeps s s'"
proof -
  obtain d a where "r = (d, a)" by (cases r)
  with assms have "dispatch_task_tx x task role i j now s = Inr ((d, a), s')" by simp
  then show ?thesis
    by (rule dispatch_task_txE)
      (blast intro: keeps_trans keeps_expire_stale keeps_assign_selected keeps_record_outcome)
qed

lemma assign_selectedE:
  assumes "assign_selected_tx task role n v fresh now s = Inr (a, s')" "evaluate_dispatch_conn x task p now s = Inr v"
  obtains (none) "a = None" "dv_selected v = None" "s' = s"
  | (some) g b where "a = Some b" "dv_selected v = Some g" "insert_dispatch_assignment_tx task g role n fresh now s = Inr (b, s')"
proof -
  have "dv_dispatchable v" if "dv_selected v = Some g" for g
    using that evaluate_dispatch_Inr(1,3) [OF assms(2)] by (auto split: if_splits)
  then show thesis
    using assms(1) none some by (auto simp: assign_selected_tx_def res_simps split: if_splits option.splits)
qed

lemma dispatch_loop_ConsE:
  assumes "dispatch_loop x role rn fresh now (task # rest) attempts s = Inr (r, s')"
  obtains (skipped) p v where "load_policy_conn task role s = Inr p" "evaluate_dispatch_conn x task p now s = Inr v"
      "dv_selected v = None" "dispatch_loop x role rn fresh now rest attempts s = Inr (r, s')"
  | (recorded) p v d s1 where "load_policy_conn task role s = Inr p" "evaluate_dispatch_conn x task p now s = Inr v"
      "dv_selected v = None" "record_outcome_tx task role v None (snd (fresh task)) now s = Inr ((d, None), s1)"
      "dispatch_loop x role rn fresh now rest (attempts @ [(d, None)]) s1 = Inr (r, s')"
  | (assigned) p v g a d s1 where "load_policy_conn task role s = Inr p" "evaluate_dispatch_conn x task p now s = Inr v"
      "dv_selected v = Some g" "insert_dispatch_assignment_tx task g role (dp_lease p) (fst (fresh task)) now s = Inr (a, s1)"
      "record_outcome_tx task role v (Some a) (snd (fresh task)) now s1 = Inr ((d, Some a), s')"
      "r = (Some (d, Some a), attempts @ [(d, Some a)])"
proof -
  from assms obtain p v a s1 where load: "load_policy_conn task role s = Inr p" and eval: "evaluate_dispatch_conn x task p now s = Inr v"
    and a: "assign_selected_tx task role (dp_lease p) v (fst (fresh task)) now s = Inr (a, s1)"
    and rest: "(if a = None \<and> \<not> rn then dispatch_loop x role rn fresh now rest attempts s1
     else bind_res (record_outcome_tx task role v a (snd (fresh task)) now s1) (\<lambda>(d, s2).
       if snd d \<noteq> None then Inr ((Some d, attempts @ [d]), s2)
       else dispatch_loop x role rn fresh now rest (attempts @ [d]) s2)) = Inr (r, s')"
    by (simp only: dispatch_loop.simps bind_res_Inr_iff split_paired_Ex prod.case) blast
  have shape: "fst d = fst d \<and> snd d = a" if "record_outcome_tx task role v a (snd (fresh task)) now s1 = Inr (d, s2)" for d s2
    using that by (rule record_outcome_txE) simp
  from a eval show thesis
  proof (cases rule: assign_selectedE)
    case none
    show thesis
    proof (cases rn)
      case False
      with none rest show thesis by (intro skipped [OF load eval]) simp_all
    next
      case True
      with none rest obtain d s2 where d: "record_outcome_tx task role v None (snd (fresh task)) now s = Inr (d, s2)"
        "(if snd d \<noteq> None then Inr ((Some d, attempts @ [d]), s2)
         else dispatch_loop x role rn fresh now rest (attempts @ [d]) s2) = Inr (r, s')"
        by (auto simp: bind_res_Inr_iff simp del: split_paired_Ex)
      with shape none have "snd d = None" by simp
      with d none show thesis by (cases d) (intro recorded [OF load eval, of "fst d" s2], simp_all)
    qed
  next
    case (some g b)
    with rest obtain d s2 where d: "record_outcome_tx task role v (Some b) (snd (fresh task)) now s1 = Inr (d, s2)"
      "(if snd d \<noteq> None then Inr ((Some d, attempts @ [d]), s2)
         else dispatch_loop x role rn fresh now rest (attempts @ [d]) s2) = Inr (r, s')"
      by (auto simp: bind_res_Inr_iff simp del: split_paired_Ex)
    with shape some have "snd d = Some b" by simp
    with d some show thesis by (cases d) (intro assigned [OF load eval some(2,3), of "fst d"], simp_all)
  qed
qed

lemma keeps_dispatch_loop:
  "dispatch_loop x role rn fresh now q attempts s = Inr (r, s') \<Longrightarrow> keeps s s'"
proof (induction q arbitrary: attempts s)
  case (Cons task rest)
  from Cons.prems show ?case
  proof (cases rule: dispatch_loop_ConsE)
    case (skipped p v)
    from Cons.IH [OF skipped(4)] show ?thesis .
  next
    case (recorded p v d s1)
    from keeps_trans [OF keeps_record_outcome [OF recorded(4)] Cons.IH [OF recorded(5)]] show ?thesis .
  next
    case (assigned p v g a d s1)
    from keeps_trans [OF keeps_insert_dispatch_assignment [OF assigned(4)] keeps_record_outcome [OF assigned(5)]] show ?thesis .
  qed
qed simp

lemma keeps_set_dispatch_policy_tx: "set_dispatch_policy_tx task i now s = Inr (u, s') \<Longrightarrow> keeps s s'"
  by (auto simp: set_dispatch_policy_tx_def Let_def res_simps upsert_policy_def
      intro!: keeps_trans [OF _ keeps_update_tasks] split: if_splits)

lemma keeps_upsert_scheduler: "keeps s (upsert_scheduler e s)"
  by (simp add: upsert_scheduler_def)


text \<open>The evaluation reads neither the decisions nor the events.\<close>

lemma gate_conn_same:
  assumes "tasks s' = tasks s" "dependencies s' = dependencies s" "chain_members s' = chain_members s"
    "runs s' = runs s" "assignments s' = assignments s"
  shows "gate_conn ptr i s' = gate_conn ptr i s"
proof -
  have "completion_result s' = completion_result s" by (simp add: completion_result_def [abs_def] assms)
  then have "condition_matches ptr s' = condition_matches ptr s" by (simp only: condition_matches_def [abs_def])
  then have "edge_status ptr s' d = edge_status ptr s d" for d
    by (simp only: edge_status_def find_task_def assms)
  then have "edge_status ptr s' = edge_status ptr s" by (rule ext)
  then have "initial_work ptr s' = initial_work ptr s"
    by (simp add: initial_work_def incoming_edges_def [abs_def] ordered_dependencies_def assms)
  moreover have "join_mode_of s' = join_mode_of s" by (simp add: join_mode_of_def [abs_def] assms)
  ultimately show ?thesis by (simp add: gate_conn_def gate_conn_ordered_def find_task_def ordered_dependencies_def assms)
qed

definition no_candidate :: "external \<Rightarrow> string \<Rightarrow> time \<Rightarrow> db \<Rightarrow> id \<Rightarrow> bool" where
  "no_candidate x role now s task \<longleftrightarrow>
     (case load_policy_conn task role s of
        Inl e \<Rightarrow> False
      | Inr p \<Rightarrow> (case evaluate_dispatch_conn x task p now s of Inl e \<Rightarrow> False | Inr v \<Rightarrow> dv_selected v = None))"

lemma evaluate_recorded:
  "load_policy_conn task role (s\<lparr>dispatch_decisions := d, events := e\<rparr>) = load_policy_conn task role s"
  "evaluate_dispatch_conn x task p now (s\<lparr>dispatch_decisions := d, events := e\<rparr>) = evaluate_dispatch_conn x task p now s"
  "no_candidate x role now (s\<lparr>dispatch_decisions := d, events := e\<rparr>) task = no_candidate x role now s task"
proof -
  let ?s = "s\<lparr>dispatch_decisions := d, events := e\<rparr>"
  show load: "load_policy_conn task role ?s = load_policy_conn task role s" for task role by (simp add: load_policy_conn_def)
  have "task_reasons x t p g now ?s = task_reasons x t p g now s" for t p g
    by (simp add: task_reasons_def predecessor_runtime_active_def cleanup_blocked_def)
  moreover have "dispatch_candidate_of p now ?s = dispatch_candidate_of p now s" for p
    by (rule ext) (simp add: dispatch_candidate_of_def newest_capacity_def live_count_def)
  moreover have "continuation_of task p ?s = continuation_of task p s" for task p
    by (simp add: continuation_of_def load_policy_def)
  moreover have "attempted task ?s = attempted task s" for task by (simp add: attempted_def)
  moreover have "gate_conn (x_pointer x) task ?s = gate_conn (x_pointer x) task s" for task by (rule gate_conn_same) simp_all
  moreover have "find_task task ?s = find_task task s" for task by (simp add: find_task_def)
  moreover have "agents ?s = agents s" by simp
  ultimately show eval: "evaluate_dispatch_conn x task p now ?s = evaluate_dispatch_conn x task p now s" for task p
    by (simp only: evaluate_dispatch_conn_def)
  show "no_candidate x role now ?s task = no_candidate x role now s task"
    by (simp only: no_candidate_def load eval)
qed

definition in_order :: "external \<Rightarrow> string \<Rightarrow> time \<Rightarrow> db \<Rightarrow> id list
    \<Rightarrow> (dispatch_decision_row \<times> assignment option) option \<Rightarrow> db \<Rightarrow> bool" where
  "in_order x role now s q out s' \<longleftrightarrow>
     (case out of
        None \<Rightarrow> list_all (no_candidate x role now s) q \<and> assignments s' = assignments s \<and> tasks s' = tasks s
      | Some (d, a) \<Rightarrow> (\<exists>pre post b p v. q = pre @ dd_task d # post \<and> list_all (no_candidate x role now s) pre
          \<and> a = Some b \<and> a_task b = dd_task d \<and> assignments s' = assignments s @ [b]
          \<and> load_policy_conn (dd_task d) role s = Inr p
          \<and> evaluate_dispatch_conn x (dd_task d) p now s = Inr v \<and> dv_selected v = Some (a_agent b)))"

lemma in_order_Cons:
  assumes "no_candidate x role now s task" "in_order x role now s rest out s'"
  shows "in_order x role now s (task # rest) out s'"
proof (cases out)
  case None
  with assms show ?thesis by (simp add: in_order_def)
next
  case (Some r)
  obtain d a where r: "r = (d, a)" by (cases r)
  from assms(2) obtain pre post b p v where *: "rest = pre @ dd_task d # post" "list_all (no_candidate x role now s) pre"
    "a = Some b" "a_task b = dd_task d" "assignments s' = assignments s @ [b]" "load_policy_conn (dd_task d) role s = Inr p"
    "evaluate_dispatch_conn x (dd_task d) p now s = Inr v" "dv_selected v = Some (a_agent b)"
    by (auto simp: in_order_def Some r)
  with assms(1) have "task # rest = (task # pre) @ dd_task d # post" "list_all (no_candidate x role now s) (task # pre)" by simp_all
  with * show ?thesis unfolding in_order_def Some r option.case prod.case by blast
qed

text \<open>
  One pass over the queue of a role assigns at most one task, the first one of the queue, by
  priority and age, that can be dispatched to someone; the tasks before it had no candidate, and a
  pass without assignment had none for any task.
\<close>

theorem dispatch_next_in_order:
  assumes "dispatch_loop x role rn fresh now q attempts s = Inr ((out, log), s')"
  shows "in_order x role now s q out s'"
  using assms
proof (induction q arbitrary: attempts s)
  case (Cons task rest)
  from Cons.prems show ?case
  proof (cases rule: dispatch_loop_ConsE)
    case (skipped p v)
    then have "no_candidate x role now s task" by (simp add: no_candidate_def)
    from in_order_Cons [OF this Cons.IH [OF skipped(4)]] show ?thesis .
  next
    case (recorded p v d s1)
    then have none: "no_candidate x role now s task" by (simp add: no_candidate_def)
    from recorded(4) have same: "assignments s1 = assignments s \<and> tasks s1 = tasks s" by (rule record_outcome_txE) simp
    obtain ds es where s1: "s1 = s\<lparr>dispatch_decisions := ds, events := es\<rparr>" by (rule recorded_store [OF recorded(4)])
    have "no_candidate x role now s1 = no_candidate x role now s" "load_policy_conn i role s1 = load_policy_conn i role s"
      "evaluate_dispatch_conn x i p now s1 = evaluate_dispatch_conn x i p now s" for i p
      by (simp_all add: s1 evaluate_recorded fun_eq_iff)
    with Cons.IH [OF recorded(5)] same have "in_order x role now s rest out s'"
      by (cases out) (simp_all add: in_order_def split: prod.splits)
    from in_order_Cons [OF none this] show ?thesis .
  next
    case (assigned p v g a d s1)
    from assigned(5) have d: "dd_task d = task" "assignments s' = assignments s1" by (auto elim!: record_outcome_txE)
    from assigned(4) have a: "assignments s1 = assignments s @ [a]" "a_task a = task" "a_agent a = g"
      by (auto elim!: insert_dispatch_assignment_txE)
    have "task # rest = [] @ dd_task d # rest" "list_all (no_candidate x role now s) []" using d by simp_all
    moreover have "load_policy_conn (dd_task d) role s = Inr p" "evaluate_dispatch_conn x (dd_task d) p now s = Inr v"
      "dv_selected v = Some (a_agent a)" "a_task a = dd_task d" "assignments s' = assignments s @ [a]"
      using assigned(1-3) a d by simp_all
    ultimately show ?thesis using assigned(6) unfolding in_order_def by (simp only: prod.inject option.case prod.case) blast
  qed
qed (simp add: in_order_def)

text \<open>A dispatch task with a policy, and two agents; \<open>f\<close> reports more free slots than \<open>e\<close>.\<close>

definition example_capacity :: "id \<Rightarrow> int \<Rightarrow> capacity_snapshot" where
  "example_capacity agent slots =
     \<lparr>cs_agent = agent, cs_status = ''available'', cs_available_slots = slots, cs_active_assignments = 0,
      cs_active_runs = 0, cs_max_concurrency = None, cs_quota_state = None, cs_observed_at = 0\<rparr>"

definition example_policy :: "string \<Rightarrow> dispatch_policy" where
  "example_policy role =
     \<lparr>dp_task = ''t'', dp_role = role, dp_capabilities = [], dp_profile = None, dp_account = None, dp_machine = None,
      dp_heartbeat_ttl = 120, dp_capacity_ttl = 120, dp_lease = 60, dp_enabled = True, dp_created_at = 0, dp_updated_at = 0\<rparr>"

definition example_dispatch_store :: db where
  "example_dispatch_store = empty_db\<lparr>
     tasks := [(example_task ''t'' ''ready'')\<lparr>t_mode := ''dispatch''\<rparr>], agents := [example_agent ''e'', example_agent ''f''],
     capacities := [example_capacity ''e'' 1, example_capacity ''f'' 2],
     policies := [example_policy ''executor'', example_policy ''reviewer'']\<rparr>"

lemmas dispatch_example_defs = example_dispatch_store_def example_policy_def example_capacity_def example_defs

lemma example_selected:
  "\<exists>v. evaluate_dispatch_conn example_external ''t'' (example_policy ''executor'') 5 example_dispatch_store = Inr v
     \<and> dv_selected v = Some ''f''"
proof -
  have "case evaluate_dispatch_conn example_external ''t'' (example_policy ''executor'') 5 example_dispatch_store of
      Inr v \<Rightarrow> dv_selected v = Some ''f'' | Inl _ \<Rightarrow> False" by code_simp
  then show ?thesis by (auto split: sum.splits)
qed

theorem dispatch_selects_the_best_witness:
  "\<exists>v. evaluate_dispatch_conn example_external ''t'' (example_policy ''executor'') 5 example_dispatch_store = Inr v
     \<and> dv_selected v = Some ''f'' \<and> dispatchable example_external ''t'' (example_policy ''executor'') 5 example_dispatch_store"
proof -
  obtain v where v: "evaluate_dispatch_conn example_external ''t'' (example_policy ''executor'') 5 example_dispatch_store = Inr v"
    "dv_selected v = Some ''f''" using example_selected by blast
  from dispatch_selects_the_best [OF v(1)] v show ?thesis by auto
qed

lemma example_dispatch_ok: "store_ok example_dispatch_store"
  by (simp add: store_ok_def core_ok_def graph_ok_def contexts_ok_def revisions_ok_def history_def deps_in_tasks_def
      dep_rel_def wf_acyclic dispatch_example_defs task_is_def)

lemma dispatch_answers:
  assumes "load_policy_conn task role (expire_stale_tx now s) = Inr p" "evaluate_dispatch_conn x task p now (expire_stale_tx now s) = Inr v"
    "dv_selected v = Some g" "insert_dispatch_assignment_tx task g (dp_role p) (dp_lease p) i now (expire_stale_tx now s) = Inr (b, s1)"
    "find_task task s1 \<noteq> None" "dispatch_decisions s1 = []"
  shows "\<exists>d s'. dispatch_task_tx x task role i j now s = Inr ((d, Some b), s')"
proof -
  have "dv_dispatchable v" using assms(3) evaluate_dispatch_Inr(1,3) [OF assms(2)] by (auto split: if_splits)
  with assms show ?thesis
    by (simp add: dispatch_task_tx_def Let_def assign_selected_tx_def record_outcome_tx_def insert_decision_tx_def)
qed

lemma example_dispatch_tables:
  assumes "insert_dispatch_assignment_tx task g role n i now s = Inr (b, s1)"
  shows "find_task task s1 \<noteq> None" "dispatch_decisions s1 = dispatch_decisions s"
proof -
  from assms show "find_task task s1 \<noteq> None"
    by (rule insert_dispatch_assignment_txE) (auto simp: find_task_def find_None_iff set_update_where)
  from assms show "dispatch_decisions s1 = dispatch_decisions s"
    by (rule insert_dispatch_assignment_txE)
      (auto simp: insert_assignment_Inr create_assignment_intake_tx_def Let_def update_tasks_def append_event_tx_def
        split: if_splits)
qed

lemma example_dispatched:
  "\<exists>b s1. insert_dispatch_assignment_tx ''t'' ''f'' ''executor'' 60 ''a'' 5 example_dispatch_store = Inr (b, s1)
     \<and> find_task ''t'' s1 \<noteq> None \<and> dispatch_decisions s1 = []"
proof -
  have "\<not> isl (insert_dispatch_assignment_tx ''t'' ''f'' ''executor'' 60 ''a'' 5 example_dispatch_store)" by code_simp
  from right_result [OF this] obtain b s1 where
    tx: "insert_dispatch_assignment_tx ''t'' ''f'' ''executor'' 60 ''a'' 5 example_dispatch_store = Inr (b, s1)" by auto
  with example_dispatch_tables [OF tx] show ?thesis by (auto simp: dispatch_example_defs)
qed

lemma example_expired: "expire_stale_tx 5 example_dispatch_store = example_dispatch_store"
  by (simp add: expire_stale_tx_def dispatch_example_defs)

lemma example_policies:
  "load_policy_conn ''t'' ''executor'' example_dispatch_store = Inr (example_policy ''executor'')"
  by (simp add: load_policy_conn_def dispatch_example_defs)


theorem dispatch_next_in_order_witness:
  "\<exists>d b log s'. dispatch_loop example_external ''executor'' True (\<lambda>_. (''a'', ''d'')) 5 [''t''] [] example_dispatch_store
       = Inr ((Some (d, b), log), s') \<and> dd_task d = ''t'' \<and> b \<noteq> None"
proof -
  obtain v where v: "evaluate_dispatch_conn example_external ''t'' (example_policy ''executor'') 5 example_dispatch_store = Inr v"
    "dv_selected v = Some ''f''" using example_selected by blast
  then have ok: "dv_dispatchable v" using evaluate_dispatch_Inr(1,3) [OF v(1)] by (auto split: if_splits)
  obtain b s1 where b: "insert_dispatch_assignment_tx ''t'' ''f'' ''executor'' 60 ''a'' 5 example_dispatch_store = Inr (b, s1)"
    "find_task ''t'' s1 \<noteq> None" "dispatch_decisions s1 = []" using example_dispatched by blast
  have "dp_lease (example_policy ''executor'') = 60" by (simp add: example_policy_def)
  with v ok b obtain d log s' where
    tx: "dispatch_loop example_external ''executor'' True (\<lambda>_. (''a'', ''d'')) 5 [''t''] [] example_dispatch_store
      = Inr ((Some (d, Some b), log), s')" "dd_task d = ''t''"
    by (auto simp: example_policies assign_selected_tx_def record_outcome_tx_def insert_decision_tx_def Let_def)
  from dispatch_next_in_order [OF tx(1)] tx show ?thesis by (auto simp: in_order_def)
qed

text \<open>
  C40. The dispatcher does not refuse an agent the opposite role of a task: where a claim is a
  conflict, because the agent executes the task and its criteria are native, a dispatch gives it
  the role of reviewer as well.
\<close>

definition example_own_work_store :: db where
  "example_own_work_store = example_dispatch_store\<lparr>
     tasks := [(example_task ''t'' ''in_progress'')\<lparr>t_mode := ''dispatch'', t_criteria := example_contract\<rparr>],
     agents := [example_agent ''e''],
     capacities := [example_capacity ''e'' 2],
     assignments := [example_assignment ''ae'' ''t'' ''executor'' ''e'' ''active'' (seconds 100)]\<rparr>"


end
