(* ===== verification/Rework.thy ===== *)
theory Rework
  imports Claims
begin

text \<open>
  Rework of completed tasks (\<open>morrows-store/src/task_rework.rs\<close>): a follow-up task linked to the
  one it redoes, and reopening a task whose completion nobody used yet.
\<close>

subsection \<open>Relationships\<close>

definition task_relationships :: "id \<Rightarrow> db \<Rightarrow> relationship_row list res" where
  "task_relationships task s =
     bind_res (get_task task s) (\<lambda>_.
       Inr (sort_key (\<lambda>l. (rl_created_at l, rl_source l, rl_target l, rl_type l))
         (filter (\<lambda>l. rl_source l = task \<or> rl_target l = task) (relationships s))))"

definition task_relationships_page :: "id \<Rightarrow> int \<Rightarrow> int \<Rightarrow> db \<Rightarrow> relationship_row page res" where
  "task_relationships_page task limit offset s =
     bind_res (validate_page limit offset) (\<lambda>_.
     bind_res (get_task task s) (\<lambda>_.
       fetch_page (rev (sort_key (\<lambda>l. (rl_created_at l, rl_source l, rl_target l, rl_type l))
         (filter (\<lambda>l. rl_source l = task \<or> rl_target l = task) (relationships s)))) limit offset))"

definition insert_relationship :: "relationship_row \<Rightarrow> db \<Rightarrow> sql_error + db" where
  "insert_relationship l s =
     (if list_ex (\<lambda>k. rl_source k = rl_source l \<and> rl_target k = rl_target l \<and> rl_type k = rl_type l) (relationships s)
      then Inl PrimaryKeyViolation
      else if rl_source l = rl_target l then Inl CheckViolation
      else if find_task (rl_source l) s = None \<or> find_task (rl_target l) s = None then Inl ForeignKeyViolation
      else Inr (s\<lparr>relationships := relationships s @ [l]\<rparr>))"

text \<open>\<open>Value::as_str\<close> and \<open>Value::as_i64\<close>.\<close>

definition as_str :: "json \<Rightarrow> string option" where
  "as_str v = (case v of JStr t \<Rightarrow> Some t | _ \<Rightarrow> None)"

definition as_i64 :: "json \<Rightarrow> int option" where
  "as_i64 v = (case v of JInt n \<Rightarrow> if - (2 ^ 63) \<le> n \<and> n < 2 ^ 63 then Some n else None | _ \<Rightarrow> None)"

definition rework_link :: "relationship_row \<Rightarrow> bool" where
  "rework_link l \<longleftrightarrow> rl_type l = ''rework_of''"

definition root_text :: "relationship_row \<Rightarrow> string option" where
  "root_text l = Option.bind (json_get (rl_metadata l) ''root_task_id'') as_str"

definition round_of :: "relationship_row \<Rightarrow> int" where
  "round_of l = (case Option.bind (json_get (rl_metadata l) ''rework_round'') as_i64 of None \<Rightarrow> 0 | Some n \<Rightarrow> n)"

text \<open>The task at the end of the chain of reworks, and the number of the next round.\<close>

definition root_task :: "external \<Rightarrow> id \<Rightarrow> db \<Rightarrow> id res" where
  "root_task x source s =
     (case last_max rl_created_at (filter (\<lambda>l. rl_source l = source \<and> rework_link l) (relationships s)) of
        None \<Rightarrow> Inr source
      | Some l \<Rightarrow>
          (case root_text l of
             None \<Rightarrow> Inr (rl_target l)
           | Some r \<Rightarrow> ok_or (Storage ''invalid uuid'') (x_parse_id x r)))"

definition next_round :: "id \<Rightarrow> db \<Rightarrow> int" where
  "next_round root s =
     fold (\<lambda>l n. if root_text l = Some root then max n (round_of l) else n) (filter rework_link (relationships s)) 0 + 1"

subsection \<open>A rework task\<close>

definition actor_parts :: "string \<Rightarrow> string \<times> string" where
  "actor_parts actor =
     (if starts_with ''agent:'' actor then (''agent_instance'', drop 6 actor)
      else if starts_with ''human:'' actor then (''human'', drop 6 actor)
      else (''operator'', actor))"

text \<open>A text that is given and not blank, trimmed, or another one.\<close>

definition text_or :: "string option \<Rightarrow> string \<Rightarrow> string" where
  "text_or v other = (case v of None \<Rightarrow> other | Some t \<Rightarrow> if trim t = [] then other else trim t)"

record rework_request =
  rw_source :: id
  rw_owner :: string
  rw_actor :: string
  rw_title :: "string option"
  rw_description :: "string option"
  rw_reason :: string

definition rework_row :: "rework_request \<Rightarrow> task \<Rightarrow> id \<Rightarrow> time \<Rightarrow> task_row" where
  "rework_row q source fresh now =
     \<lparr>t_id = fresh, t_project = t_project (k_row source),
      t_title = text_or (rw_title q) (''Rework: '' @ t_title (k_row source)),
      t_description = text_or (rw_description q)
        (''Rework reason: '' @ trim (rw_reason q) @ [CHR 0x0A, CHR 0x0A] @ ''Source task: '' @ rw_source q),
      t_owner = rw_owner q, t_state = ''ready'', t_mode = assignment_mode_display (k_mode source),
      t_priority = t_priority (k_row source), t_context = None, t_criteria = t_criteria (k_row source),
      t_acceptance_version = 1, t_spec_version = 1, t_created_at = now, t_updated_at = now\<rparr>"

definition insert_task :: "task_row \<Rightarrow> db \<Rightarrow> sql_error + db" where
  "insert_task t s =
     (if find_task (t_id t) s \<noteq> None then Inl PrimaryKeyViolation
      else if \<not> (case t_project t of None \<Rightarrow> True | Some p \<Rightarrow> project_exists p s) then Inl ForeignKeyViolation
      else Inr (s\<lparr>tasks := tasks s @ [t]\<rparr>))"

text \<open>A dispatch task hands its policies on; the first component counts them.\<close>

definition inherit_policies_tx :: "task \<Rightarrow> id \<Rightarrow> time \<Rightarrow> (db, nat) tx" where
  "inherit_policies_tx source fresh now s =
     (if k_mode source = Dispatch
      then let own = filter (\<lambda>p. dp_task p = t_id (k_row source)) (policies s) in
        bind_res (ensure (list_ex dp_enabled own)
          (Conflict ''source task is dispatch-managed but has no enabled dispatch policy to inherit'')) (\<lambda>_.
        Inr (length own, s\<lparr>policies := policies s
          @ map (\<lambda>p. p\<lparr>dp_task := fresh, dp_created_at := now, dp_updated_at := now\<rparr>) own\<rparr>))
      else Inr (0, s))"

definition rework_metadata :: "string \<Rightarrow> id \<Rightarrow> int \<Rightarrow> nat \<Rightarrow> json" where
  "rework_metadata reason root n inherited =
     JObj [(''inherited_dispatch_policy_count'', JInt (int inherited)), (''reason'', JStr reason),
       (''rework_round'', JInt n), (''root_task_id'', JStr root)]"

definition create_rework_tx :: "external \<Rightarrow> rework_request \<Rightarrow> id \<Rightarrow> id \<Rightarrow> time \<Rightarrow> (db, unit) tx" where
  "create_rework_tx x q fresh fresh_rev now s =
     bind_res (get_task (rw_source q) s) (\<lambda>source.
     bind_res (ensure (k_state source = Done)
       (Conflict (''rework can only be created from a completed task; task is '' @ task_state_display (k_state source)))) (\<lambda>_.
     bind_res (root_task x (rw_source q) s) (\<lambda>root.
     let n = next_round root s; t = rework_row q source fresh now; reason = trim (rw_reason q) in
     bind_res (exec (insert_task t s)) (\<lambda>s1.
     bind_res (baseline_tx fresh fresh_rev now s1) (\<lambda>s2.
     bind_res (inherit_policies_tx source fresh now s2) (\<lambda>(inherited, s3).
     bind_res (exec (insert_relationship
       \<lparr>rl_source = fresh, rl_target = rw_source q, rl_type = ''rework_of'', rl_created_by = rw_actor q,
        rl_metadata = rework_metadata reason root n inherited, rl_created_at = now\<rparr> s3)) (\<lambda>s4.
     let (actor_type, actor) = actor_parts (rw_actor q);
         s5 = append_event_tx actor_type actor ''task'' fresh ''task.created''
           [(''state'', PStr ''ready''), (''assignment_mode'', PStr (t_mode t)), (''title'', PStr (t_title t)),
            (''project_id'', p_opt (t_project t)), (''rework_of'', PStr (rw_source q)), (''rework_round'', PInt n)] None now s4 in
     Inr ((), append_event_tx actor_type actor ''task'' (rw_source q) ''task.rework_created''
       [(''rework_task_id'', PStr fresh), (''reason'', PStr reason), (''root_task_id'', PStr root),
        (''rework_round'', PInt n)] None now s5))))))))"

definition read_rework :: "id \<Rightarrow> id \<Rightarrow> db \<Rightarrow> (task \<times> relationship_row) res" where
  "read_rework fresh source s =
     bind_res (get_task fresh s) (\<lambda>t.
     bind_res (task_relationships fresh s) (\<lambda>ls.
     bind_res (ok_or (Storage ''created rework relationship missing'')
       (find (\<lambda>l. rl_source l = fresh \<and> rl_target l = source \<and> rl_type l = ''rework_of'') ls)) (\<lambda>l.
     Inr (t, l))))"

definition create_rework_task ::
  "external \<Rightarrow> rework_request \<Rightarrow> id \<Rightarrow> id \<Rightarrow> time \<Rightarrow> (db, task \<times> relationship_row) operation" where
  "create_rework_task x q fresh fresh_rev now =
     checked (\<lambda>_. ensure (trim (rw_reason q) \<noteq> []) (InvalidInput ''rework reason cannot be empty''))
       (\<lambda>_. commit_then (create_rework_tx x q fresh fresh_rev now) (\<lambda>_. read_rework fresh (rw_source q)))"

subsection \<open>Reopening\<close>

definition has_rework :: "id \<Rightarrow> db \<Rightarrow> bool" where
  "has_rework task s \<longleftrightarrow> list_ex (\<lambda>l. rl_target l = task \<and> rework_link l) (relationships s)"

definition consumed_by_dependent :: "id \<Rightarrow> db \<Rightarrow> bool" where
  "consumed_by_dependent task s \<longleftrightarrow>
     list_ex (\<lambda>d. d_on d = task
       \<and> list_ex (\<lambda>t. t_id t = d_task d \<and> t_state t \<in> {''in_progress'', ''review'', ''blocked'', ''done''}) (tasks s))
       (dependencies s)"

definition reopen_task_tx :: "id \<Rightarrow> string \<Rightarrow> time \<Rightarrow> (db, unit) tx" where
  "reopen_task_tx task reason now s =
     bind_res (get_task task s) (\<lambda>k.
     bind_res (ensure (k_state k = Done)
       (Conflict (''only completed tasks can be reopened; task is '' @ task_state_display (k_state k)))) (\<lambda>_.
     bind_res (ensure (\<not> has_rework task s)
       (Conflict ''task already has rework history; create another rework task instead of reopening it'')) (\<lambda>_.
     bind_res (ensure (\<not> consumed_by_dependent task s)
       (Conflict ''task completion has already been consumed by a dependent task; create a rework task instead'')) (\<lambda>_.
     Inr ((), append_event_tx ''operator'' ''control-plane'' ''task'' task ''task.reopened''
       [(''previous_state'', PStr ''done''), (''state'', PStr ''ready''), (''reason'', PStr reason)] None now
       (update_tasks (\<lambda>t. t_id t = task) (\<lambda>t. t\<lparr>t_state := ''ready'', t_updated_at := now\<rparr>) s))))))"

definition reopen_task :: "id \<Rightarrow> string \<Rightarrow> time \<Rightarrow> (db, task) operation" where
  "reopen_task task reason now =
     checked (\<lambda>_. ensure (trim reason \<noteq> []) (InvalidInput ''reopen reason cannot be empty''))
       (\<lambda>_. commit_then (reopen_task_tx task (trim reason) now) (\<lambda>_. get_task task))"

subsection \<open>What the operations keep\<close>

lemma insert_relationship_Inr:
  "insert_relationship l s = Inr s' \<Longrightarrow>
     s' = s\<lparr>relationships := relationships s @ [l]\<rparr> \<and> rl_source l \<noteq> rl_target l"
  by (auto simp: insert_relationship_def split: if_splits)

lemma insert_task_Inr:
  "insert_task t s = Inr s' \<longleftrightarrow> s' = s\<lparr>tasks := tasks s @ [t]\<rparr> \<and> find_task (t_id t) s = None
     \<and> (case t_project t of None \<Rightarrow> True | Some p \<Rightarrow> project_exists p s)"
  by (auto simp: insert_task_def)

lemma create_rework_txE:
  assumes "create_rework_tx x q fresh fresh_rev now s = Inr (u, s')"
  obtains source root inherited l s1 s2 s3 s4 where
    "get_task (rw_source q) s = Inr source" "k_state source = Done" "root_task x (rw_source q) s = Inr root"
    "insert_task (rework_row q source fresh now) s = Inr s1" "baseline_tx fresh fresh_rev now s1 = Inr s2"
    "inherit_policies_tx source fresh now s2 = Inr (inherited, s3)"
    "l = \<lparr>rl_source = fresh, rl_target = rw_source q, rl_type = ''rework_of'', rl_created_by = rw_actor q,
        rl_metadata = rework_metadata (trim (rw_reason q)) root (next_round root s) inherited, rl_created_at = now\<rparr>"
    "insert_relationship l s3 = Inr s4" "keeps s4 s'"
    "tasks s' = tasks s4" "relationships s' = relationships s4" "assignments s' = assignments s4" "runs s' = runs s4"
proof -
  from assms show thesis
    unfolding create_rework_tx_def Let_def
    by (simp only: res_simps split_paired_Ex prod.case prod.inject sum.inject, elim exE conjE)
      (rule that, assumption+, rule refl, assumption, auto simp: append_event_tx_def split: prod.splits)
qed

lemma keeps_create_rework_tx:
  assumes "create_rework_tx x q fresh fresh_rev now s = Inr (u, s')"
  shows "keeps s s'"
proof -
  from assms obtain source inherited l s1 s2 s3 s4 where t: "insert_task (rework_row q source fresh now) s = Inr s1"
    and b: "baseline_tx fresh fresh_rev now s1 = Inr s2" and p: "inherit_policies_tx source fresh now s2 = Inr (inherited, s3)"
    and l: "insert_relationship l s3 = Inr s4" and e: "keeps s4 s'"
    by (rule create_rework_txE)
  have "keeps s s1" using t keeps_append_task by (auto simp: insert_task_Inr)
  moreover have "keeps s1 s2" using b by (rule keeps_baseline)
  moreover have "keeps s2 s3" using p by (auto simp: inherit_policies_tx_def Let_def res_simps split: if_splits)
  moreover have "keeps s3 s4" using insert_relationship_Inr [OF l] by simp
  ultimately show ?thesis using e by (blast intro: keeps_trans)
qed

lemma keeps_reopen_task_tx: "reopen_task_tx task reason now s = Inr (u, s') \<Longrightarrow> keeps s s'"
  by (auto simp: reopen_task_tx_def res_simps intro!: keeps_update_tasks)

text \<open>The rounds of a root, in the order of their creation, are 1, 2, 3 and so on.\<close>

definition rounds_of :: "id \<Rightarrow> relationship_row list \<Rightarrow> int list" where
  "rounds_of root ls = map round_of (filter (\<lambda>l. rework_link l \<and> root_text l = Some root) ls)"

definition rework_ok :: "db \<Rightarrow> bool" where
  "rework_ok s \<longleftrightarrow>
     (\<forall>l \<in> set (relationships s). rl_source l \<in> t_id ` set (tasks s))
     \<and> (\<forall>root. rounds_of root (relationships s) = map int [1..<Suc (length (rounds_of root (relationships s)))])"

lemma next_round_numbered:
  assumes "rounds_of root (relationships s) = map int [1..<Suc (length (rounds_of root (relationships s)))]"
  shows "next_round root s = int (length (rounds_of root (relationships s))) + 1"
proof -
  have upto: "fold max (map int [1..<Suc k]) 0 = int k" for k
    by (induction k) simp_all
  have "fold (\<lambda>l n. if root_text l = Some root then max n (round_of l) else n) (filter rework_link ls) n
      = fold max (rounds_of root ls) n" for ls n
    by (induction ls arbitrary: n) (simp_all add: rounds_of_def max.commute)
  then show ?thesis using assms upto [of "length (rounds_of root (relationships s))"] by (simp add: next_round_def)
qed

lemma rework_metadata_reads:
  assumes "l = \<lparr>rl_source = i, rl_target = j, rl_type = ''rework_of'', rl_created_by = by,
      rl_metadata = rework_metadata reason root n m, rl_created_at = now\<rparr>" "0 \<le> n" "n < 2 ^ 63"
  shows "rework_link l" "root_text l = Some root" "round_of l = n"
  using assms by (simp_all add: rework_link_def root_text_def round_of_def json_get_def rework_metadata_def as_str_def as_i64_def)

text \<open>
  C27. A rework adds one ready task, with the project, the mode, the priority and the criteria of the
  completed task it redoes, and one link to it. The rounds of a root stay numbered from 1 without
  gaps; a rework of a rework counts for the same root; and the task that is redone cannot be
  reopened any more.
\<close>

theorem rework_rounds_numbered:
  assumes "rework_ok s" "length (relationships s) < 2 ^ 62"
    and "create_rework_tx x q fresh fresh_rev now s = Inr (u, s')"
  shows "rework_ok s'
    \<and> (\<exists>source root l. get_task (rw_source q) s = Inr source \<and> k_state source = Done
        \<and> tasks s' = tasks s @ [rework_row q source fresh now]
        \<and> relationships s' = relationships s @ [l]
        \<and> rl_source l = fresh \<and> rl_target l = rw_source q
        \<and> root_task x (rw_source q) s = Inr root \<and> round_of l = next_round root s
        \<and> (x_parse_id x root = Some root \<longrightarrow> root_task x fresh s' = Inr root))
    \<and> isl (fst (reopen_task (rw_source q) reason later s'))"
proof -
  from assms(3) obtain source root inherited l s1 s2 s3 s4 where
    source: "get_task (rw_source q) s = Inr source" "k_state source = Done" and root: "root_task x (rw_source q) s = Inr root"
    and t: "insert_task (rework_row q source fresh now) s = Inr s1" and b: "baseline_tx fresh fresh_rev now s1 = Inr s2"
    and p: "inherit_policies_tx source fresh now s2 = Inr (inherited, s3)"
    and l: "l = \<lparr>rl_source = fresh, rl_target = rw_source q, rl_type = ''rework_of'', rl_created_by = rw_actor q,
        rl_metadata = rework_metadata (trim (rw_reason q)) root (next_round root s) inherited, rl_created_at = now\<rparr>"
    and ins: "insert_relationship l s3 = Inr s4" and tables: "tasks s' = tasks s4" "relationships s' = relationships s4"
    by (rule create_rework_txE)
  have "tasks s2 = tasks s1 \<and> relationships s2 = relationships s1"
    using b by (auto simp: baseline_tx_def res_simps insert_revision_def split: if_splits)
  moreover have "tasks s3 = tasks s2 \<and> relationships s3 = relationships s2"
    using p by (auto simp: inherit_policies_tx_def Let_def res_simps split: if_splits)
  ultimately have rows: "tasks s' = tasks s @ [rework_row q source fresh now]" "relationships s' = relationships s @ [l]"
    using t insert_relationship_Inr [OF ins] by (simp_all add: tables insert_task_Inr)
  have count: "length (rounds_of root (relationships s)) \<le> length (relationships s)"
    by (simp add: rounds_of_def)
  have numbered: "next_round root s = int (length (rounds_of root (relationships s))) + 1"
    using assms(1) unfolding rework_ok_def by (blast intro: next_round_numbered)
  have "int (length (relationships s)) < int (2 ^ 62)" using assms(2) by (simp only: of_nat_less_iff)
  with count numbered have "0 \<le> next_round root s" "next_round root s < 2 ^ 63" by simp_all
  note link = rework_metadata_reads [OF l this]
  have "rounds_of r (relationships s') = map int [1..<Suc (length (rounds_of r (relationships s')))]" for r
  proof (cases "r = root")
    case True
    then have "rounds_of r (relationships s') = rounds_of r (relationships s) @ [next_round root s]"
      using link by (simp add: rounds_of_def rows)
    moreover from assms(1) obtain k where "rounds_of root (relationships s) = map int [1..<Suc k]"
      unfolding rework_ok_def by blast
    ultimately show ?thesis using True numbered by simp
  next
    case False
    then have "rounds_of r (relationships s') = rounds_of r (relationships s)"
      using link by (simp add: rounds_of_def rows)
    with assms(1) show ?thesis unfolding rework_ok_def by metis
  qed
  moreover have "rl_source k \<in> t_id ` set (tasks s')" if "k \<in> set (relationships s')" for k
    using that assms(1) by (auto simp: rework_ok_def rows l rework_row_def)
  ultimately have ok: "rework_ok s'" unfolding rework_ok_def by blast
  have "fresh \<notin> t_id ` set (tasks s)"
    using t find_task_in [of fresh s] by (simp add: insert_task_Inr rework_row_def)
  then have "\<not> rl_source k = fresh" if "k \<in> set (relationships s)" for k
    using that assms(1) unfolding rework_ok_def by metis
  then have "filter (\<lambda>l. rl_source l = fresh \<and> rework_link l) (relationships s') = [l]"
    using link by (simp add: rows l filter_empty_conv)
  then have "root_task x fresh s' = Inr root" if "x_parse_id x root = Some root"
    using that link by (simp add: root_task_def)
  moreover have "has_rework (rw_source q) s'" using link by (simp add: has_rework_def rows l)
  then have "isl (fst (reopen_task (rw_source q) reason later s'))"
    by (auto simp: reopen_task_def reopen_task_tx_def checked_def commit_then_def bind_res_def ensure_def split: sum.splits)
  moreover have "rl_source l = fresh" "rl_target l = rw_source q" by (simp_all add: l)
  ultimately show ?thesis using ok rows source root link(3) by blast
qed

text \<open>A completed task, and a request to redo it.\<close>

definition example_done_store :: db where
  "example_done_store = empty_db\<lparr>tasks := [example_task ''t'' ''done'']\<rparr>"

definition example_rework :: rework_request where
  "example_rework = \<lparr>rw_source = ''t'', rw_owner = ''human:owner'', rw_actor = ''human:owner'', rw_title = None,
     rw_description = None, rw_reason = ''again''\<rparr>"

theorem rework_rounds_numbered_witness:
  "\<exists>s'. create_rework_tx example_external example_rework ''u'' ''w'' 5 example_done_store = Inr ((), s')
     \<and> rework_ok s' \<and> isl (fst (reopen_task ''t'' ''no'' 6 s'))"
proof -
  have "\<not> isl (create_rework_tx example_external example_rework ''u'' ''w'' 5 example_done_store)" by code_simp
  from right_result [OF this] obtain s' where
    tx: "create_rework_tx example_external example_rework ''u'' ''w'' 5 example_done_store = Inr ((), s')" by auto
  have "rework_ok example_done_store" "length (relationships example_done_store) < 2 ^ 62"
    by (simp_all add: rework_ok_def rounds_of_def example_done_store_def example_defs)
  from rework_rounds_numbered [OF this tx] tx show ?thesis by (auto simp: example_rework_def)
qed

text \<open>
  Reopening a completed task makes it ready again, and nothing else changes: no rework of it
  exists and no task that depends on it has begun, so nothing was built on the completion. The
  invariant of the rounds is kept.
\<close>

theorem reopen_only_unused:
  assumes "reopen_task task reason now s = (Inr k, s')"
  shows "k_state k = Ready \<and> t_id (k_row k) = task
    \<and> \<not> has_rework task s
    \<and> (\<forall>d \<in> set (dependencies s). d_on d = task \<longrightarrow>
        (\<forall>t \<in> set (tasks s). t_id t = d_task d \<longrightarrow> t_state t \<in> {''backlog'', ''ready'', ''cancelled''} \<or> \<not> readable_task t))
    \<and> tasks s' = update_where (\<lambda>t. t_id t = task) (\<lambda>t. t\<lparr>t_state := ''ready'', t_updated_at := now\<rparr>) (tasks s)
    \<and> assignments s' = assignments s \<and> runs s' = runs s \<and> relationships s' = relationships s"
proof -
  from assms have tx: "reopen_task_tx task (trim reason) now s = Inr ((), s')" and k: "get_task task s' = Inr k"
    by (auto simp: reopen_task_def checked_Inr_iff commit_then_Inr)
  from tx have free: "\<not> has_rework task s" "\<not> consumed_by_dependent task s"
    and tables: "tasks s' = update_where (\<lambda>t. t_id t = task) (\<lambda>t. t\<lparr>t_state := ''ready'', t_updated_at := now\<rparr>) (tasks s)"
      "assignments s' = assignments s" "runs s' = runs s" "relationships s' = relationships s"
    by (auto simp: reopen_task_tx_def res_simps append_event_tx_def update_tasks_def)
  from k obtain t where "find_task task s' = Some t" "row_to_task t = Inr k" by (auto simp: get_task_def res_simps)
  then have t: "t \<in> set (tasks s')" "t_id t = task" "k_row k = t" "t_state t = task_state_display (k_state k)"
    by (auto simp: row_to_task_Inr dest: find_task_SomeD)
  from t(1) obtain u where "t = (if t_id u = task then u\<lparr>t_state := ''ready'', t_updated_at := now\<rparr> else u)"
    unfolding tables set_update_where by blast
  with t(2) have "t_state t = ''ready''" by (simp split: if_splits)
  with t(4) have "k_state k = Ready" by (cases "k_state k") simp_all
  moreover have "t_id (k_row k) = task" using t(2,3) by simp
  moreover have "t_state t \<in> {''backlog'', ''ready'', ''cancelled''} \<or> \<not> readable_task t"
    if "d \<in> set (dependencies s)" "d_on d = task" "t \<in> set (tasks s)" "t_id t = d_task d" for d t
    using free(2) that by (auto simp: consumed_by_dependent_def list_ex_iff readable_task_def)
  ultimately show ?thesis using free(1) tables by blast
qed

theorem reopen_only_unused_witness:
  "\<exists>k s'. reopen_task ''t'' ''no'' 6 example_done_store = (Inr k, s') \<and> k_state k = Ready"
proof -
  have "\<not> isl (fst (reopen_task ''t'' ''no'' 6 example_done_store))" by code_simp
  from right_operation [OF this] obtain k s' where op: "reopen_task ''t'' ''no'' 6 example_done_store = (Inr k, s')" by blast
  from reopen_only_unused [OF op] op show ?thesis by blast
qed

end
