(* ===== verification/Records.thy ===== *)
theory Records
  imports Claims
begin

text \<open>
  What an agent leaves on record of a task: artifacts and decisions
  (\<open>morrows-store/src/collaboration.rs\<close>) and the numbered milestones of its run, each of them the
  run's checkpoint (\<open>morrows-store/src/milestone.rs\<close>).
\<close>

definition required :: "string \<Rightarrow> string \<Rightarrow> unit res" where
  "required v field = ensure (\<not> blank v) (InvalidInput (field @ '' cannot be empty''))"

lemma required_iff [res_simps]: "required v field = Inr u \<longleftrightarrow> \<not> blank v"
  by (simp add: required_def res_simps)

fun required_items :: "string list \<Rightarrow> string \<Rightarrow> unit res" where
  "required_items [] field = Inr ()"
| "required_items (v # vs) field = bind_res (required v field) (\<lambda>_. required_items vs field)"

subsection \<open>Artifacts and decisions\<close>

record create_artifact_input =
  ca_title :: string
  ca_uri :: string
  ca_kind :: string
  ca_description :: string

definition insert_artifact :: "artifact_row \<Rightarrow> db \<Rightarrow> sql_error + db" where
  "insert_artifact f s =
     (if list_ex (\<lambda>g. af_id g = af_id f) (artifacts s) then Inl PrimaryKeyViolation
      else if find_task (af_task f) s = None \<or> find_agent (af_created_by f) s = None then Inl ForeignKeyViolation
      else Inr (s\<lparr>artifacts := artifacts s @ [f]\<rparr>))"

definition create_artifact :: "id \<Rightarrow> id \<Rightarrow> create_artifact_input \<Rightarrow> id \<Rightarrow> time \<Rightarrow> (db, artifact_row) operation" where
  "create_artifact task actor i fresh now =
     checked (\<lambda>s. bind_res (get_task task s) (\<lambda>_. bind_res (get_agent actor s) (\<lambda>_.
         bind_res (required (ca_title i) ''title'') (\<lambda>_. bind_res (required (ca_uri i) ''uri'') (\<lambda>_.
         required (ca_kind i) ''kind'')))))
       (\<lambda>_. commit (\<lambda>s.
          let f = \<lparr>af_id = fresh, af_task = task, af_kind = ca_kind i, af_uri = ca_uri i, af_title = ca_title i,
                af_description = ca_description i, af_created_by = actor, af_created_at = now\<rparr> in
          bind_res (exec (insert_artifact f s)) (\<lambda>s1.
          Inr (f, append_event_tx ''agent_instance'' actor ''task'' task ''artifact.created''
            [(''artifact_id'', PStr fresh)] None now s1))))"

definition task_artifacts :: "id \<Rightarrow> db \<Rightarrow> artifact_row list res" where
  "task_artifacts task s =
     bind_res (get_task task s) (\<lambda>_.
       Inr (sort_key (\<lambda>f. (af_created_at f, af_id f)) (filter (\<lambda>f. af_task f = task) (artifacts s))))"

definition insert_decision :: "decision_row \<Rightarrow> db \<Rightarrow> sql_error + db" where
  "insert_decision d s =
     (if list_ex (\<lambda>e. dn_id e = dn_id d) (decisions s) then Inl PrimaryKeyViolation
      else if find_task (dn_task d) s = None \<or> find_agent (dn_created_by d) s = None then Inl ForeignKeyViolation
      else Inr (s\<lparr>decisions := decisions s @ [d]\<rparr>))"

definition create_decision :: "id \<Rightarrow> id \<Rightarrow> string \<Rightarrow> string \<Rightarrow> id \<Rightarrow> time \<Rightarrow> (db, decision_row) operation" where
  "create_decision task actor title rationale fresh now =
     checked (\<lambda>s. bind_res (get_task task s) (\<lambda>_. bind_res (get_agent actor s) (\<lambda>_.
         bind_res (required title ''title'') (\<lambda>_. required rationale ''rationale''))))
       (\<lambda>_. commit (\<lambda>s.
          let d = \<lparr>dn_id = fresh, dn_task = task, dn_title = title, dn_rationale = rationale, dn_created_by = actor,
                dn_created_at = now\<rparr> in
          bind_res (exec (insert_decision d s)) (\<lambda>s1.
          Inr (d, append_event_tx ''agent_instance'' actor ''task'' task ''decision.created''
            [(''decision_id'', PStr fresh)] None now s1))))"

definition task_decisions :: "id \<Rightarrow> db \<Rightarrow> decision_row list res" where
  "task_decisions task s =
     bind_res (get_task task s) (\<lambda>_.
       Inr (sort_key (\<lambda>d. (dn_created_at d, dn_id d)) (filter (\<lambda>d. dn_task d = task) (decisions s))))"

subsection \<open>References\<close>

definition ref_in_task :: "string \<Rightarrow> id \<Rightarrow> id \<Rightarrow> db \<Rightarrow> bool" where
  "ref_in_task table i task s \<longleftrightarrow>
     (if table = ''artifacts'' then list_ex (\<lambda>f. af_id f = i \<and> af_task f = task) (artifacts s)
      else list_ex (\<lambda>d. dn_id d = i \<and> dn_task d = task) (decisions s))"

definition ref_exists :: "string \<Rightarrow> id \<Rightarrow> db \<Rightarrow> bool" where
  "ref_exists table i s \<longleftrightarrow>
     (if table = ''artifacts'' then list_ex (\<lambda>f. af_id f = i) (artifacts s) else list_ex (\<lambda>d. dn_id d = i) (decisions s))"

text \<open>
  The loop over the references of one table: each is a UUID, none is repeated, each belongs to the
  task, and \<open>captured\<close> may ask for more.
\<close>

fun check_refs ::
  "external \<Rightarrow> string \<Rightarrow> (string \<Rightarrow> unit res) \<Rightarrow> string \<Rightarrow> id \<Rightarrow> db \<Rightarrow> id list \<Rightarrow> string list \<Rightarrow> unit res" where
  "check_refs x what captured table task s seen [] = Inr ()"
| "check_refs x what captured table task s seen (raw # raws) =
     bind_res (ok_or (InvalidInput ''invalid reference UUID'') (x_parse_id x raw)) (\<lambda>i.
     bind_res (ensure (i \<notin> set seen) (InvalidInput (''duplicate '' @ what @ '' reference''))) (\<lambda>_.
     bind_res (ensure (ref_in_task table i task s) (InvalidInput (table @ '' reference is not in this task''))) (\<lambda>_.
     bind_res (captured raw) (\<lambda>_.
     check_refs x what captured table task s (i # seen) raws))))"

subsection \<open>Milestones\<close>

definition check_milestone :: "milestone_input \<Rightarrow> unit res" where
  "check_milestone i =
     bind_res (required (mi_summary i) ''summary'') (\<lambda>_.
     bind_res (required (mi_next_step i) ''next_step'') (\<lambda>_.
     bind_res (ensure (mi_next_plan i \<noteq> []) (InvalidInput ''next_plan must contain at least one ordered recovery step'')) (\<lambda>_.
     bind_res (ensure (mi_kind i \<in> {''milestone'', ''budget_pressure'', ''handoff_preparation'', ''manual''})
       (InvalidInput ''milestone kind must be milestone, budget_pressure, handoff_preparation, or manual'')) (\<lambda>_.
     required_items (mi_completed i @ mi_verified i @ mi_remaining i @ mi_blockers i @ mi_next_plan i @ mi_locations i)
       ''milestone item''))))"

definition next_sequence :: "id \<Rightarrow> db \<Rightarrow> int" where
  "next_sequence run s = fold max (map ml_sequence (filter (\<lambda>m. ml_run m = run) (milestones s))) 0 + 1"

definition insert_milestone :: "milestone_row \<Rightarrow> db \<Rightarrow> sql_error + db" where
  "insert_milestone m s =
     (if list_ex (\<lambda>n. ml_id n = ml_id m) (milestones s) then Inl PrimaryKeyViolation
      else if list_ex (\<lambda>n. ml_run n = ml_run m \<and> ml_sequence n = ml_sequence m) (milestones s) then Inl UniqueViolation
      else if ml_sequence m \<le> 0 then Inl CheckViolation
      else if find_run (ml_run m) s = None \<or> find_task (ml_task m) s = None \<or> find_agent (ml_created_by m) s = None
        \<or> (case ml_context m of None \<Rightarrow> False | Some c \<Rightarrow> \<not> list_ex (\<lambda>v. cx_id v = c) (contexts s))
      then Inl ForeignKeyViolation
      else Inr (s\<lparr>milestones := milestones s @ [m]\<rparr>))"

fun insert_milestone_refs :: "id \<Rightarrow> string \<Rightarrow> string list \<Rightarrow> db \<Rightarrow> db res" where
  "insert_milestone_refs m table [] s = Inr s"
| "insert_milestone_refs m table (raw # raws) s =
     (if (m, table, raw) \<in> set (milestone_refs s) then Inl (storage PrimaryKeyViolation)
      else if \<not> ref_exists table raw s then Inl (storage ForeignKeyViolation)
      else insert_milestone_refs m table raws (s\<lparr>milestone_refs := milestone_refs s @ [(m, table, raw)]\<rparr>))"

definition strings :: "string list \<Rightarrow> json" where
  "strings vs = JArr (map JStr vs)"

definition milestone_checkpoint :: "milestone_row \<Rightarrow> json" where
  "milestone_checkpoint m =
     (let i = ml_content m in JObj
      [(''artifact_ids'', strings (mi_artifacts i)), (''blockers'', strings (mi_blockers i)),
       (''completed'', strings (mi_completed i)),
       (''context_revision_id'', case ml_context m of None \<Rightarrow> JNull | Some c \<Rightarrow> JStr c),
       (''decision_ids'', strings (mi_decisions i)), (''execution_locations'', strings (mi_locations i)),
       (''kind'', JStr (mi_kind i)), (''milestone_id'', JStr (ml_id m)), (''next_plan'', strings (mi_next_plan i)),
       (''next_step'', JStr (mi_next_step i)), (''remaining'', strings (mi_remaining i)),
       (''sequence'', JInt (ml_sequence m)), (''summary'', JStr (mi_summary i)), (''verified'', strings (mi_verified i))])"

text \<open>The row, its references, the run's checkpoint and the two events.\<close>

definition store_milestone_tx :: "milestone_row \<Rightarrow> time \<Rightarrow> (db, milestone_row) tx" where
  "store_milestone_tx m now s =
     bind_res (exec (insert_milestone m s)) (\<lambda>s1.
     bind_res (insert_milestone_refs (ml_id m) ''artifacts'' (mi_artifacts (ml_content m)) s1) (\<lambda>s2.
     bind_res (insert_milestone_refs (ml_id m) ''decisions'' (mi_decisions (ml_content m)) s2) (\<lambda>s3.
     let s4 = update_runs (\<lambda>q. r_id q = ml_run m) (\<lambda>q. q\<lparr>r_checkpoint := Some (milestone_checkpoint m)\<rparr>) s3;
         s5 = append_event_tx ''agent_instance'' (ml_created_by m) ''run'' (ml_run m) ''run.milestone_created''
           [(''task_id'', PStr (ml_task m)), (''milestone_id'', PStr (ml_id m)), (''sequence'', PInt (ml_sequence m)),
            (''context_revision_id'', p_opt (ml_context m))] None now s4 in
     Inr (m, append_event_tx ''agent_instance'' (ml_created_by m) ''run'' (ml_run m) ''run.checkpointed''
       [(''task_id'', PStr (ml_task m)), (''milestone_id'', PStr (ml_id m)), (''sequence'', PInt (ml_sequence m))]
       None now s5))))"

definition create_milestone_tx ::
  "external \<Rightarrow> id \<Rightarrow> id \<Rightarrow> milestone_input \<Rightarrow> id \<Rightarrow> time \<Rightarrow> (db, milestone_row) tx" where
  "create_milestone_tx x run actor i fresh now s =
     bind_res (ok_or (NotFound (''run '' @ run)) (find_run run s)) (\<lambda>r.
     bind_res (ensure (r_agent r = actor \<and> (r_status r = ''running'' \<or> r_status r = ''paused''))
       (Conflict ''milestone requires a live run owned by this agent'')) (\<lambda>_.
     bind_res (ok_or no_rows (find_assignment (r_assignment r) s)) (\<lambda>a.
     bind_res (ensure (a_status a = ''active'' \<and> now < a_expires_at a \<and> a_agent a = actor)
       (Conflict ''assignment is not active'')) (\<lambda>_.
     bind_res (ok_or no_rows (find_task (r_task r) s)) (\<lambda>t.
     bind_res (check_refs x ''milestone'' (\<lambda>_. Inr ()) ''artifacts'' (r_task r) s [] (mi_artifacts i)) (\<lambda>_.
     bind_res (check_refs x ''milestone'' (\<lambda>_. Inr ()) ''decisions'' (r_task r) s [] (mi_decisions i)) (\<lambda>_.
     store_milestone_tx
       \<lparr>ml_id = fresh, ml_run = run, ml_task = r_task r, ml_created_by = actor, ml_sequence = next_sequence run s,
        ml_context = t_context t, ml_content = i, ml_created_at = now\<rparr> now s)))))))"

definition create_run_milestone ::
  "external \<Rightarrow> id \<Rightarrow> id \<Rightarrow> milestone_input \<Rightarrow> id \<Rightarrow> time \<Rightarrow> (db, milestone_row) operation" where
  "create_run_milestone x run actor i fresh now =
     checked (\<lambda>_. check_milestone i) (\<lambda>_. commit (create_milestone_tx x run actor i fresh now))"

definition get_run_milestone :: "id \<Rightarrow> db \<Rightarrow> milestone_row res" where
  "get_run_milestone i s = ok_or (NotFound (''milestone '' @ i)) (find (\<lambda>m. ml_id m = i) (milestones s))"

definition run_milestones :: "id \<Rightarrow> db \<Rightarrow> milestone_row list" where
  "run_milestones run s = sort_key ml_sequence (filter (\<lambda>m. ml_run m = run) (milestones s))"

subsection \<open>What the operations keep\<close>

lemma insert_milestone_refs_rows:
  "insert_milestone_refs m table raws s = Inr s' \<Longrightarrow> s' = s\<lparr>milestone_refs := milestone_refs s'\<rparr>"
  by (induction m table raws s rule: insert_milestone_refs.induct) (auto split: if_splits)

lemma store_milestone_txE:
  assumes "store_milestone_tx m now s = Inr (n, s')"
  obtains rs es where "n = m" "\<forall>k \<in> set (milestones s). ml_id k \<noteq> ml_id m"
    "s' = (update_runs (\<lambda>q. r_id q = ml_run m) (\<lambda>q. q\<lparr>r_checkpoint := Some (milestone_checkpoint m)\<rparr>)
           (s\<lparr>milestones := milestones s @ [m], milestone_refs := rs\<rparr>))\<lparr>events := es\<rparr>"
proof -
  from assms obtain s1 s2 s3 where s1: "insert_milestone m s = Inr s1"
    and s2: "insert_milestone_refs (ml_id m) ''artifacts'' (mi_artifacts (ml_content m)) s1 = Inr s2"
    and s3: "insert_milestone_refs (ml_id m) ''decisions'' (mi_decisions (ml_content m)) s2 = Inr s3"
    and n: "n = m" and s': "s' = append_event_tx ''agent_instance'' (ml_created_by m) ''run'' (ml_run m) ''run.checkpointed''
       [(''task_id'', PStr (ml_task m)), (''milestone_id'', PStr (ml_id m)), (''sequence'', PInt (ml_sequence m))]
       None now (append_event_tx ''agent_instance'' (ml_created_by m) ''run'' (ml_run m) ''run.milestone_created''
           [(''task_id'', PStr (ml_task m)), (''milestone_id'', PStr (ml_id m)), (''sequence'', PInt (ml_sequence m)),
            (''context_revision_id'', p_opt (ml_context m))] None now
         (update_runs (\<lambda>q. r_id q = ml_run m) (\<lambda>q. q\<lparr>r_checkpoint := Some (milestone_checkpoint m)\<rparr>) s3))"
    by (auto simp: store_milestone_tx_def Let_def res_simps)
  from s1 have "s1 = s\<lparr>milestones := milestones s @ [m]\<rparr>" and fresh: "\<forall>k \<in> set (milestones s). ml_id k \<noteq> ml_id m"
    by (auto simp: insert_milestone_def list_ex_iff split: if_splits)
  moreover from insert_milestone_refs_rows [OF s2] obtain r2 where "s2 = s1\<lparr>milestone_refs := r2\<rparr>" by blast
  moreover from insert_milestone_refs_rows [OF s3] obtain r3 where "s3 = s2\<lparr>milestone_refs := r3\<rparr>" by blast
  ultimately have rs: "s3 = s\<lparr>milestones := milestones s @ [m], milestone_refs := r3\<rparr>" by simp
  show thesis
    by (rule that [OF n fresh]) (simp_all add: s' rs append_event_tx_def update_runs_def)
qed

lemma create_milestone_txE:
  assumes "create_milestone_tx x run actor i fresh now s = Inr (m, s')"
  obtains r a t where "find_run run s = Some r" "r_agent r = actor" "r_status r = ''running'' \<or> r_status r = ''paused''"
    "find_assignment (r_assignment r) s = Some a" "a_status a = ''active''" "now < a_expires_at a"
    "find_task (r_task r) s = Some t"
    "m = \<lparr>ml_id = fresh, ml_run = run, ml_task = r_task r, ml_created_by = actor, ml_sequence = next_sequence run s,
           ml_context = t_context t, ml_content = i, ml_created_at = now\<rparr>"
    "store_milestone_tx m now s = Inr (m, s')"
proof -
  from assms obtain r a t where *: "find_run run s = Some r" "r_agent r = actor \<and> (r_status r = ''running'' \<or> r_status r = ''paused'')"
    "find_assignment (r_assignment r) s = Some a" "a_status a = ''active'' \<and> now < a_expires_at a \<and> a_agent a = actor"
    "find_task (r_task r) s = Some t"
    "store_milestone_tx \<lparr>ml_id = fresh, ml_run = run, ml_task = r_task r, ml_created_by = actor, ml_sequence = next_sequence run s,
           ml_context = t_context t, ml_content = i, ml_created_at = now\<rparr> now s = Inr (m, s')"
    unfolding create_milestone_tx_def by (simp only: res_simps, elim exE conjE) (rule that, assumption+, simp_all)
  moreover from *(6) have "m = \<lparr>ml_id = fresh, ml_run = run, ml_task = r_task r, ml_created_by = actor,
      ml_sequence = next_sequence run s, ml_context = t_context t, ml_content = i, ml_created_at = now\<rparr>"
    by (rule store_milestone_txE)
  ultimately show thesis by (intro that [of r a t]) simp_all
qed

lemma keeps_store_milestone_tx:
  assumes "store_milestone_tx m now s = Inr (n, s')" "find_run (ml_run m) s = Some r" "r_status r = ''running'' \<or> r_status r = ''paused''"
  shows "keeps s s'"
  using assms(1)
proof (rule store_milestone_txE)
  fix rs es
  let ?s = "s\<lparr>milestones := milestones s @ [m], milestone_refs := rs\<rparr>" and ?f = "\<lambda>q. q\<lparr>r_checkpoint := Some (milestone_checkpoint m)\<rparr>"
  assume s': "s' = (update_runs (\<lambda>q. r_id q = ml_run m) ?f ?s)\<lparr>events := es\<rparr>"
  have "keeps s ?s" by simp
  moreover have "keeps ?s (update_runs (\<lambda>q. r_id q = ml_run m) ?f ?s)"
  proof (rule keeps_update_runs)
    fix q assume q: "store_ok ?s" "q \<in> set (runs ?s)" "r_id q = ml_run m"
    then have "q = r" using assms(2) found_run [of ?s "ml_run m" r q] by (simp add: find_run_def)
    with assms(3) show "run_moves q (?f q) \<and> (live (?f q) \<longrightarrow> live q)" by (auto simp: row_defs)
  qed
  ultimately have "keeps s (update_runs (\<lambda>q. r_id q = ml_run m) ?f ?s)" by (rule keeps_trans)
  then show "keeps s s'" by (simp add: s')
qed

lemma keeps_create_milestone_tx:
  assumes "create_milestone_tx x run actor i fresh now s = Inr (m, s')"
  shows "keeps s s'"
proof -
  from assms obtain r where "find_run run s = Some r" "r_status r = ''running'' \<or> r_status r = ''paused''"
    "ml_run m = run" "store_milestone_tx m now s = Inr (m, s')"
    by (rule create_milestone_txE) simp
  then show ?thesis using keeps_store_milestone_tx by metis
qed

lemma keeps_create_record:
  "keeps s (snd (create_artifact task actor i fresh now s))"
  "keeps s (snd (create_decision task actor title rationale fresh now s))"
  by (auto simp: create_artifact_def create_decision_def insert_artifact_def insert_decision_def Let_def res_simps
      intro!: keeps_operation split: if_splits)

definition milestones_ok :: "db \<Rightarrow> bool" where
  "milestones_ok s \<longleftrightarrow>
     distinct (map ml_id (milestones s))
     \<and> (\<forall>run. \<exists>n. map ml_sequence (filter (\<lambda>m. ml_run m = run) (milestones s)) = map int [1..<Suc n])"

lemma fold_max_upto: "fold max (map int [1..<Suc n]) 0 = int n"
  by (induction n) simp_all

lemma last_max_append: "(\<forall>y \<in> set xs. k y < k x) \<Longrightarrow> last_max k (xs @ [x]) = Some x"
  by (induction xs) (auto split: option.splits)

definition latest_milestone :: "id \<Rightarrow> db \<Rightarrow> milestone_row option" where
  "latest_milestone run s = last_max ml_sequence (filter (\<lambda>m. ml_run m = run) (milestones s))"


text \<open>A run of an executor, and a milestone of it.\<close>

definition example_working_store :: db where
  "example_working_store = empty_db\<lparr>
     tasks := [(example_task ''t'' ''in_progress'')\<lparr>t_context := Some ''c''\<rparr>],
     agents := [example_agent ''e'', example_agent ''f''],
     assignments := [example_assignment ''ae'' ''t'' ''executor'' ''e'' ''active'' 10],
     runs := [example_run ''xe'' ''t'' ''ae'' ''e'' ''running''],
     contexts := [\<lparr>cx_id = ''c'', cx_task = ''t'', cx_version = 1, cx_parent = None, cx_goal = [], cx_background = [],
       cx_constraints = JObj [], cx_summary = [], cx_created_by = ''e'', cx_created_at = 0\<rparr>]\<rparr>"

definition example_milestone :: milestone_input where
  "example_milestone = \<lparr>mi_kind = ''manual'', mi_summary = ''half'', mi_completed = [], mi_verified = [], mi_remaining = [''rest''],
     mi_blockers = [], mi_next_step = ''go'', mi_next_plan = [''go''], mi_locations = [], mi_artifacts = [], mi_decisions = []\<rparr>"


end
