(* ===== verification/Handoffs.thy ===== *)
theory Handoffs
  imports Records
begin

text \<open>
  Handoffs (\<open>morrows-store/src/collaboration.rs\<close>): an executor that stops freezes what is left to
  do against the task's context, releases its assignment and puts the task back in the queue; a run
  of the successor accepts the handoff, once.
\<close>

subsection \<open>Creating a handoff\<close>

definition check_handoff :: "handoff_input \<Rightarrow> unit res" where
  "check_handoff i =
     bind_res (required (hi_summary i) ''summary'') (\<lambda>_.
     bind_res (ensure (hi_remaining i \<noteq> []) (InvalidInput ''handoff needs remaining work'')) (\<lambda>_.
     required_items (hi_completed i @ hi_remaining i @ hi_blockers i) ''handoff item''))"

text \<open>\<open>json_extract(payload_json, '$.milestone_id')\<close> of the run's last checkpoint event.\<close>

definition milestone_of_event :: "event \<Rightarrow> id option" where
  "milestone_of_event e = (case map_of (ev_payload e) ''milestone_id'' of Some (PStr m) \<Rightarrow> Some m | _ \<Rightarrow> None)"

definition checkpoint_milestone :: "id \<Rightarrow> db \<Rightarrow> id option" where
  "checkpoint_milestone run s =
     Option.bind (last_max ev_created_at
       (filter (\<lambda>e. ev_entity_type e = ''run'' \<and> ev_entity_id e = run \<and> ev_type e = ''run.checkpointed'') (events s)))
       milestone_of_event"

definition captured_ref :: "string \<Rightarrow> string list \<Rightarrow> string \<Rightarrow> unit res" where
  "captured_ref table cited raw =
     ensure (raw \<in> set cited) (Conflict (table
       @ '' reference was created or selected after the cited milestone; create a fresh milestone before handoff''))"

text \<open>The milestone a handoff cites: the latest of its run, and fresh.\<close>

definition cited_milestone ::
  "external \<Rightarrow> run \<Rightarrow> id \<Rightarrow> id \<Rightarrow> handoff_input \<Rightarrow> db \<Rightarrow> milestone_row res" where
  "cited_milestone x r actor context i s =
     bind_res (case hi_milestone i of
         None \<Rightarrow> Inl (InvalidInput ''handoff requires milestone_id from the source Run's latest durable milestone'')
       | Some raw \<Rightarrow> ok_or (InvalidInput ''invalid milestone UUID'') (x_parse_id x raw)) (\<lambda>mid.
     bind_res (ok_or (NotFound ''milestone'') (find (\<lambda>m. ml_id m = mid) (milestones s))) (\<lambda>m.
     bind_res (ensure (\<not> (ml_run m \<noteq> r_id r \<or> ml_task m \<noteq> r_task r \<or> ml_created_by m \<noteq> actor))
       (Conflict ''handoff milestone must belong to this source Run and agent'')) (\<lambda>_.
     bind_res (ok_or no_rows (latest_milestone (r_id r) s)) (\<lambda>latest.
     bind_res (ensure (ml_id latest = mid) (Conflict ''handoff requires the source Run's latest milestone'')) (\<lambda>_.
     bind_res (ensure (checkpoint_milestone (r_id r) s = Some mid)
       (Conflict ''handoff requires a fresh milestone after the Run's latest checkpoint'')) (\<lambda>_.
     bind_res (ensure (ml_context m = Some context)
       (Conflict ''handoff milestone is stale relative to current task context; create a new milestone'')) (\<lambda>_.
     Inr m)))))))"

definition insert_handoff :: "handoff_row \<Rightarrow> db \<Rightarrow> sql_error + db" where
  "insert_handoff h s =
     (if list_ex (\<lambda>g. ho_id g = ho_id h) (handoffs s) then Inl PrimaryKeyViolation
      else if list_ex (\<lambda>g. ho_run g = ho_run h) (handoffs s) then Inl UniqueViolation
      else if find_task (ho_task h) s = None \<or> find_run (ho_run h) s = None \<or> find_agent (ho_created_by h) s = None
        \<or> \<not> list_ex (\<lambda>c. cx_id c = ho_context h) (contexts s)
        \<or> (case ho_milestone h of None \<Rightarrow> False | Some m \<Rightarrow> \<not> list_ex (\<lambda>n. ml_id n = m) (milestones s))
      then Inl ForeignKeyViolation
      else Inr (s\<lparr>handoffs := handoffs s @ [h]\<rparr>))"

fun insert_handoff_refs :: "external \<Rightarrow> id \<Rightarrow> string \<Rightarrow> string list \<Rightarrow> db \<Rightarrow> db res" where
  "insert_handoff_refs x h table [] s = Inr s"
| "insert_handoff_refs x h table (raw # raws) s =
     bind_res (ok_or (Storage ''invalid uuid'') (x_parse_id x raw)) (\<lambda>i.
     if (h, table, i) \<in> set (handoff_refs s) then Inl (storage PrimaryKeyViolation)
     else if \<not> ref_exists table i s then Inl (storage ForeignKeyViolation)
     else insert_handoff_refs x h table raws (s\<lparr>handoff_refs := handoff_refs s @ [(h, table, i)]\<rparr>))"

text \<open>Every live run of the assignment is handed off, the assignment released, the task queued.\<close>

definition release_for_handoff :: "assignment \<Rightarrow> id \<Rightarrow> time \<Rightarrow> db \<Rightarrow> db" where
  "release_for_handoff a task now s =
     (let s1 = update_runs (\<lambda>q. r_assignment q = a_id a \<and> (r_status q = ''running'' \<or> r_status q = ''paused''))
            (\<lambda>q. q\<lparr>r_status := ''handed_off'', r_stop_reason := Some ''handoff'', r_ended_at := Some now\<rparr>) s;
          s2 = update_assignments (\<lambda>b. a_id b = a_id a)
            (\<lambda>b. b\<lparr>a_status := ''released'', a_released_at := Some now, a_release_reason := Some ''handoff''\<rparr>) s1
      in if a_role a = ''executor''
         then update_tasks (\<lambda>t. t_id t = task \<and> t_state t = ''in_progress''
                \<and> \<not> list_ex (\<lambda>b. a_task b = task \<and> a_role b = ''executor'' \<and> a_status b = ''active'') (assignments s2))
              (\<lambda>t. t\<lparr>t_state := ''ready'', t_updated_at := now\<rparr>) s2
         else s2)"

definition create_handoff_tx ::
  "external \<Rightarrow> id \<Rightarrow> id \<Rightarrow> handoff_input \<Rightarrow> id \<Rightarrow> time \<Rightarrow> (db, handoff_row) tx" where
  "create_handoff_tx x run actor i fresh now s =
     bind_res (ok_or (NotFound ''run'') (find_run run s)) (\<lambda>r.
     bind_res (ensure (\<not> (r_agent r \<noteq> actor \<or> r_status r \<noteq> ''running'' \<and> r_status r \<noteq> ''paused''))
       (Conflict ''handoff requires a live run owned by this agent'')) (\<lambda>_.
     bind_res (ok_or no_rows (find_assignment (r_assignment r) s)) (\<lambda>a.
     bind_res (ensure (a_status a = ''active'' \<and> now < a_expires_at a) (Conflict ''assignment is not active'')) (\<lambda>_.
     bind_res (ok_or no_rows (find_task (r_task r) s)) (\<lambda>t.
     bind_res (ok_or (InvalidInput ''create task context before handoff'') (t_context t)) (\<lambda>context.
     bind_res (cited_milestone x r actor context i s) (\<lambda>m.
     bind_res (check_refs x ''handoff'' (captured_ref ''artifacts'' (mi_artifacts (ml_content m))) ''artifacts'' (r_task r) s []
       (hi_artifacts i)) (\<lambda>_.
     bind_res (check_refs x ''handoff'' (captured_ref ''decisions'' (mi_decisions (ml_content m))) ''decisions'' (r_task r) s []
       (hi_decisions i)) (\<lambda>_.
     let h = \<lparr>ho_id = fresh, ho_task = r_task r, ho_run = run, ho_status = ''pending'', ho_accepted_by = None,
           ho_created_by = actor, ho_context = context, ho_milestone = Some (ml_id m), ho_content = i, ho_created_at = now\<rparr> in
     bind_res (exec (insert_handoff h s)) (\<lambda>s1.
     bind_res (insert_handoff_refs x fresh ''artifacts'' (hi_artifacts i) s1) (\<lambda>s2.
     bind_res (insert_handoff_refs x fresh ''decisions'' (hi_decisions i) s2) (\<lambda>s3.
     Inr (h, append_event_tx ''agent_instance'' actor ''task'' (r_task r) ''handoff.created''
       [(''handoff_id'', PStr fresh), (''source_run_id'', PStr run), (''assignment_id'', PStr (a_id a)),
        (''context_revision_id'', PStr context), (''milestone_id'', PStr (ml_id m))] None now
       (release_for_handoff a (r_task r) now s3))))))))))))))"

definition create_handoff ::
  "external \<Rightarrow> id \<Rightarrow> id \<Rightarrow> handoff_input \<Rightarrow> id \<Rightarrow> time \<Rightarrow> (db, handoff_row) operation" where
  "create_handoff x run actor i fresh now =
     checked (\<lambda>_. check_handoff i) (\<lambda>_. commit (create_handoff_tx x run actor i fresh now))"

subsection \<open>Accepting it\<close>

definition find_handoff :: "id \<Rightarrow> db \<Rightarrow> handoff_row option" where
  "find_handoff i s = find (\<lambda>h. ho_id h = i) (handoffs s)"

definition accept_handoff_tx :: "id \<Rightarrow> id \<Rightarrow> id \<Rightarrow> time \<Rightarrow> (db, handoff_row) tx" where
  "accept_handoff_tx i run actor now s =
     bind_res (ok_or (NotFound ''handoff'') (find_handoff i s)) (\<lambda>h.
     bind_res (ensure (ho_status h = ''pending'') (Conflict ''handoff already accepted'')) (\<lambda>_.
     bind_res (ok_or (NotFound ''target run'') (find_run run s)) (\<lambda>r.
     bind_res (ensure (\<not> (r_task r \<noteq> ho_task h \<or> r_agent r \<noteq> actor
          \<or> r_status r \<noteq> ''running'' \<and> r_status r \<noteq> ''paused'' \<or> r_id r = ho_run h))
       (Conflict ''acceptance requires a live same-task target run owned by this agent'')) (\<lambda>_.
     bind_res (ok_or no_rows (find_assignment (r_assignment r) s)) (\<lambda>a.
     bind_res (ensure (\<not> (a_status a \<noteq> ''active'' \<or> a_expires_at a \<le> now \<or> a_agent a \<noteq> actor \<or> a_task a \<noteq> ho_task h))
       (Conflict ''target assignment is not active'')) (\<lambda>_.
     Inr (h\<lparr>ho_status := ''accepted'', ho_accepted_by := Some run\<rparr>,
       append_event_tx ''agent_instance'' actor ''task'' (ho_task h) ''handoff.accepted''
         [(''handoff_id'', PStr i), (''source_run_id'', PStr (ho_run h)), (''accepted_by_run_id'', PStr run)] None now
         (s\<lparr>handoffs := update_where (\<lambda>g. ho_id g = i \<and> ho_status g = ''pending'')
            (\<lambda>g. g\<lparr>ho_status := ''accepted'', ho_accepted_by := Some run\<rparr>) (handoffs s)\<rparr>))))))))"

definition accept_handoff :: "id \<Rightarrow> id \<Rightarrow> id \<Rightarrow> time \<Rightarrow> (db, handoff_row) operation" where
  "accept_handoff i run actor now = commit (accept_handoff_tx i run actor now)"

definition task_handoffs :: "id \<Rightarrow> db \<Rightarrow> handoff_row list res" where
  "task_handoffs task s =
     bind_res (get_task task s) (\<lambda>_.
       Inr (sort_key (\<lambda>h. (ho_created_at h, ho_id h)) (filter (\<lambda>h. ho_task h = task) (handoffs s))))"

record handoff_context =
  hc_handoff :: handoff_row
  hc_context :: context_revision
  hc_milestone :: "milestone_row option"
  hc_artifacts :: "artifact_row list"
  hc_decisions :: "decision_row list"

definition get_handoff :: "external \<Rightarrow> id \<Rightarrow> db \<Rightarrow> handoff_context res" where
  "get_handoff x i s =
     bind_res (ok_or (NotFound ''handoff'') (find_handoff i s)) (\<lambda>h.
     bind_res (get_context_revision (ho_context h) s) (\<lambda>c.
     bind_res (task_artifacts (ho_task h) s) (\<lambda>fs.
     bind_res (task_decisions (ho_task h) s) (\<lambda>ds.
     bind_res (case ho_milestone h of
         None \<Rightarrow> Inr None
       | Some m \<Rightarrow> bind_res (get_run_milestone m s) (\<lambda>m. Inr (Some m))) (\<lambda>m.
     Inr \<lparr>hc_handoff = h, hc_context = c, hc_milestone = m,
       hc_artifacts = filter (\<lambda>f. list_ex (\<lambda>raw. x_parse_id x raw = Some (af_id f)) (hi_artifacts (ho_content h))) fs,
       hc_decisions = filter (\<lambda>d. list_ex (\<lambda>raw. x_parse_id x raw = Some (dn_id d)) (hi_decisions (ho_content h))) ds\<rparr>)))))"

subsection \<open>The repair of old handoffs\<close>

text \<open>A task in progress whose last executor run was handed off and which nobody executes.\<close>

definition legacy_handoff :: "db \<Rightarrow> task_row \<Rightarrow> bool" where
  "legacy_handoff s t \<longleftrightarrow>
     t_state t = ''in_progress''
     \<and> \<not> list_ex (\<lambda>a. a_task a = t_id t \<and> a_role a = ''executor'' \<and> a_status a = ''active'') (assignments s)
     \<and> \<not> list_ex (\<lambda>r. r_task r = t_id t \<and> r_status r \<in> live_statuses
          \<and> list_ex (\<lambda>a. a_id a = r_assignment r \<and> a_role a = ''executor'') (assignments s)) (runs s)
     \<and> \<not> list_ex (\<lambda>l. la_task l = t_id t \<and> (la_status l = ''starting'' \<or> la_status l = ''running'')) (launch_attempts s)
     \<and> (case last_max r_started_at (filter (\<lambda>r. r_task r = t_id t
            \<and> list_ex (\<lambda>a. a_id a = r_assignment r \<and> a_role a = ''executor'') (assignments s)) (runs s)) of
          None \<Rightarrow> False
        | Some r \<Rightarrow> r_status r = ''handed_off''
            \<and> list_ex (\<lambda>a. a_id a = r_assignment r \<and> a_role a = ''executor'' \<and> a_status a = ''released''
                \<and> a_release_reason a = Some ''handoff'') (assignments s)
            \<and> list_ex (\<lambda>h. ho_run h = r_id r) (handoffs s))"

definition reconcile_one :: "time \<Rightarrow> id \<Rightarrow> db \<Rightarrow> db" where
  "reconcile_one now task s =
     append_event_tx ''system'' ''handoff-reconciler'' ''task'' task ''task.handoff_reconciled''
       [(''reason'', PStr ''legacy terminal handoff without active successor'')] None now
       (update_tasks (\<lambda>t. t_id t = task \<and> t_state t = ''in_progress'')
          (\<lambda>t. t\<lparr>t_state := ''ready'', t_updated_at := now\<rparr>) s)"

definition reconcile_legacy_handoff_tasks :: "time \<Rightarrow> (db, nat) operation" where
  "reconcile_legacy_handoff_tasks now =
     commit (\<lambda>s. let ids = map t_id (filter (legacy_handoff s) (tasks s)) in
       Inr (length ids, fold (reconcile_one now) ids s))"

subsection \<open>What the operations keep\<close>

lemma insert_handoff_refs_rows:
  "insert_handoff_refs x h table raws s = Inr s' \<Longrightarrow> s' = s\<lparr>handoff_refs := handoff_refs s'\<rparr>"
  by (induction x h table raws s rule: insert_handoff_refs.induct) (auto simp: res_simps split: if_splits)

lemma release_for_handoff_tables:
  "runs (release_for_handoff a task now s) = update_where
     (\<lambda>q. r_assignment q = a_id a \<and> (r_status q = ''running'' \<or> r_status q = ''paused''))
     (\<lambda>q. q\<lparr>r_status := ''handed_off'', r_stop_reason := Some ''handoff'', r_ended_at := Some now\<rparr>) (runs s)"
  "assignments (release_for_handoff a task now s) = update_where (\<lambda>b. a_id b = a_id a)
     (\<lambda>b. b\<lparr>a_status := ''released'', a_released_at := Some now, a_release_reason := Some ''handoff''\<rparr>) (assignments s)"
  by (simp_all add: release_for_handoff_def Let_def table_defs)

lemma create_handoff_txE:
  assumes "create_handoff_tx x run actor i fresh now s = Inr (h, s')"
  obtains r a t cx m hs rs where "find_run run s = Some r" "r_agent r = actor" "r_status r = ''running'' \<or> r_status r = ''paused''"
    "find_assignment (r_assignment r) s = Some a" "a_status a = ''active''" "now < a_expires_at a"
    "find_task (r_task r) s = Some t" "t_context t = Some cx" "cited_milestone x r actor cx i s = Inr m"
    "h = \<lparr>ho_id = fresh, ho_task = r_task r, ho_run = run, ho_status = ''pending'', ho_accepted_by = None,
           ho_created_by = actor, ho_context = cx, ho_milestone = Some (ml_id m), ho_content = i, ho_created_at = now\<rparr>"
    "insert_handoff h s = Inr (s\<lparr>handoffs := hs\<rparr>)" "hs = handoffs s @ [h]"
    "s' = append_event_tx ''agent_instance'' actor ''task'' (r_task r) ''handoff.created''
       [(''handoff_id'', PStr fresh), (''source_run_id'', PStr run), (''assignment_id'', PStr (a_id a)),
        (''context_revision_id'', PStr cx), (''milestone_id'', PStr (ml_id m))] None now
       (release_for_handoff a (r_task r) now (s\<lparr>handoffs := hs, handoff_refs := rs\<rparr>))"
proof -
  from assms obtain r a t cx m s1 s2 s3 where *: "find_run run s = Some r"
    "\<not> (r_agent r \<noteq> actor \<or> r_status r \<noteq> ''running'' \<and> r_status r \<noteq> ''paused'')"
    "find_assignment (r_assignment r) s = Some a" "a_status a = ''active''" "now < a_expires_at a"
    "find_task (r_task r) s = Some t" "t_context t = Some cx" "cited_milestone x r actor cx i s = Inr m"
    and ins: "insert_handoff \<lparr>ho_id = fresh, ho_task = r_task r, ho_run = run, ho_status = ''pending'', ho_accepted_by = None,
           ho_created_by = actor, ho_context = cx, ho_milestone = Some (ml_id m), ho_content = i, ho_created_at = now\<rparr> s = Inr s1"
    and s2: "insert_handoff_refs x fresh ''artifacts'' (hi_artifacts i) s1 = Inr s2"
    and s3: "insert_handoff_refs x fresh ''decisions'' (hi_decisions i) s2 = Inr s3"
    and h: "h = \<lparr>ho_id = fresh, ho_task = r_task r, ho_run = run, ho_status = ''pending'', ho_accepted_by = None,
           ho_created_by = actor, ho_context = cx, ho_milestone = Some (ml_id m), ho_content = i, ho_created_at = now\<rparr>"
    and s': "s' = append_event_tx ''agent_instance'' actor ''task'' (r_task r) ''handoff.created''
       [(''handoff_id'', PStr fresh), (''source_run_id'', PStr run), (''assignment_id'', PStr (a_id a)),
        (''context_revision_id'', PStr cx), (''milestone_id'', PStr (ml_id m))] None now
       (release_for_handoff a (r_task r) now s3)"
    unfolding create_handoff_tx_def Let_def
    by (simp only: res_simps sum.inject prod.inject, elim exE conjE) (rule that, assumption+, (erule sym)+)
  from ins have s1: "s1 = s\<lparr>handoffs := handoffs s @ [h]\<rparr>" by (simp add: h insert_handoff_def split: if_splits)
  from insert_handoff_refs_rows [OF s2] obtain r2 where "s2 = s1\<lparr>handoff_refs := r2\<rparr>" by blast
  moreover from insert_handoff_refs_rows [OF s3] obtain r3 where "s3 = s2\<lparr>handoff_refs := r3\<rparr>" by blast
  ultimately have rs: "s3 = s\<lparr>handoffs := handoffs s @ [h], handoff_refs := r3\<rparr>" by (simp add: s1)
  show thesis
    by (rule that [OF *(1) _ _ *(3-8) h ins [folded h, unfolded s1] refl s' [unfolded rs]])
      (use *(2) in simp_all)
qed

lemma keeps_release_for_handoff:
  assumes "find_assignment i s = Some a" "a_status a = ''active''"
  shows "keeps s (release_for_handoff a task now s)"
proof (cases "store_ok s")
  case True
  let ?s1 = "update_runs (\<lambda>q. r_assignment q = a_id a \<and> (r_status q = ''running'' \<or> r_status q = ''paused''))
            (\<lambda>q. q\<lparr>r_status := ''handed_off'', r_stop_reason := Some ''handoff'', r_ended_at := Some now\<rparr>) s"
  let ?s2 = "update_assignments (\<lambda>b. a_id b = a_id a)
            (\<lambda>b. b\<lparr>a_status := ''released'', a_released_at := Some now, a_release_reason := Some ''handoff''\<rparr>) ?s1"
  have runs: "keeps s ?s1" by (rule keeps_update_runs) (auto simp: row_defs)
  have released: "keeps ?s1 ?s2"
  proof (rule keeps_update_assignments)
    fix b assume "b \<in> set (assignments ?s1)" "a_id b = a_id a"
    then have "b = a"
      using True find_assignment_SomeD [OF assms(1)] distinct_map_inj [of a_id "assignments s" b a]
      by (simp add: store_ok_def core_ok_def)
    then show "assignment_moves b (b\<lparr>a_status := ''released'', a_released_at := Some now, a_release_reason := Some ''handoff''\<rparr>)
        \<and> (active (b\<lparr>a_status := ''released'', a_released_at := Some now, a_release_reason := Some ''handoff''\<rparr>) \<longrightarrow> active b)"
      using assms(2) by (simp add: row_defs)
  qed
  have "keeps ?s2 (release_for_handoff a task now s)"
    unfolding release_for_handoff_def Let_def by (auto intro: keeps_update_tasks)
  with runs released show ?thesis by (blast intro: keeps_trans)
qed (simp add: keeps_def)

lemma keeps_create_handoff_tx:
  assumes "create_handoff_tx x run actor i fresh now s = Inr (h, s')"
  shows "keeps s s'"
  using assms
proof (rule create_handoff_txE)
  fix r a t cx m hs rs
  assume a: "find_assignment (r_assignment r) s = Some a" "a_status a = ''active''"
    and s': "s' = append_event_tx ''agent_instance'' actor ''task'' (r_task r) ''handoff.created''
       [(''handoff_id'', PStr fresh), (''source_run_id'', PStr run), (''assignment_id'', PStr (a_id a)),
        (''context_revision_id'', PStr cx), (''milestone_id'', PStr (ml_id m))] None now
       (release_for_handoff a (r_task r) now (s\<lparr>handoffs := hs, handoff_refs := rs\<rparr>))"
  let ?s = "s\<lparr>handoffs := hs, handoff_refs := rs\<rparr>"
  have "keeps s ?s" by simp
  moreover have "keeps ?s (release_for_handoff a (r_task r) now ?s)"
    using a by (intro keeps_release_for_handoff) (simp_all add: find_assignment_def)
  ultimately show "keeps s s'" unfolding s' keeps_append_event by (rule keeps_trans)
qed

lemma keeps_accept_handoff_tx: "accept_handoff_tx i run actor now s = Inr (h, s') \<Longrightarrow> keeps s s'"
  by (auto simp: accept_handoff_tx_def res_simps)

lemma keeps_reconcile: "keeps s (fold (reconcile_one now) ids s)"
proof (induction ids arbitrary: s)
  case (Cons i ids)
  have "keeps s (reconcile_one now i s)"
    by (auto simp: reconcile_one_def intro!: keeps_update_tasks)
  with Cons show ?case by (auto intro: keeps_trans)
qed simp

lemma cited_milestone_Inr:
  assumes "milestones_ok s" "cited_milestone x r actor cx i s = Inr m"
  shows "latest_milestone (r_id r) s = Some m" "ml_context m = Some cx" "ml_task m = r_task r" "checkpoint_milestone (r_id r) s = Some (ml_id m)"
proof -
  from assms(2) obtain mid l where m: "find (\<lambda>m. ml_id m = mid) (milestones s) = Some m" and l: "latest_milestone (r_id r) s = Some l" "ml_id l = mid"
    and rest: "ml_context m = Some cx" "ml_task m = r_task r" "checkpoint_milestone (r_id r) s = Some mid"
    by (auto simp: cited_milestone_def res_simps)
  from m have "m \<in> set (milestones s)" "ml_id m = mid" by (auto dest: find_Some_in)
  moreover from l(1) have "l \<in> set (milestones s)" by (auto simp: latest_milestone_def dest!: last_max_Some)
  ultimately have "l = m" using assms(1) l(2) by (auto simp: milestones_ok_def dest: distinct_map_inj)
  with l rest \<open>ml_id m = mid\<close> show "latest_milestone (r_id r) s = Some m" "ml_context m = Some cx" "ml_task m = r_task r"
    "checkpoint_milestone (r_id r) s = Some (ml_id m)" by simp_all
qed


text \<open>The same run after its milestone, and a run of the successor that accepts the handoff.\<close>

definition example_reported_store :: db where
  "example_reported_store = example_working_store\<lparr>
     milestones := [\<lparr>ml_id = ''m'', ml_run = ''xe'', ml_task = ''t'', ml_created_by = ''e'', ml_sequence = 1, ml_context = Some ''c'',
       ml_content = example_milestone, ml_created_at = 5\<rparr>],
     events := [\<lparr>ev_actor_type = ''agent_instance'', ev_actor_id = ''e'', ev_entity_type = ''run'', ev_entity_id = ''xe'',
       ev_type = ''run.checkpointed'', ev_correlation = None, ev_payload = [(''milestone_id'', PStr ''m'')], ev_created_at = 5\<rparr>]\<rparr>"

definition example_handoff :: handoff_input where
  "example_handoff = \<lparr>hi_milestone = Some ''m'', hi_summary = ''stop'', hi_completed = [], hi_remaining = [''rest''], hi_blockers = [],
     hi_artifacts = [], hi_decisions = []\<rparr>"

definition example_succeeded_store :: db where
  "example_succeeded_store = example_working_store\<lparr>
     assignments := [example_assignment ''af'' ''t'' ''executor'' ''f'' ''active'' 30],
     runs := [example_run ''xf'' ''t'' ''af'' ''f'' ''running''],
     handoffs := [\<lparr>ho_id = ''h'', ho_task = ''t'', ho_run = ''xe'', ho_status = ''pending'', ho_accepted_by = None,
       ho_created_by = ''e'', ho_context = ''c'', ho_milestone = Some ''m'', ho_content = example_handoff, ho_created_at = 6\<rparr>]\<rparr>"


text \<open>
  A handoff is accepted once: the run that accepts it is another live run of the same task,
  under a live assignment of its agent, and every later acceptance is a conflict.
\<close>

theorem handoff_accepted_once:
  assumes "accept_handoff i run actor now s = (Inr h, s')"
  shows "(\<exists>r a. find_run run s = Some r \<and> r_task r = ho_task h \<and> r_id r \<noteq> ho_run h
      \<and> (r_status r = ''running'' \<or> r_status r = ''paused'')
      \<and> find_assignment (r_assignment r) s = Some a \<and> a_agent a = actor \<and> a_status a = ''active'' \<and> now < a_expires_at a)
    \<and> ho_accepted_by h = Some run \<and> find_handoff i s' = Some h
    \<and> accept_handoff i run' actor' later s' = (Inl (Conflict ''handoff already accepted''), s')"
proof -
  from assms obtain g where g: "find_handoff i s = Some g" "ho_status g = ''pending''" and h: "h = g\<lparr>ho_status := ''accepted'', ho_accepted_by := Some run\<rparr>"
    and target: "\<exists>r a. find_run run s = Some r \<and> r_task r = ho_task g \<and> r_id r \<noteq> ho_run g
      \<and> (r_status r = ''running'' \<or> r_status r = ''paused'')
      \<and> find_assignment (r_assignment r) s = Some a \<and> a_agent a = actor \<and> a_status a = ''active'' \<and> now < a_expires_at a"
    and rows: "handoffs s' = update_where (\<lambda>g. ho_id g = i \<and> ho_status g = ''pending'')
            (\<lambda>g. g\<lparr>ho_status := ''accepted'', ho_accepted_by := Some run\<rparr>) (handoffs s)"
    by (auto simp: accept_handoff_def accept_handoff_tx_def commit_Inr_iff res_simps append_event_tx_def)
  from g have "find_handoff i s' = Some h"
    by (auto simp: find_handoff_def rows find_update_where h dest: find_Some_in)
  with target show ?thesis
    by (simp add: h accept_handoff_def accept_handoff_tx_def commit_def)
qed

theorem handoff_accepted_once_witness:
  "\<exists>h s'. accept_handoff ''h'' ''xf'' ''f'' 7 example_succeeded_store = (Inr h, s')
     \<and> accept_handoff ''h'' ''xf'' ''f'' 8 s' = (Inl (Conflict ''handoff already accepted''), s')"
proof -
  have "\<not> isl (fst (accept_handoff ''h'' ''xf'' ''f'' 7 example_succeeded_store))" by code_simp
  from right_operation [OF this] obtain h s' where op: "accept_handoff ''h'' ''xf'' ''f'' 7 example_succeeded_store = (Inr h, s')" by blast
  from handoff_accepted_once [OF op] op show ?thesis by blast
qed

end
