(* ===== verification/Runtime.thy ===== *)
theory Runtime
  imports Claims
begin

text \<open>
  Runtimes of runs (\<open>morrows-store/src/runtime.rs\<close> and \<open>job_wait.rs\<close>): the durable binding of a
  run to a runtime scope, cancellation and cleanup of a run whose process is gone, the restart of an
  interrupted run, and the waits of a run for a job of its runtime.
\<close>

subsection \<open>Bindings\<close>

definition run_runtime_binding :: "id \<Rightarrow> db \<Rightarrow> runtime_binding option" where
  "run_runtime_binding run s = find (\<lambda>b. rb_run b = run) (runtime_bindings s)"

definition find_provisioning :: "id \<Rightarrow> db \<Rightarrow> provisioning option" where
  "find_provisioning run s = find (\<lambda>p. pv_run p = run) (provisionings s)"

definition run_runtime_provisioning_subject :: "id \<Rightarrow> db \<Rightarrow> string option" where
  "run_runtime_provisioning_subject run s = map_option pv_subject (find_provisioning run s)"

definition has_managed_runtime :: "id \<Rightarrow> db \<Rightarrow> bool" where
  "has_managed_runtime run s \<longleftrightarrow> run_runtime_binding run s \<noteq> None \<or> find_provisioning run s \<noteq> None"

text \<open>\<open>COALESCE(b.restart_deadline_at, p.restart_deadline_at)\<close> of a run.\<close>

definition restart_deadline :: "id \<Rightarrow> db \<Rightarrow> time option" where
  "restart_deadline run s =
     (case Option.bind (run_runtime_binding run s) rb_restart_deadline of
        Some d \<Rightarrow> Some d
      | None \<Rightarrow> Option.bind (find_provisioning run s) pv_restart_deadline)"

definition has_active_implementing_executor_run :: "id \<Rightarrow> db \<Rightarrow> bool" where
  "has_active_implementing_executor_run agent s \<longleftrightarrow>
     list_ex (\<lambda>a. a_agent a = agent \<and> a_role a = ''executor'' \<and> a_status a = ''active'' \<and> a_phase a = ''implementing''
       \<and> list_ex (\<lambda>r. r_assignment r = a_id a \<and> r_status r = ''running'') (runs s)) (assignments s)"

text \<open>Runs whose runtime may still exist.\<close>

definition bindable :: "string set" where
  "bindable = {''running'', ''interrupted'', ''cancelling'', ''cleanup_pending'', ''handed_off'', ''completed''}"

definition unbound_runtime_runs :: "db \<Rightarrow> id list" where
  "unbound_runtime_runs s =
     map r_id (filter (\<lambda>r. find_provisioning (r_id r) s \<noteq> None \<and> run_runtime_binding (r_id r) s = None
       \<and> r_status r \<in> bindable) (runs s))"

definition insert_runtime_binding :: "runtime_binding \<Rightarrow> db \<Rightarrow> sql_error + db" where
  "insert_runtime_binding b s =
     (if list_ex (\<lambda>c. rb_run c = rb_run b) (runtime_bindings s) then Inl PrimaryKeyViolation
      else if list_ex (\<lambda>c. rb_scope c = rb_scope b) (runtime_bindings s) then Inl UniqueViolation
      else if find_run (rb_run b) s = None then Inl ForeignKeyViolation
      else Inr (s\<lparr>runtime_bindings := runtime_bindings s @ [b]\<rparr>))"

definition bind_run_runtime_tx :: "run_view \<Rightarrow> string \<Rightarrow> time \<Rightarrow> (db, unit) tx" where
  "bind_run_runtime_tx v scope now s =
     (let run = r_id (v_run v) in
      case run_runtime_binding run s of
        Some b \<Rightarrow> bind_res (ensure (rb_scope b = scope) (Conflict ''Run already owns a different runtime scope'')) (\<lambda>_. Inr ((), s))
      | None \<Rightarrow>
          bind_res (exec (insert_runtime_binding \<lparr>rb_run = run, rb_scope = scope, rb_capability = None,
              rb_restart_deadline = Option.bind (find_provisioning run s) pv_restart_deadline, rb_terminalized_at = None,
              rb_created_at = now, rb_updated_at = now\<rparr> s)) (\<lambda>s1.
          Inr ((), append_event_tx ''system'' ''morrow-runtime'' ''run'' run ''runtime.scope_bound''
            [(''task_id'', PStr (r_task (v_run v)))] None now s1)))"

definition bind_run_runtime :: "id \<Rightarrow> string \<Rightarrow> time \<Rightarrow> (db, runtime_binding) operation" where
  "bind_run_runtime run scope now =
     checked (\<lambda>s. bind_res (get_run run s) (\<lambda>v.
         bind_res (ensure (r_status (v_run v) \<in> bindable) (Conflict (''run is '' @ r_status (v_run v)))) (\<lambda>_. Inr v)))
       (\<lambda>v. commit_then (bind_run_runtime_tx v scope now)
         (\<lambda>_ s. ok_or (Storage ''runtime binding disappeared'') (run_runtime_binding run s)))"

text \<open>The capability of a run is adopted only while the run is running.\<close>

definition update_bindings :: "(runtime_binding \<Rightarrow> bool) \<Rightarrow> (runtime_binding \<Rightarrow> runtime_binding) \<Rightarrow> db \<Rightarrow> db" where
  "update_bindings P f s = s\<lparr>runtime_bindings := update_where P f (runtime_bindings s)\<rparr>"

definition try_adopt_run_capability :: "id \<Rightarrow> string \<Rightarrow> time \<Rightarrow> (db, unit) operation" where
  "try_adopt_run_capability run capability now s =
     (let P = (\<lambda>b. rb_run b = run \<and> list_ex (\<lambda>r. r_id r = rb_run b \<and> r_status r = ''running'') (runs s))
      in (ensure (rows_affected P (runtime_bindings s) = 1)
            (Conflict ''Run stopped before its runtime capability could be adopted''),
          update_bindings P (\<lambda>b. b\<lparr>rb_capability := Some capability, rb_updated_at := now\<rparr>) s))"

definition clear_run_capability_if_matches :: "id \<Rightarrow> string \<Rightarrow> time \<Rightarrow> (db, unit) operation" where
  "clear_run_capability_if_matches run capability now s =
     (Inr (), update_bindings (\<lambda>b. rb_run b = run \<and> rb_capability b = Some capability)
        (\<lambda>b. b\<lparr>rb_capability := None, rb_updated_at := now\<rparr>) s)"

subsection \<open>Bindings of an agent on a machine, outside any run\<close>

definition adhoc_runtime_binding :: "id \<Rightarrow> id \<Rightarrow> db \<Rightarrow> adhoc_binding option" where
  "adhoc_runtime_binding agent machine s = find (\<lambda>b. ab_agent b = agent \<and> ab_machine b = machine) (adhoc_bindings s)"

definition read_adhoc :: "id \<Rightarrow> id \<Rightarrow> db \<Rightarrow> adhoc_binding res" where
  "read_adhoc agent machine s = ok_or (Storage ''ad-hoc runtime binding disappeared'') (adhoc_runtime_binding agent machine s)"

definition ensure_adhoc_runtime_binding :: "id \<Rightarrow> id \<Rightarrow> time \<Rightarrow> (db, adhoc_binding) operation" where
  "ensure_adhoc_runtime_binding agent machine now =
     checked (\<lambda>s. bind_res (get_agent agent s) (\<lambda>_.
         ok_or (NotFound (''machine '' @ machine)) (find (\<lambda>m. mc_id m = machine) (machines s))))
       (\<lambda>_ s. let s1 = (if adhoc_runtime_binding agent machine s \<noteq> None then s
            else s\<lparr>adhoc_bindings := adhoc_bindings s @ [\<lparr>ab_agent = agent, ab_machine = machine, ab_scope = None,
              ab_generation = 1, ab_created_at = now, ab_updated_at = now\<rparr>]\<rparr>)
        in (read_adhoc agent machine s1, s1))"

text \<open>\<open>UPDATE adhoc_runtime_bindings\<close> of one key and generation, whose scope column is unique.\<close>

definition change_adhoc ::
  "id \<Rightarrow> id \<Rightarrow> (adhoc_binding \<Rightarrow> bool) \<Rightarrow> (adhoc_binding \<Rightarrow> adhoc_binding) \<Rightarrow> (db, adhoc_binding) operation" where
  "change_adhoc agent machine P f s =
     (let Q = (\<lambda>b. ab_agent b = agent \<and> ab_machine b = machine \<and> P b);
          rows = update_where Q f (adhoc_bindings s)
      in if \<not> distinct (filter (\<lambda>c. c \<noteq> None) (map ab_scope rows)) then (Inl (storage UniqueViolation), s)
         else let s1 = s\<lparr>adhoc_bindings := rows\<rparr> in
           (bind_res (ensure (rows_affected Q (adhoc_bindings s) = 1) (Conflict ''ad-hoc runtime binding changed concurrently''))
              (\<lambda>_. read_adhoc agent machine s1), s1))"

definition bind_adhoc_runtime_scope :: "id \<Rightarrow> id \<Rightarrow> int \<Rightarrow> string \<Rightarrow> time \<Rightarrow> (db, adhoc_binding) operation" where
  "bind_adhoc_runtime_scope agent machine generation scope now =
     checked (\<lambda>_. ensure (\<not> blank scope) (InvalidInput ''runtime_scope_id must be nonempty''))
       (\<lambda>_. change_adhoc agent machine
         (\<lambda>b. ab_generation b = generation \<and> (ab_scope b = None \<or> ab_scope b = Some scope))
         (\<lambda>b. b\<lparr>ab_scope := Some scope, ab_updated_at := now\<rparr>))"

definition rotate_adhoc_runtime_binding :: "id \<Rightarrow> id \<Rightarrow> int \<Rightarrow> time \<Rightarrow> (db, adhoc_binding) operation" where
  "rotate_adhoc_runtime_binding agent machine expected now =
     change_adhoc agent machine (\<lambda>b. ab_generation b = expected)
       (\<lambda>b. b\<lparr>ab_scope := None, ab_generation := ab_generation b + 1, ab_updated_at := now\<rparr>)"

subsection \<open>Cancellation\<close>

definition end_unmanaged_reviewer :: "run \<Rightarrow> time \<Rightarrow> db \<Rightarrow> db" where
  "end_unmanaged_reviewer r now s =
     (let s1 = update_runs (\<lambda>q. r_id q = r_id r)
            (\<lambda>q. q\<lparr>r_status := ''cancelled'', r_stop_reason := Some ''user_cancelled'', r_ended_at := Some now\<rparr>) s;
          s2 = update_assignments (\<lambda>a. a_id a = r_assignment r \<and> a_status a = ''active'')
            (\<lambda>a. a\<lparr>a_status := ''released'', a_released_at := Some now, a_release_reason := Some ''cancelled''\<rparr>) s1;
          s3 = update_tasks (\<lambda>t. t_id t = r_task r \<and> t_state t = ''in_progress''
              \<and> \<not> list_ex (\<lambda>a. a_task a = r_task r \<and> a_role a = ''executor'' \<and> a_status a = ''active'') (assignments s2))
            (\<lambda>t. t\<lparr>t_state := ''ready'', t_updated_at := now\<rparr>) s2
      in append_event_tx ''human'' ''local'' ''run'' (r_id r) ''run.cancelled''
           [(''reason'', PStr ''user_cancelled''), (''unmanaged_reviewer'', PBool True)] None now s3)"

definition request_run_cancel_tx :: "id \<Rightarrow> time \<Rightarrow> (db, unit) tx" where
  "request_run_cancel_tx run now s =
     bind_res (ok_or (NotFound (''run '' @ run)) (find_run run s)) (\<lambda>r.
     bind_res (ensure (r_status r \<in> {''running'', ''interrupted'', ''cancelling''}) (Conflict (''run is '' @ r_status r))) (\<lambda>_.
     if \<not> has_managed_runtime run s then
       bind_res (ok_or no_rows (find_assignment (r_assignment r) s)) (\<lambda>a.
       bind_res (ensure (a_role a = ''reviewer'') (Conflict ''Run has no managed runtime provisioning intent'')) (\<lambda>_.
       Inr ((), end_unmanaged_reviewer r now s)))
     else if r_status r = ''cancelling'' then Inr ((), s)
     else Inr ((), append_event_tx ''human'' ''local'' ''run'' run ''run.cancelling'' [(''requested_at'', PTime now)] None now
            (update_runs (\<lambda>q. r_id q = run) (\<lambda>q. q\<lparr>r_status := ''cancelling'', r_stop_reason := Some ''user_cancelled''\<rparr>) s))))"

definition request_run_cancel :: "id \<Rightarrow> time \<Rightarrow> (db, run_view) operation" where
  "request_run_cancel run now = commit_then (request_run_cancel_tx run now) (\<lambda>_. get_run run)"

subsection \<open>Cleanup\<close>

definition due_interrupted_runs :: "time \<Rightarrow> db \<Rightarrow> id list" where
  "due_interrupted_runs now s =
     map r_id (filter (\<lambda>r. r_status r = ''interrupted''
       \<and> (case restart_deadline (r_id r) s of None \<Rightarrow> False | Some d \<Rightarrow> d \<le> now)) (runs s))"

definition interrupted_runtime_runs :: "db \<Rightarrow> id list" where
  "interrupted_runtime_runs s =
     map r_id (filter (\<lambda>r. r_status r = ''interrupted''
       \<and> list_ex (\<lambda>b. rb_run b = r_id r \<and> rb_capability b \<noteq> None) (runtime_bindings s)) (runs s))"

definition completed_runtime_runs :: "db \<Rightarrow> id list" where
  "completed_runtime_runs s =
     map r_id (filter (\<lambda>r. (r_status r = ''completed'' \<or> r_status r = ''handed_off'')
       \<and> list_ex (\<lambda>b. rb_run b = r_id r \<and> rb_terminalized_at b = None) (runtime_bindings s)) (runs s))"

definition pending_runtime_cleanup_runs :: "db \<Rightarrow> id list" where
  "pending_runtime_cleanup_runs s =
     map r_id (filter (\<lambda>r. (r_status r = ''cleanup_pending'' \<or> r_status r = ''cancelling'') \<and> has_managed_runtime (r_id r) s) (runs s))"

definition has_active_launch_attempt :: "id \<Rightarrow> db \<Rightarrow> bool" where
  "has_active_launch_attempt run s \<longleftrightarrow>
     list_ex (\<lambda>l. la_run l = Some run \<and> (la_status l = ''starting'' \<or> la_status l = ''running'')) (launch_attempts s)"

text \<open>The scope of a run is terminalized once, with one event.\<close>

definition terminalize_tx :: "id \<Rightarrow> id \<Rightarrow> time \<Rightarrow> db \<Rightarrow> db" where
  "terminalize_tx run task now s =
     (let P = (\<lambda>b. rb_run b = run \<and> rb_terminalized_at b = None);
          s1 = update_bindings P (\<lambda>b. b\<lparr>rb_terminalized_at := Some now, rb_updated_at := now\<rparr>) s
      in if rows_affected P (runtime_bindings s) = 1
         then append_event_tx ''system'' ''morrow-runtime'' ''run'' run ''runtime.scope_terminalized''
                [(''task_id'', PStr task)] None now s1
         else s1)"

definition mark_runtime_scope_terminalized :: "id \<Rightarrow> time \<Rightarrow> (db, unit) operation" where
  "mark_runtime_scope_terminalized run now =
     commit (\<lambda>s. if list_ex (\<lambda>b. rb_run b = run \<and> rb_terminalized_at b = None) (runtime_bindings s)
        then bind_res (ok_or no_rows (find_run run s)) (\<lambda>r. Inr ((), terminalize_tx run (r_task r) now s))
        else Inr ((), s))"

definition begin_expired_cleanup_tx :: "id \<Rightarrow> time \<Rightarrow> (db, unit) tx" where
  "begin_expired_cleanup_tx run now s =
     bind_res (ok_or no_rows (find_run run s)) (\<lambda>r.
     if r_status r \<noteq> ''interrupted'' then Inr ((), s)
     else bind_res (ensure (case restart_deadline run s of None \<Rightarrow> False | Some d \<Rightarrow> \<not> now < d)
       (Conflict ''Run restart window has not expired'')) (\<lambda>_.
     let s1 = update_runs (\<lambda>q. r_id q = run)
           (\<lambda>q. q\<lparr>r_status := ''cleanup_pending'', r_stop_reason := Some ''agent_restart_window_expired''\<rparr>) s;
         s2 = update_assignments (\<lambda>a. a_id a = r_assignment r \<and> a_status a = ''active'')
           (\<lambda>a. a\<lparr>a_status := ''released'', a_released_at := Some now,
               a_release_reason := Some ''agent_restart_window_expired''\<rparr>) s1
     in Inr ((), append_event_tx ''system'' ''launcher'' ''run'' run ''run.cleanup_pending''
          [(''reason'', PStr ''agent_restart_window_expired'')] None now s2)))"

definition begin_expired_cleanup :: "id \<Rightarrow> time \<Rightarrow> (db, unit) operation" where
  "begin_expired_cleanup run now = commit (begin_expired_cleanup_tx run now)"

definition final_status :: "string \<Rightarrow> string res" where
  "final_status st =
     (if st = ''cleanup_pending'' then Inr ''failed''
      else if st = ''cancelling'' then Inr ''cancelled''
      else Inl (Conflict (''run is '' @ st)))"

definition complete_runtime_cleanup_tx :: "id \<Rightarrow> time \<Rightarrow> (db, unit) tx" where
  "complete_runtime_cleanup_tx run now s =
     bind_res (ok_or no_rows (find_run run s)) (\<lambda>r.
     bind_res (final_status (r_status r)) (\<lambda>st.
     let s1 = update_runs (\<lambda>q. r_id q = run) (\<lambda>q. q\<lparr>r_status := st, r_ended_at := Some now\<rparr>) s;
         s2 = terminalize_tx run (r_task r) now s1;
         s3 = update_assignments (\<lambda>a. a_id a = r_assignment r \<and> a_status a = ''active'')
           (\<lambda>a. a\<lparr>a_status := ''released'', a_released_at := Some now, a_release_reason := Some st\<rparr>) s2;
         s4 = update_tasks (\<lambda>t. t_id t = r_task r \<and> t_state t = ''in_progress'')
           (\<lambda>t. t\<lparr>t_state := ''ready'', t_updated_at := now\<rparr>) s3
     in Inr ((), append_event_tx ''system'' ''launcher'' ''run'' run (if st = ''failed'' then ''run.failed'' else ''run.cancelled'')
          [(''reason'', p_opt (r_stop_reason r))] None now s4)))"

definition complete_runtime_cleanup :: "id \<Rightarrow> time \<Rightarrow> (db, run_view) operation" where
  "complete_runtime_cleanup run now = commit_then (complete_runtime_cleanup_tx run now) (\<lambda>_. get_run run)"

text \<open>
  The lease of an interrupted run lasts until its restart deadline: two statements, for the runs
  with a binding and for those that have only the provisioning intent.
\<close>

definition interrupted_under :: "db \<Rightarrow> assignment \<Rightarrow> id \<Rightarrow> bool" where
  "interrupted_under s a run \<longleftrightarrow>
     list_ex (\<lambda>r. r_id r = run \<and> r_assignment r = a_id a \<and> r_status r = ''interrupted'') (runs s)"

definition after_now :: "time \<Rightarrow> time option \<Rightarrow> bool" where
  "after_now now d \<longleftrightarrow> (case d of None \<Rightarrow> False | Some d \<Rightarrow> now < d)"

definition extend_to :: "(assignment \<Rightarrow> time option) \<Rightarrow> time \<Rightarrow> db \<Rightarrow> db" where
  "extend_to deadline now s =
     update_assignments (\<lambda>a. a_status a = ''active'' \<and> deadline a \<noteq> None)
       (\<lambda>a. a\<lparr>a_expires_at := max (a_expires_at a) (the (deadline a)), a_renewed_at := now\<rparr>) s"

definition bound_deadline :: "db \<Rightarrow> time \<Rightarrow> assignment \<Rightarrow> time option" where
  "bound_deadline s now a =
     Option.bind (find (\<lambda>b. interrupted_under s a (rb_run b) \<and> after_now now (rb_restart_deadline b)) (runtime_bindings s))
       rb_restart_deadline"

definition provisioned_deadline :: "db \<Rightarrow> time \<Rightarrow> assignment \<Rightarrow> time option" where
  "provisioned_deadline s now a =
     Option.bind (find (\<lambda>p. interrupted_under s a (pv_run p) \<and> run_runtime_binding (pv_run p) s = None
         \<and> after_now now (pv_restart_deadline p)) (provisionings s)) pv_restart_deadline"

definition renew_interrupted_assignments :: "time \<Rightarrow> (db, unit) operation" where
  "renew_interrupted_assignments now s =
     (let s1 = extend_to (bound_deadline s now) now s in (Inr (), extend_to (provisioned_deadline s1 now) now s1))"

subsection \<open>What the operations keep\<close>

lemma keeps_update_bindings [simp]: "keeps s (update_bindings P f s') = keeps s s'"
  by (simp add: update_bindings_def)

lemma update_bindings_tables [simp]:
  "tasks (update_bindings P f s) = tasks s" "assignments (update_bindings P f s) = assignments s"
  "runs (update_bindings P f s) = runs s" "agents (update_bindings P f s) = agents s"
  by (simp_all add: update_bindings_def)

lemma keeps_bind_run_runtime: "keeps s (snd (bind_run_runtime run scope now s))"
  unfolding bind_run_runtime_def bind_run_runtime_tx_def insert_runtime_binding_def Let_def
  by (auto simp: res_simps intro!: keeps_operation split: option.splits if_splits)

lemma keeps_capability:
  "keeps s (snd (try_adopt_run_capability run capability now s))"
  "keeps s (snd (clear_run_capability_if_matches run capability now s))"
  by (simp_all add: try_adopt_run_capability_def clear_run_capability_if_matches_def Let_def)

lemma keeps_change_adhoc: "keeps s (snd (change_adhoc agent machine P f s))"
  by (simp add: change_adhoc_def Let_def)

lemma keeps_adhoc:
  "keeps s (snd (ensure_adhoc_runtime_binding agent machine now s))"
  "keeps s (snd (bind_adhoc_runtime_scope agent machine generation scope now s))"
  "keeps s (snd (rotate_adhoc_runtime_binding agent machine generation now s))"
  unfolding ensure_adhoc_runtime_binding_def bind_adhoc_runtime_scope_def rotate_adhoc_runtime_binding_def
  by (auto simp: Let_def intro!: keeps_checked keeps_change_adhoc)

text \<open>An active assignment is released, a live run moved on.\<close>

lemma keeps_release_active:
  assumes "keeps s s'"
  shows "keeps s (update_assignments (\<lambda>a. a_id a = i \<and> a_status a = ''active'')
    (\<lambda>a. a\<lparr>a_status := ''released'', a_released_at := at, a_release_reason := reason\<rparr>) s')"
  by (rule keeps_trans [OF assms], rule keeps_update_assignments) (auto simp: row_defs)

lemma keeps_move_run:
  assumes "find_run i s = Some r" "live r" "run_moves r (f r)"
  shows "keeps s (update_runs (\<lambda>q. r_id q = i) f s)"
proof (rule keeps_update_runs)
  fix q assume "store_ok s" "q \<in> set (runs s)" "r_id q = i"
  then have "q = r" using assms(1) by (intro found_run)
  with assms(2,3) show "run_moves q (f q) \<and> (live (f q) \<longrightarrow> live q)" by simp
qed

lemma keeps_ready:
  "keeps s s' \<Longrightarrow> keeps s (update_tasks P (\<lambda>t. t\<lparr>t_state := ''ready'', t_updated_at := now\<rparr>) s')"
  by (erule keeps_trans, rule keeps_update_tasks) simp

lemma keeps_end_unmanaged_reviewer:
  assumes "find_run (r_id r) s = Some r" "live r"
  shows "keeps s (end_unmanaged_reviewer r now s)"
proof -
  let ?f = "\<lambda>q. q\<lparr>r_status := ''cancelled'', r_stop_reason := Some ''user_cancelled'', r_ended_at := Some now\<rparr>"
  have "keeps s (update_runs (\<lambda>q. r_id q = r_id r) ?f s)"
    using assms(2) by (intro keeps_move_run [OF assms]) (auto simp: row_defs)
  then show ?thesis
    unfolding end_unmanaged_reviewer_def Let_def keeps_append_event
    by (intro keeps_ready keeps_release_active)
qed

lemma keeps_request_run_cancel_tx:
  assumes "request_run_cancel_tx run now s = Inr (u, s')"
  shows "keeps s s'"
proof -
  from assms obtain r where r: "find_run run s = Some r" "r_status r \<in> {''running'', ''interrupted'', ''cancelling''}"
    and s': "s' = s \<or> s' = end_unmanaged_reviewer r now s
      \<or> s' = append_event_tx ''human'' ''local'' ''run'' run ''run.cancelling'' [(''requested_at'', PTime now)] None now
            (update_runs (\<lambda>q. r_id q = run) (\<lambda>q. q\<lparr>r_status := ''cancelling'', r_stop_reason := Some ''user_cancelled''\<rparr>) s)"
    by (auto simp: request_run_cancel_tx_def res_simps split: if_splits)
  have run: "live r" "r_id r = run" using r find_run_SomeD [OF r(1)] by (auto simp: row_defs)
  have "keeps s (end_unmanaged_reviewer r now s)" using r(1) run by (intro keeps_end_unmanaged_reviewer) simp_all
  moreover have "keeps s (update_runs (\<lambda>q. r_id q = run) (\<lambda>q. q\<lparr>r_status := ''cancelling'', r_stop_reason := Some ''user_cancelled''\<rparr>) s)"
    using run(1) by (intro keeps_move_run [OF r(1)]) (auto simp: row_defs)
  ultimately show ?thesis using s' by auto
qed

lemma keeps_terminalize_tx [simp]: "keeps s (terminalize_tx run task now s') = keeps s s'"
  by (simp add: terminalize_tx_def Let_def)

lemma terminalize_tables [simp]:
  "tasks (terminalize_tx run task now s) = tasks s" "assignments (terminalize_tx run task now s) = assignments s"
  "runs (terminalize_tx run task now s) = runs s"
  by (simp_all add: terminalize_tx_def Let_def)

lemma keeps_begin_expired_cleanup_tx:
  assumes "begin_expired_cleanup_tx run now s = Inr (u, s')"
  shows "keeps s s'"
proof (cases "s' = s")
  case False
  with assms obtain r where r: "find_run run s = Some r" "r_status r = ''interrupted''"
    and s': "s' = append_event_tx ''system'' ''launcher'' ''run'' run ''run.cleanup_pending''
          [(''reason'', PStr ''agent_restart_window_expired'')] None now
        (update_assignments (\<lambda>a. a_id a = r_assignment r \<and> a_status a = ''active'')
           (\<lambda>a. a\<lparr>a_status := ''released'', a_released_at := Some now, a_release_reason := Some ''agent_restart_window_expired''\<rparr>)
         (update_runs (\<lambda>q. r_id q = run)
           (\<lambda>q. q\<lparr>r_status := ''cleanup_pending'', r_stop_reason := Some ''agent_restart_window_expired''\<rparr>) s))"
    by (auto simp: begin_expired_cleanup_tx_def res_simps split: if_splits)
  have "keeps s (update_runs (\<lambda>q. r_id q = run)
      (\<lambda>q. q\<lparr>r_status := ''cleanup_pending'', r_stop_reason := Some ''agent_restart_window_expired''\<rparr>) s)"
    using r(2) by (intro keeps_move_run [OF r(1)]) (auto simp: row_defs)
  then show ?thesis unfolding s' keeps_append_event by (intro keeps_release_active)
qed simp

lemma final_status_Inr:
  "final_status st = Inr out \<longleftrightarrow> st = ''cleanup_pending'' \<and> out = ''failed'' \<or> st = ''cancelling'' \<and> out = ''cancelled''"
  by (auto simp: final_status_def)

lemma complete_runtime_cleanup_txE:
  assumes "complete_runtime_cleanup_tx run now s = Inr (u, s')"
  obtains r st where "find_run run s = Some r" "final_status (r_status r) = Inr st"
    "s' = append_event_tx ''system'' ''launcher'' ''run'' run (if st = ''failed'' then ''run.failed'' else ''run.cancelled'')
          [(''reason'', p_opt (r_stop_reason r))] None now
        (update_tasks (\<lambda>t. t_id t = r_task r \<and> t_state t = ''in_progress'') (\<lambda>t. t\<lparr>t_state := ''ready'', t_updated_at := now\<rparr>)
          (update_assignments (\<lambda>a. a_id a = r_assignment r \<and> a_status a = ''active'')
             (\<lambda>a. a\<lparr>a_status := ''released'', a_released_at := Some now, a_release_reason := Some st\<rparr>)
           (terminalize_tx run (r_task r) now
             (update_runs (\<lambda>q. r_id q = run) (\<lambda>q. q\<lparr>r_status := st, r_ended_at := Some now\<rparr>) s))))"
  using assms unfolding complete_runtime_cleanup_tx_def Let_def
  by (simp only: res_simps split_paired_Ex prod.case sum.inject prod.inject, elim exE conjE)
    (rule that, assumption+, (erule sym)+)

lemma keeps_complete_runtime_cleanup_tx:
  assumes "complete_runtime_cleanup_tx run now s = Inr (u, s')"
  shows "keeps s s'"
  using assms
proof (rule complete_runtime_cleanup_txE)
  fix r st
  assume r: "find_run run s = Some r" "final_status (r_status r) = Inr st"
    and s': "s' = append_event_tx ''system'' ''launcher'' ''run'' run (if st = ''failed'' then ''run.failed'' else ''run.cancelled'')
          [(''reason'', p_opt (r_stop_reason r))] None now
        (update_tasks (\<lambda>t. t_id t = r_task r \<and> t_state t = ''in_progress'') (\<lambda>t. t\<lparr>t_state := ''ready'', t_updated_at := now\<rparr>)
          (update_assignments (\<lambda>a. a_id a = r_assignment r \<and> a_status a = ''active'')
             (\<lambda>a. a\<lparr>a_status := ''released'', a_released_at := Some now, a_release_reason := Some st\<rparr>)
           (terminalize_tx run (r_task r) now
             (update_runs (\<lambda>q. r_id q = run) (\<lambda>q. q\<lparr>r_status := st, r_ended_at := Some now\<rparr>) s))))"
  let ?s1 = "terminalize_tx run (r_task r) now (update_runs (\<lambda>q. r_id q = run) (\<lambda>q. q\<lparr>r_status := st, r_ended_at := Some now\<rparr>) s)"
  have "keeps s ?s1"
    using r(2) by (auto simp: final_status_Inr intro!: keeps_move_run [OF r(1)]) (auto simp: row_defs)
  then show "keeps s s'"
    unfolding s' keeps_append_event by (intro keeps_ready keeps_release_active)
qed

lemma keeps_extend_to: "keeps s (extend_to deadline now s)"
  unfolding extend_to_def by (rule keeps_update_assignments) (auto simp: row_defs)

lemma keeps_renew_interrupted: "keeps s (snd (renew_interrupted_assignments now s))"
  by (auto simp: renew_interrupted_assignments_def Let_def intro: keeps_trans keeps_extend_to)

subsection \<open>What cancellation and cleanup do\<close>

definition executing :: "id \<Rightarrow> assignment \<Rightarrow> db \<Rightarrow> bool" where
  "executing task b s \<longleftrightarrow> b \<in> set (assignments s) \<and> a_task b = task \<and> a_role b = ''executor'' \<and> active b"

text \<open>
  A successful cancellation leaves the run cancelling when its runtime has to be stopped
  first, and cancelled with its assignment released when it is a reviewer's without a runtime; it
  never touches a task another agent executes.
\<close>

theorem cancel_effect:
  assumes "store_ok s" "request_run_cancel run now s = (Inr v, s')"
  shows "(if has_managed_runtime run s then r_status (v_run v) = ''cancelling''
      else r_status (v_run v) = ''cancelled'' \<and> r_ended_at (v_run v) = Some now
        \<and> (\<forall>a \<in> set (assignments s'). a_id a = r_assignment (v_run v) \<longrightarrow> \<not> active a))
    \<and> r_id (v_run v) = run \<and> v_run v \<in> set (runs s')
    \<and> (\<forall>task b t. executing task b s \<and> a_id b \<noteq> r_assignment (v_run v) \<and> t \<in> set (tasks s) \<and> t_id t = task
        \<longrightarrow> t \<in> set (tasks s') \<and> executing task b s')"
proof -
  from assms(2) obtain u where tx: "request_run_cancel_tx run now s = Inr (u, s')" and v: "get_run run s' = Inr v"
    by (auto simp: request_run_cancel_def commit_then_Inr)
  from v obtain q where q: "find_run run s' = Some q" "v_run v = q" by (auto simp: get_run_def res_simps row_to_run_def)
  from tx obtain r where r: "find_run run s = Some r" "r_status r \<in> {''running'', ''interrupted'', ''cancelling''}"
    by (auto simp: request_run_cancel_tx_def res_simps)
  have id: "r_id r = run" using find_run_SomeD [OF r(1)] by simp
  show ?thesis
  proof (cases "has_managed_runtime run s")
    case True
    let ?f = "\<lambda>q. q\<lparr>r_status := ''cancelling'', r_stop_reason := Some ''user_cancelled''\<rparr>"
    have s': "r_status r = ''cancelling'' \<and> s' = s \<or> runs s' = update_where (\<lambda>q. r_id q = run) ?f (runs s)
        \<and> assignments s' = assignments s \<and> tasks s' = tasks s"
      using tx r True by (auto simp: request_run_cancel_tx_def res_simps update_runs_def split: if_splits)
    then have "q = r \<and> r_status r = ''cancelling'' \<or> q = ?f r"
      using q(1) r(1) id by (auto simp: find_run_def find_update_where)
    with s' True q id show ?thesis using find_run_SomeD [OF q(1)] by (auto simp: executing_def)
  next
    case False
    with tx r have s': "s' = end_unmanaged_reviewer r now s" by (auto simp: request_run_cancel_tx_def res_simps)
    let ?f = "\<lambda>q. q\<lparr>r_status := ''cancelled'', r_stop_reason := Some ''user_cancelled'', r_ended_at := Some now\<rparr>"
    have runs: "runs s' = update_where (\<lambda>q. r_id q = run) ?f (runs s)"
      and asg: "assignments s' = update_where (\<lambda>a. a_id a = r_assignment r \<and> a_status a = ''active'')
        (\<lambda>a. a\<lparr>a_status := ''released'', a_released_at := Some now, a_release_reason := Some ''cancelled''\<rparr>) (assignments s)"
      and tasks: "tasks s' = update_where (\<lambda>t. t_id t = r_task r \<and> t_state t = ''in_progress''
          \<and> \<not> list_ex (\<lambda>a. a_task a = r_task r \<and> a_role a = ''executor'' \<and> a_status a = ''active'') (assignments s'))
        (\<lambda>t. t\<lparr>t_state := ''ready'', t_updated_at := now\<rparr>) (tasks s)"
      by (simp_all add: s' end_unmanaged_reviewer_def Let_def id update_runs_def update_assignments_def update_tasks_def)
    from q(1) r(1) id have qr: "q = ?f r" by (auto simp: find_run_def runs find_update_where)
    have kept: "executing task b s'" if "executing task b s" "a_id b \<noteq> r_assignment r" for task b
      using that by (auto simp: executing_def asg set_update_where)
    then have "t \<in> set (tasks s')" if "executing task b s" "a_id b \<noteq> r_assignment r" "t \<in> set (tasks s)" "t_id t = task" for task b t
      using that kept [OF that(1,2)] by (auto simp: tasks set_update_where executing_def list_ex_iff active_def)
    with kept False q id qr show ?thesis
      using find_run_SomeD [OF q(1)] by (auto simp: asg set_update_where active_def)
  qed
qed

text \<open>A task executed by one agent and reviewed by another, whose run has the given status and runtime.\<close>

definition example_reviewed_store :: "string \<Rightarrow> provisioning list \<Rightarrow> db" where
  "example_reviewed_store st ps = empty_db\<lparr>
     tasks := [example_task ''t'' ''in_progress''],
     agents := [example_agent ''e'', example_agent ''f''],
     assignments := [example_assignment ''ae'' ''t'' ''executor'' ''e'' ''active'' 10,
       example_assignment ''ar'' ''t'' ''reviewer'' ''f'' ''active'' 10],
     runs := [example_run ''xe'' ''t'' ''ae'' ''e'' ''running'', example_run ''xr'' ''t'' ''ar'' ''f'' st],
     provisionings := ps\<rparr>"

definition example_intent :: provisioning where
  "example_intent = \<lparr>pv_run = ''xr'', pv_subject = ''f'', pv_restart_deadline = None, pv_created_at = 0, pv_updated_at = 0\<rparr>"

lemma example_reviewed_ok: "st \<in> live_statuses \<Longrightarrow> store_ok (example_reviewed_store st ps)"
  by (auto simp add: store_ok_def core_ok_def graph_ok_def contexts_ok_def revisions_ok_def history_def deps_in_tasks_def
      dep_rel_def wf_acyclic example_reviewed_store_def example_defs task_is_def)

lemma example_executing: "executing ''t'' (example_assignment ''ae'' ''t'' ''executor'' ''e'' ''active'' 10) (example_reviewed_store st ps)"
  by (simp add: executing_def example_reviewed_store_def active_def example_assignment_def)

theorem cancel_effect_witness:
  "\<exists>v s'. request_run_cancel ''xr'' 5 (example_reviewed_store ''running'' []) = (Inr v, s') \<and> r_status (v_run v) = ''cancelled''"
proof -
  have "\<not> isl (fst (request_run_cancel ''xr'' 5 (example_reviewed_store ''running'' [])))" by code_simp
  from right_operation [OF this] obtain v s' where op: "request_run_cancel ''xr'' 5 (example_reviewed_store ''running'' []) = (Inr v, s')"
    by blast
  have "\<not> has_managed_runtime ''xr'' (example_reviewed_store ''running'' [])" by code_simp
  with cancel_effect [OF example_reviewed_ok op] op show ?thesis by (simp add: live_statuses_def)
qed

text \<open>
  C30. A completed cleanup leaves the run failed or cancelled and ended, its assignment inactive, its
  scope terminalized and its task out of progress; a second cleanup of the run is a conflict.
\<close>

theorem cleanup_effect:
  assumes "store_ok s" "complete_runtime_cleanup run now s = (Inr v, s')"
  shows "r_id (v_run v) = run \<and> r_status (v_run v) \<in> {''failed'', ''cancelled''} \<and> r_ended_at (v_run v) = Some now
    \<and> (\<forall>a \<in> set (assignments s'). a_id a = r_assignment (v_run v) \<longrightarrow> \<not> active a)
    \<and> (\<forall>b \<in> set (runtime_bindings s'). rb_run b = run \<longrightarrow> rb_terminalized_at b \<noteq> None)
    \<and> \<not> task_is (r_task (v_run v)) ''in_progress'' s'
    \<and> (\<exists>e. complete_runtime_cleanup run later s' = (Inl (Conflict e), s'))"
proof -
  from assms(2) obtain u where tx: "complete_runtime_cleanup_tx run now s = Inr (u, s')" and v: "get_run run s' = Inr v"
    by (auto simp: complete_runtime_cleanup_def commit_then_Inr)
  from v obtain q where q: "find_run run s' = Some q" "v_run v = q" by (auto simp: get_run_def res_simps row_to_run_def)
  from tx obtain r st where r: "find_run run s = Some r" "final_status (r_status r) = Inr st"
    and runs: "runs s' = update_where (\<lambda>q. r_id q = run) (\<lambda>q. q\<lparr>r_status := st, r_ended_at := Some now\<rparr>) (runs s)"
    and asg: "assignments s' = update_where (\<lambda>a. a_id a = r_assignment r \<and> a_status a = ''active'')
        (\<lambda>a. a\<lparr>a_status := ''released'', a_released_at := Some now, a_release_reason := Some st\<rparr>) (assignments s)"
    and tasks: "tasks s' = update_where (\<lambda>t. t_id t = r_task r \<and> t_state t = ''in_progress'')
        (\<lambda>t. t\<lparr>t_state := ''ready'', t_updated_at := now\<rparr>) (tasks s)"
    and scope: "runtime_bindings s' = update_where (\<lambda>b. rb_run b = run \<and> rb_terminalized_at b = None)
        (\<lambda>b. b\<lparr>rb_terminalized_at := Some now, rb_updated_at := now\<rparr>) (runtime_bindings s)"
    by (rule complete_runtime_cleanup_txE)
      (rule that, assumption+,
       simp_all add: update_tasks_def update_assignments_def terminalize_tx_def update_bindings_def append_event_tx_def update_runs_def Let_def)
  from q(1) r(1) find_run_SomeD [OF r(1)] have qr: "q = r\<lparr>r_status := st, r_ended_at := Some now\<rparr>" by (auto simp: find_run_def runs find_update_where)
  have st: "st \<in> {''failed'', ''cancelled''}" using r(2) by (auto simp: final_status_Inr)
  have again: "\<exists>e. complete_runtime_cleanup run later s' = (Inl (Conflict e), s')"
    using q(1) st by (auto simp: complete_runtime_cleanup_def complete_runtime_cleanup_tx_def commit_then_def qr final_status_def)
  from find_run_SomeD [OF q(1)] q(2) qr st again show ?thesis
    by (auto simp: asg tasks scope set_update_where task_is_def active_def)
qed

theorem cleanup_effect_witness:
  "\<exists>v s'. complete_runtime_cleanup ''xr'' 5 (example_reviewed_store ''cancelling'' [example_intent]) = (Inr v, s')
     \<and> r_ended_at (v_run v) = Some 5"
proof -
  let ?s = "example_reviewed_store ''cancelling'' [example_intent]"
  have "\<not> isl (fst (complete_runtime_cleanup ''xr'' 5 ?s))" by code_simp
  from right_operation [OF this] obtain v s' where op: "complete_runtime_cleanup ''xr'' 5 ?s = (Inr v, s')" by blast
  from cleanup_effect [OF example_reviewed_ok op] op show ?thesis by (simp add: live_statuses_def)
qed

text \<open>
  C35. Unlike a cancellation, the cleanup of a run queues its task again whoever executes it: when
  the cleaned up run was a reviewer's, the executor keeps its assignment and its runs while its task
  goes from in progress to ready.
\<close>

theorem cleanup_queues_an_executed_task:
  assumes "complete_runtime_cleanup_tx run now s = Inr (u, s')" "find_run run s = Some r"
    and "executing (r_task r) b s" "a_id b \<noteq> r_assignment r" "task_is (r_task r) ''in_progress'' s"
  shows "task_is (r_task r) ''ready'' s' \<and> \<not> task_is (r_task r) ''in_progress'' s' \<and> executing (r_task r) b s'
    \<and> (\<forall>q \<in> set (runs s). r_id q \<noteq> run \<longrightarrow> q \<in> set (runs s'))"
  using assms(1)
proof (rule complete_runtime_cleanup_txE)
  fix r2 st
  assume r2: "find_run run s = Some r2"
    and s': "s' = append_event_tx ''system'' ''launcher'' ''run'' run (if st = ''failed'' then ''run.failed'' else ''run.cancelled'')
          [(''reason'', p_opt (r_stop_reason r2))] None now
        (update_tasks (\<lambda>t. t_id t = r_task r2 \<and> t_state t = ''in_progress'') (\<lambda>t. t\<lparr>t_state := ''ready'', t_updated_at := now\<rparr>)
          (update_assignments (\<lambda>a. a_id a = r_assignment r2 \<and> a_status a = ''active'')
             (\<lambda>a. a\<lparr>a_status := ''released'', a_released_at := Some now, a_release_reason := Some st\<rparr>)
           (terminalize_tx run (r_task r2) now
             (update_runs (\<lambda>q. r_id q = run) (\<lambda>q. q\<lparr>r_status := st, r_ended_at := Some now\<rparr>) s))))"
  have "r2 = r" using r2 assms(2) by simp
  then have asg: "assignments s' = update_where (\<lambda>a. a_id a = r_assignment r \<and> a_status a = ''active'')
        (\<lambda>a. a\<lparr>a_status := ''released'', a_released_at := Some now, a_release_reason := Some st\<rparr>) (assignments s)"
    and tasks: "tasks s' = update_where (\<lambda>t. t_id t = r_task r \<and> t_state t = ''in_progress'')
        (\<lambda>t. t\<lparr>t_state := ''ready'', t_updated_at := now\<rparr>) (tasks s)"
    and runs: "runs s' = update_where (\<lambda>q. r_id q = run) (\<lambda>q. q\<lparr>r_status := st, r_ended_at := Some now\<rparr>) (runs s)"
    by (simp_all add: s' update_tasks_def update_assignments_def update_runs_def)
  from assms(5) obtain t where t: "t \<in> set (tasks s)" "t_id t = r_task r" "t_state t = ''in_progress''"
    by (auto simp: task_is_def)
  then have "t\<lparr>t_state := ''ready'', t_updated_at := now\<rparr> \<in> set (tasks s')"
    unfolding tasks using updated_row [OF t(1), of "\<lambda>t. t_id t = r_task r \<and> t_state t = ''in_progress''"
      "\<lambda>t. t\<lparr>t_state := ''ready'', t_updated_at := now\<rparr>"] by simp
  then have "task_is (r_task r) ''ready'' s'"
    unfolding task_is_def using t(2) by (intro bexI [of _ "t\<lparr>t_state := ''ready'', t_updated_at := now\<rparr>"]) simp_all
  moreover have "\<not> task_is (r_task r) ''in_progress'' s'" by (auto simp: task_is_def tasks set_update_where)
  moreover have "executing (r_task r) b s'" using assms(3,4) by (auto simp: executing_def asg set_update_where)
  ultimately show ?thesis by (auto simp: runs set_update_where)
qed

theorem cleanup_queues_an_executed_task_witness:
  "\<exists>s'. complete_runtime_cleanup_tx ''xr'' 5 (example_reviewed_store ''cancelling'' [example_intent]) = Inr ((), s')
     \<and> task_is ''t'' ''ready'' s' \<and> executing ''t'' (example_assignment ''ae'' ''t'' ''executor'' ''e'' ''active'' 10) s'"
proof -
  let ?s = "example_reviewed_store ''cancelling'' [example_intent]" and ?r = "example_run ''xr'' ''t'' ''ar'' ''f'' ''cancelling''"
  have "\<not> isl (complete_runtime_cleanup_tx ''xr'' 5 ?s)" by code_simp
  from right_result [OF this] obtain s' where tx: "complete_runtime_cleanup_tx ''xr'' 5 ?s = Inr ((), s')" by auto
  have "find_run ''xr'' ?s = Some ?r" "task_is (r_task ?r) ''in_progress'' ?s"
    by (simp_all add: find_run_def task_is_def example_reviewed_store_def example_defs)
  from cleanup_queues_an_executed_task [OF tx this(1) _ _ this(2), of "example_assignment ''ae'' ''t'' ''executor'' ''e'' ''active'' 10"]
    example_executing tx show ?thesis by (simp add: example_run_def example_assignment_def)
qed

end
