(* ===== verification/JobWaits.thy ===== *)
theory JobWaits
  imports Runtime
begin

text \<open>
  Restarts of interrupted runs (\<open>runtime.rs\<close>) and the waits of runs for jobs of their runtime
  (\<open>job_wait.rs\<close>): a run registers a wait, the terminal event of the job makes it ready and queues
  an outbox row, and the row starts the run again.
\<close>

subsection \<open>Terminal events\<close>

text \<open>\<open>RuntimeJobTerminalEvent\<close> and the older \<open>LsmJobTerminalEvent\<close>.\<close>

record job_event =
  je_id :: string
  je_job :: string
  je_machine :: string
  je_scope :: "string option"
  je_attempt :: int
  je_status :: string
  je_exit_code :: "int option"
  je_completed_at :: time
  je_reason :: string
  je_summary_ref :: "string option"
  je_result :: "json option"

record lsm_event =
  le_id :: string
  le_job :: string
  le_machine :: string
  le_session :: "string option"
  le_attempt :: int
  le_status :: string
  le_exit_code :: "int option"
  le_completed_at :: time
  le_reason :: string
  le_summary_ref :: "string option"
  le_result :: "json option"

definition from_lsm_event :: "lsm_event \<Rightarrow> job_event" where
  "from_lsm_event e =
     \<lparr>je_id = le_id e, je_job = le_job e, je_machine = le_machine e, je_scope = le_session e, je_attempt = le_attempt e,
      je_status = le_status e, je_exit_code = le_exit_code e, je_completed_at = le_completed_at e, je_reason = le_reason e,
      je_summary_ref = le_summary_ref e, je_result = le_result e\<rparr>"

definition required_text :: "string \<Rightarrow> string \<Rightarrow> nat \<Rightarrow> string res" where
  "required_text name value limit =
     (let v = trim value in
      if v = [] \<or> length v > limit then Inl (InvalidInput (name @ '' must contain 1..='' @ show_nat limit @ '' characters''))
      else Inr v)"

definition validate_terminal_event :: "job_event \<Rightarrow> unit res" where
  "validate_terminal_event e =
     bind_res (required_text ''event_id'' (je_id e) 160) (\<lambda>_.
     bind_res (required_text ''job_id'' (je_job e) 200) (\<lambda>_.
     bind_res (required_text ''source_machine'' (je_machine e) 160) (\<lambda>_.
     bind_res (required_text ''terminal_reason'' (je_reason e) 2000) (\<lambda>_.
     bind_res (ensure (\<not> je_attempt e < 1) (InvalidInput ''attempt must be positive'')) (\<lambda>_.
     ensure (je_status e \<in> {''succeeded'', ''failed'', ''stopped'', ''lost''}) (InvalidInput ''invalid terminal status''))))))"

definition stored_event :: "job_event \<Rightarrow> string \<Rightarrow> time \<Rightarrow> terminal_event" where
  "stored_event e scope now =
     \<lparr>te_id = trim (je_id e), te_job = trim (je_job e), te_machine = trim (je_machine e), te_scope = Some scope,
      te_attempt = je_attempt e, te_status = trim (je_status e), te_exit_code = je_exit_code e,
      te_completed_at = je_completed_at e, te_reason = trim (je_reason e), te_summary_ref = map_option trim (je_summary_ref e),
      te_result = je_result e, te_received_at = now\<rparr>"

subsection \<open>Waits\<close>

definition update_waits :: "(job_wait \<Rightarrow> bool) \<Rightarrow> (job_wait \<Rightarrow> job_wait) \<Rightarrow> db \<Rightarrow> db" where
  "update_waits P f s = s\<lparr>job_waits := update_where P f (job_waits s)\<rparr>"

definition matching :: "terminal_event \<Rightarrow> job_wait \<Rightarrow> bool" where
  "matching e w \<longleftrightarrow> te_machine e = jw_machine w \<and> te_job e = jw_job w \<and> te_scope e = Some (jw_scope w)"

definition resume_mode :: "terminal_event \<Rightarrow> string" where
  "resume_mode e = (if te_status e = ''lost'' then ''reconcile'' else ''continue'')"

definition wake :: "terminal_event \<Rightarrow> time \<Rightarrow> job_wait \<Rightarrow> job_wait" where
  "wake e now w =
     w\<lparr>jw_status := ''ready'', jw_resume_mode := Some (resume_mode e), jw_event := Some (te_id e),
       jw_terminal_status := Some (te_status e), jw_terminal_reason := Some (te_reason e), jw_ready_at := Some now\<rparr>"

definition activate_wait_tx :: "id \<Rightarrow> id \<Rightarrow> string \<Rightarrow> id \<Rightarrow> time \<Rightarrow> db \<Rightarrow> db res" where
  "activate_wait_tx wait run event fresh now s =
     bind_res (ok_or no_rows (find (\<lambda>e. te_id e = event) (terminal_events s))) (\<lambda>e.
     let P = (\<lambda>w. jw_id w = wait \<and> jw_status w = ''pending''); s1 = update_waits P (wake e now) s in
     if rows_affected P (job_waits s) \<noteq> 1 then Inr s1
     else bind_res (ok_or no_rows (find_run run s1)) (\<lambda>r.
       if list_ex (\<lambda>b. ob_id b = fresh) (outbox s1) then Inl (storage PrimaryKeyViolation)
       else Inr (append_event_tx ''system'' ''runtime-event-ingest'' ''run'' run
         (if resume_mode e = ''reconcile'' then ''run.job_wait_reconciliation_ready'' else ''run.job_wait_ready'')
         [(''task_id'', PStr (r_task r)), (''wait_id'', PStr wait), (''event_id'', PStr event),
          (''terminal_status'', PStr (te_status e)), (''terminal_reason'', PStr (te_reason e))] None now
         (s1\<lparr>outbox := outbox s1 @ [\<lparr>ob_id = fresh, ob_topic = ''run.wait_resume'', ob_wait = Some wait,
            ob_payload = [(''wait_id'', PStr wait), (''run_id'', PStr run), (''event_id'', PStr event),
              (''resume_mode'', PStr (resume_mode e))],
            ob_status = ''pending'', ob_created_at = now, ob_delivered_at = None\<rparr>]\<rparr>))))"

definition active_wait :: "job_wait \<Rightarrow> bool" where
  "active_wait w \<longleftrightarrow> jw_status w = ''pending'' \<or> jw_status w = ''ready''"

text \<open>A wait with the summary and the result of its terminal event.\<close>

record wait_view =
  wv_wait :: job_wait
  wv_summary_ref :: "string option"
  wv_result :: "json option"

definition row_to_run_job_wait :: "db \<Rightarrow> job_wait \<Rightarrow> wait_view" where
  "row_to_run_job_wait s w =
     (let e = Option.bind (jw_event w) (\<lambda>i. find (\<lambda>e. te_id e = i) (terminal_events s))
      in \<lparr>wv_wait = w, wv_summary_ref = Option.bind e te_summary_ref, wv_result = Option.bind e te_result\<rparr>)"

definition get_run_job_wait :: "id \<Rightarrow> db \<Rightarrow> wait_view res" where
  "get_run_job_wait i s =
     bind_res (ok_or (NotFound (''run job wait '' @ i)) (find (\<lambda>w. jw_id w = i) (job_waits s)))
       (\<lambda>w. Inr (row_to_run_job_wait s w))"

definition latest_run_job_wait :: "id \<Rightarrow> db \<Rightarrow> wait_view option" where
  "latest_run_job_wait run s =
     map_option (row_to_run_job_wait s)
       (last_max (\<lambda>w. (jw_registered_at w, jw_id w)) (filter (\<lambda>w. jw_run w = run) (job_waits s)))"

definition run_job_wait_for_launch :: "id \<Rightarrow> id \<Rightarrow> db \<Rightarrow> wait_view option" where
  "run_job_wait_for_launch run attempt s =
     map_option (row_to_run_job_wait s) (find (\<lambda>w. jw_run w = run \<and> jw_resume_attempt w = Some attempt) (job_waits s))"

subsection \<open>Registering a wait\<close>

record wait_input =
  wi_run :: id
  wi_machine :: string
  wi_job :: string
  wi_plan :: string
  wi_reason :: string

definition checked_wait :: "wait_input \<Rightarrow> wait_input res" where
  "checked_wait i =
     bind_res (required_text ''source_machine'' (wi_machine i) 160) (\<lambda>machine.
     bind_res (required_text ''job_id'' (wi_job i) 200) (\<lambda>job.
     bind_res (required_text ''resume_plan'' (wi_plan i) 4000) (\<lambda>plan.
     bind_res (required_text ''reason'' (wi_reason i) 2000) (\<lambda>reason.
     Inr \<lparr>wi_run = wi_run i, wi_machine = machine, wi_job = job, wi_plan = plan, wi_reason = reason\<rparr>))))"

text \<open>\<open>INSERT INTO run_job_waits\<close> under \<open>idx_one_active_run_job_wait\<close>.\<close>

definition insert_job_wait :: "job_wait \<Rightarrow> db \<Rightarrow> sql_error + db" where
  "insert_job_wait w s =
     (if list_ex (\<lambda>v. jw_id v = jw_id w) (job_waits s) then Inl PrimaryKeyViolation
      else if active_wait w \<and> list_ex (\<lambda>v. jw_run v = jw_run w \<and> active_wait v) (job_waits s) then Inl UniqueViolation
      else if find_run (jw_run w) s = None then Inl ForeignKeyViolation
      else Inr (s\<lparr>job_waits := job_waits s @ [w]\<rparr>))"

definition new_wait :: "wait_input \<Rightarrow> string \<Rightarrow> id \<Rightarrow> time \<Rightarrow> job_wait" where
  "new_wait i scope fresh now =
     \<lparr>jw_id = fresh, jw_run = wi_run i, jw_machine = wi_machine i, jw_job = wi_job i, jw_scope = scope, jw_status = ''pending'',
      jw_resume_mode = None, jw_resume_plan = wi_plan i, jw_reason = wi_reason i, jw_event = None, jw_terminal_status = None,
      jw_terminal_reason = None, jw_resume_attempt = None, jw_registered_at = now, jw_ready_at = None, jw_queued_at = None\<rparr>"

definition store_wait_tx :: "run \<Rightarrow> job_wait \<Rightarrow> id \<Rightarrow> id \<Rightarrow> time \<Rightarrow> db \<Rightarrow> db res" where
  "store_wait_tx r w actor fresh' now s =
     bind_res (exec (insert_job_wait w s)) (\<lambda>s1.
     let s2 = update_runs (\<lambda>q. r_id q = jw_run w) (\<lambda>q. q\<lparr>r_stop_reason := Some ''waiting_for_runtime_job''\<rparr>) s1 in
     bind_res (case last_max (\<lambda>e. (te_completed_at e, te_id e)) (filter (\<lambda>e. matching e w) (terminal_events s2)) of
         None \<Rightarrow> Inr s2
       | Some e \<Rightarrow> activate_wait_tx (jw_id w) (jw_run w) (te_id e) fresh' now s2) (\<lambda>s3.
     Inr (append_event_tx ''agent_instance'' actor ''run'' (jw_run w) ''run.job_wait_registered''
       [(''task_id'', PStr (r_task r)), (''wait_id'', PStr (jw_id w)), (''source_machine'', PStr (jw_machine w)),
        (''job_id'', PStr (jw_job w)), (''runtime_scope_id'', PStr (jw_scope w)), (''resume_plan'', PStr (jw_resume_plan w)),
        (''reason'', PStr (jw_reason w))] None now s3)))"

definition register_run_job_wait_tx :: "wait_input \<Rightarrow> id \<Rightarrow> id \<Rightarrow> id \<Rightarrow> time \<Rightarrow> (db, id) tx" where
  "register_run_job_wait_tx i actor fresh fresh' now s =
     bind_res (ok_or (NotFound (''run '' @ wi_run i)) (find_run (wi_run i) s)) (\<lambda>r.
     bind_res (ensure (r_agent r = actor) (Conflict ''Run belongs to another AgentInstance'')) (\<lambda>_.
     bind_res (ensure (r_status r = ''running'') (Conflict (''run is '' @ r_status r))) (\<lambda>_.
     bind_res (ok_or (Conflict ''Run has no active managed runtime binding'') (run_runtime_binding (wi_run i) s)) (\<lambda>b.
     case find (\<lambda>w. jw_run w = wi_run i \<and> active_wait w) (job_waits s) of
       Some w \<Rightarrow> bind_res (ensure (jw_machine w = wi_machine i \<and> jw_job w = wi_job i \<and> jw_scope w = rb_scope b)
           (Conflict ''Run already has a different active job wait'')) (\<lambda>_. Inr (jw_id w, s))
     | None \<Rightarrow> bind_res (store_wait_tx r (new_wait i (rb_scope b) fresh now) actor fresh' now s) (\<lambda>s1. Inr (fresh, s1))))))"

definition register_run_job_wait :: "wait_input \<Rightarrow> id \<Rightarrow> id \<Rightarrow> id \<Rightarrow> time \<Rightarrow> (db, wait_view) operation" where
  "register_run_job_wait i actor fresh fresh' now =
     checked (\<lambda>_. checked_wait i) (\<lambda>i. commit_then (register_run_job_wait_tx i actor fresh fresh' now) get_run_job_wait)"

subsection \<open>Receiving a terminal event\<close>

text \<open>The ids of the outbox rows come from a supply, one for every waiting run.\<close>

fun activate_waits :: "job_wait list \<Rightarrow> string \<Rightarrow> id list \<Rightarrow> time \<Rightarrow> db \<Rightarrow> db res" where
  "activate_waits [] event ids now s = Inr s"
| "activate_waits (w # ws) event ids now s =
     bind_res (activate_wait_tx (jw_id w) (jw_run w) event (case ids of [] \<Rightarrow> [] | i # _ \<Rightarrow> i) now s)
       (activate_waits ws event (tl ids) now)"

definition ingest_event_tx :: "job_event \<Rightarrow> id list \<Rightarrow> time \<Rightarrow> (db, bool) tx" where
  "ingest_event_tx e ids now s =
     (case je_scope e of
        None \<Rightarrow> Inr (False, s)
      | Some raw \<Rightarrow>
          let scope = trim raw; t = stored_event e scope now in
          if scope = [] \<or> \<not> list_ex (\<lambda>b. rb_scope b = scope) (runtime_bindings s) then Inr (False, s)
          else if list_ex (\<lambda>u. te_id u = te_id t) (terminal_events s) then Inr (False, s)
          else bind_res (activate_waits (filter (\<lambda>w. matching t w \<and> jw_status w = ''pending'') (job_waits s))
              (te_id t) ids now (s\<lparr>terminal_events := terminal_events s @ [t]\<rparr>)) (\<lambda>s1. Inr (True, s1)))"

definition ingest_runtime_job_terminal_event :: "job_event \<Rightarrow> id list \<Rightarrow> time \<Rightarrow> (db, bool) operation" where
  "ingest_runtime_job_terminal_event e ids now =
     checked (\<lambda>_. validate_terminal_event e) (\<lambda>_. commit (ingest_event_tx e ids now))"

definition ingest_lsm_job_terminal_event :: "lsm_event \<Rightarrow> id list \<Rightarrow> time \<Rightarrow> (db, bool) operation" where
  "ingest_lsm_job_terminal_event e = ingest_runtime_job_terminal_event (from_lsm_event e)"

subsection \<open>Restarting an interrupted run\<close>

definition insert_job :: "job_row \<Rightarrow> db \<Rightarrow> sql_error + db" where
  "insert_job j s =
     (if list_ex (\<lambda>k. jb_id k = jb_id j) (jobs s) then Inl PrimaryKeyViolation
      else Inr (s\<lparr>jobs := jobs s @ [j]\<rparr>))"

text \<open>
  \<open>INSERT INTO launch_attempts\<close> under its foreign keys and the unique indexes
  \<open>idx_launch_attempt_active_assignment\<close> and \<open>idx_launch_attempt_job\<close>.
\<close>

definition insert_launch_attempt :: "launch_attempt \<Rightarrow> db \<Rightarrow> sql_error + db" where
  "insert_launch_attempt l s =
     (if list_ex (\<lambda>m. la_id m = la_id l) (launch_attempts s) then Inl PrimaryKeyViolation
      else if open_attempt l \<and> list_ex (\<lambda>m. la_assignment m = la_assignment l \<and> open_attempt m) (launch_attempts s)
        \<or> la_job l \<noteq> None \<and> list_ex (\<lambda>m. la_job m = la_job l) (launch_attempts s)
      then Inl UniqueViolation
      else if find_assignment (la_assignment l) s = None \<or> find_task (la_task l) s = None \<or> find_agent (la_agent l) s = None
        \<or> \<not> list_ex (\<lambda>p. lp_id p = la_profile l) (launch_profiles s)
        \<or> (case la_job l of None \<Rightarrow> False | Some j \<Rightarrow> \<not> list_ex (\<lambda>k. jb_id k = j) (jobs s))
        \<or> (case la_resume_from l of None \<Rightarrow> False | Some i \<Rightarrow> \<not> list_ex (\<lambda>m. la_id m = i) (launch_attempts s))
        \<or> (case la_restart_run l of None \<Rightarrow> False | Some i \<Rightarrow> find_run i s = None)
        \<or> (case la_run l of None \<Rightarrow> False | Some i \<Rightarrow> find_run i s = None)
      then Inl ForeignKeyViolation
      else Inr (s\<lparr>launch_attempts := launch_attempts s @ [l]\<rparr>))"

text \<open>
  The deadline of a restart: a wait gives the run a new window of \<open>grace\<close> seconds and extends its
  lease, everybody else uses the window the run has.
\<close>

definition restart_window_tx :: "run \<Rightarrow> bool \<Rightarrow> int \<Rightarrow> time \<Rightarrow> (db, time) tx" where
  "restart_window_tx r waited grace now s =
     (if waited then
        let deadline = now + grace;
            s1 = update_bindings (\<lambda>b. rb_run b = r_id r) (\<lambda>b. b\<lparr>rb_restart_deadline := Some deadline, rb_updated_at := now\<rparr>) s
        in Inr (deadline, update_assignments (\<lambda>a. a_id a = r_assignment r \<and> a_status a = ''active'')
             (\<lambda>a. a\<lparr>a_expires_at := max (a_expires_at a) deadline, a_renewed_at := now\<rparr>) s1)
      else bind_res (ok_or (Conflict ''Run has no restart deadline'')
             (Option.bind (run_runtime_binding (r_id r) s) rb_restart_deadline)) (\<lambda>d. Inr (d, s)))"

definition restart_attempt :: "run \<Rightarrow> launch_attempt \<Rightarrow> id \<Rightarrow> id \<Rightarrow> time \<Rightarrow> launch_attempt" where
  "restart_attempt r previous attempt job now =
     \<lparr>la_id = attempt, la_assignment = r_assignment r, la_task = r_task r, la_agent = r_agent r, la_profile = la_profile previous,
      la_run = None, la_job = Some job, la_resume_from = map_option (\<lambda>_. la_id previous) (r_conversation r),
      la_restart_run = Some (r_id r), la_status = ''queued'', la_cwd = la_cwd previous, la_pid = None,
      la_exit_code = None, la_stdout = None, la_stderr = None, la_error = None, la_created_at = now, la_started_at = None,
      la_ended_at = None\<rparr>"

definition queue_wait_tx :: "id \<Rightarrow> id \<Rightarrow> time \<Rightarrow> db \<Rightarrow> db res" where
  "queue_wait_tx box attempt now s =
     bind_res (ok_or (Conflict ''wait resume is no longer pending'')
       (find (\<lambda>b. ob_id b = box \<and> ob_topic b = ''run.wait_resume'' \<and> ob_status b = ''pending'') (outbox s))) (\<lambda>b.
     let s1 = update_waits (\<lambda>w. ob_wait b = Some (jw_id w) \<and> jw_status w = ''ready'')
           (\<lambda>w. w\<lparr>jw_status := ''queued'', jw_queued_at := Some now, jw_resume_attempt := Some attempt\<rparr>) s in
     Inr (s1\<lparr>outbox := update_where (\<lambda>c. ob_id c = box \<and> ob_status c = ''pending'')
       (\<lambda>c. c\<lparr>ob_status := ''delivered'', ob_delivered_at := Some now\<rparr>) (outbox s1)\<rparr>))"

definition insert_restart_tx :: "run \<Rightarrow> launch_attempt \<Rightarrow> id \<Rightarrow> id \<Rightarrow> time \<Rightarrow> db \<Rightarrow> db res" where
  "insert_restart_tx r previous attempt job now s =
     bind_res (exec (insert_job \<lparr>jb_id = job, jb_kind = ''launch_executor'', jb_attempt = attempt, jb_status = ''pending'',
       jb_available_at = now, jb_claimed_at = None, jb_attempts = 0, jb_last_error = None, jb_created_at = now\<rparr> s)) (\<lambda>s1.
     exec (insert_launch_attempt (restart_attempt r previous attempt job now) s1))"

definition enqueue_run_restart_tx ::
  "id \<Rightarrow> string \<Rightarrow> string \<Rightarrow> string \<Rightarrow> id option \<Rightarrow> int \<Rightarrow> id \<Rightarrow> id \<Rightarrow> time \<Rightarrow> (db, id) tx" where
  "enqueue_run_restart_tx run actor_type actor event_type box grace attempt job now s =
     bind_res (ok_or (NotFound (''run '' @ run)) (find_run run s)) (\<lambda>r.
     bind_res (ensure (r_status r = ''interrupted'') (Conflict (''run is '' @ r_status r))) (\<lambda>_.
     bind_res (restart_window_tx r (box \<noteq> None) grace now s) (\<lambda>(deadline, s1).
     bind_res (ensure (\<not> deadline \<le> now) (Conflict ''Run restart window has expired'')) (\<lambda>_.
     bind_res (ensure (list_ex (\<lambda>a. a_id a = r_assignment r \<and> a_status a = ''active'' \<and> now < a_expires_at a) (assignments s1))
       (Conflict ''Run Assignment is not active'')) (\<lambda>_.
     bind_res (ensure (\<not> list_ex (\<lambda>l. la_run l = Some run \<and> la_status l \<in> {''queued'', ''starting'', ''running''}) (launch_attempts s1))
       (Conflict ''Run already has an active launch attempt'')) (\<lambda>_.
     bind_res (ok_or (Conflict ''Run has no launch attempt'')
       (last_max (\<lambda>l. (la_created_at l, la_id l)) (filter (\<lambda>l. la_run l = Some run) (launch_attempts s1)))) (\<lambda>previous.
     bind_res (insert_restart_tx r previous attempt job now s1) (\<lambda>s2.
     let s3 = append_event_tx actor_type actor ''run'' run event_type [(''launch_attempt_id'', PStr attempt)] None now s2 in
     bind_res (case box of None \<Rightarrow> Inr s3 | Some b \<Rightarrow> queue_wait_tx b attempt now s3) (\<lambda>s4.
     Inr (attempt, s4))))))))))"

definition get_launch_attempt :: "id \<Rightarrow> db \<Rightarrow> launch_attempt res" where
  "get_launch_attempt i s = ok_or (NotFound (''launch attempt '' @ i)) (find (\<lambda>l. la_id l = i) (launch_attempts s))"

definition enqueue_run_restart :: "id \<Rightarrow> int \<Rightarrow> id \<Rightarrow> id \<Rightarrow> time \<Rightarrow> (db, launch_attempt) operation" where
  "enqueue_run_restart run grace attempt job now =
     commit_then (enqueue_run_restart_tx run ''human'' ''local'' ''run.restart_requested'' None grace attempt job now) get_launch_attempt"

definition enqueue_run_delivery_resume :: "id \<Rightarrow> int \<Rightarrow> id \<Rightarrow> id \<Rightarrow> time \<Rightarrow> (db, launch_attempt) operation" where
  "enqueue_run_delivery_resume run grace attempt job now =
     commit_then (enqueue_run_restart_tx run ''system'' ''delivery'' ''run.delivery_resume_requested'' None grace attempt job now)
       get_launch_attempt"

text \<open>The run an outbox row is to wake: its wait is ready.\<close>

definition resumed_run :: "id \<Rightarrow> db \<Rightarrow> id res" where
  "resumed_run box s =
     bind_res (ok_or (Conflict ''wait resume is no longer pending'')
       (Option.bind (find (\<lambda>b. ob_id b = box \<and> ob_topic b = ''run.wait_resume'' \<and> ob_status b = ''pending'') (outbox s)) (\<lambda>b.
        find (\<lambda>w. ob_wait b = Some (jw_id w) \<and> jw_status w = ''ready'') (job_waits s)))) (\<lambda>w. Inr (jw_run w))"

definition enqueue_run_job_wait_resume :: "id \<Rightarrow> int \<Rightarrow> id \<Rightarrow> id \<Rightarrow> time \<Rightarrow> (db, launch_attempt) operation" where
  "enqueue_run_job_wait_resume box grace attempt job now =
     checked (resumed_run box) (\<lambda>run.
       commit_then (enqueue_run_restart_tx run ''system'' ''runtime-job-event'' ''run.job_wait_resume_requested'' (Some box)
         grace attempt job now) get_launch_attempt)"

definition run_job_wait_resume_candidates :: "db \<Rightarrow> id list" where
  "run_job_wait_resume_candidates s =
     map ob_id (sort_key (\<lambda>b. (ob_created_at b, ob_id b)) (filter (\<lambda>b. ob_topic b = ''run.wait_resume'' \<and> ob_status b = ''pending''
       \<and> list_ex (\<lambda>w. ob_wait b = Some (jw_id w) \<and> jw_status w = ''ready''
            \<and> list_ex (\<lambda>r. r_id r = jw_run w \<and> r_status r = ''interrupted'') (runs s)
            \<and> \<not> list_ex (\<lambda>l. la_run l = Some (jw_run w) \<and> la_status l \<in> {''queued'', ''starting'', ''running''}) (launch_attempts s))
          (job_waits s)) (outbox s)))"

subsection \<open>Waking waits\<close>

lemma update_waits_tables [simp]:
  "tasks (update_waits P f s) = tasks s" "assignments (update_waits P f s) = assignments s" "runs (update_waits P f s) = runs s"
  "terminal_events (update_waits P f s) = terminal_events s" "outbox (update_waits P f s) = outbox s"
  "runtime_bindings (update_waits P f s) = runtime_bindings s" "job_waits (update_waits P f s) = update_where P f (job_waits s)"
  by (simp_all add: update_waits_def)

lemma keeps_update_waits [simp]: "keeps s (update_waits P f s') = keeps s s'"
  by (simp add: update_waits_def)

lemma wake_columns [simp]:
  "jw_id (wake e now w) = jw_id w" "jw_run (wake e now w) = jw_run w" "jw_status (wake e now w) = ''ready''"
  "matching u (wake e now w) = matching u w" "active_wait (wake e now w)"
  by (simp_all add: wake_def matching_def active_wait_def)

definition resume_row :: "id \<Rightarrow> outbox_row \<Rightarrow> bool" where
  "resume_row wait b \<longleftrightarrow> ob_topic b = ''run.wait_resume'' \<and> ob_status b = ''pending'' \<and> ob_wait b = Some wait"

text \<open>Every ready wait has its outbox row.\<close>

definition resumes_queued :: "db \<Rightarrow> bool" where
  "resumes_queued s \<longleftrightarrow>
     distinct (map ob_id (outbox s))
     \<and> (\<forall>w \<in> set (job_waits s). jw_status w = ''ready'' \<longrightarrow> (\<exists>b \<in> set (outbox s). resume_row (jw_id w) b))"

lemma find_only:
  assumes "x \<in> set xs" "P x" "\<And>y. y \<in> set xs \<Longrightarrow> P y \<Longrightarrow> y = x"
  shows "find P xs = Some x"
proof (cases "find P xs")
  case None
  then show ?thesis using assms(1,2) by (auto simp: find_None_iff)
next
  case (Some y)
  with find_Some_in [OF this] assms(3) show ?thesis by auto
qed

lemma find_fresh: "x \<notin> k ` set rows \<Longrightarrow> find (\<lambda>r. k r = x) rows = None"
  by (auto simp: find_None_iff)

lemma update_where_unmatched: "(\<And>r. r \<in> set rows \<Longrightarrow> \<not> P r) \<Longrightarrow> update_where P f rows = rows"
  by (induction rows) (auto simp: update_where_def)

lemma activate_wait_tx_effect:
  assumes "activate_wait_tx wait run event fresh now s = Inr s'" "find (\<lambda>e. te_id e = event) (terminal_events s) = Some e"
    and "distinct (map jw_id (job_waits s))"
  shows "job_waits s' = update_where (\<lambda>w. jw_id w = wait \<and> jw_status w = ''pending'') (wake e now) (job_waits s)"
    "terminal_events s' = terminal_events s" "runs s' = runs s" "keeps s s'" "resumes_queued s \<Longrightarrow> resumes_queued s'"
    "runtime_bindings s' = runtime_bindings s"
proof -
  let ?P = "\<lambda>w. jw_id w = wait \<and> jw_status w = ''pending''"
  let ?s1 = "update_waits ?P (wake e now) s"
  have cases: "(rows_affected ?P (job_waits s) \<noteq> 1 \<and> s' = ?s1)
      \<or> (\<exists>b. outbox s' = outbox s @ [b] \<and> ob_id b \<notin> ob_id ` set (outbox s) \<and> resume_row wait b
          \<and> job_waits s' = job_waits ?s1 \<and> terminal_events s' = terminal_events s \<and> runs s' = runs s \<and> keeps s s'
          \<and> runtime_bindings s' = runtime_bindings s)"
    using assms(1,2)
    by (auto simp: activate_wait_tx_def res_simps Let_def append_event_tx_def resume_row_def list_ex_iff split: if_splits)
  then show "job_waits s' = update_where ?P (wake e now) (job_waits s)"
    "terminal_events s' = terminal_events s" "runs s' = runs s" "keeps s s'" "runtime_bindings s' = runtime_bindings s"
    by auto
  assume ok: "resumes_queued s"
  from cases show "resumes_queued s'"
  proof
    assume "rows_affected ?P (job_waits s) \<noteq> 1 \<and> s' = ?s1"
    moreover from this have "\<not> ?P w" if "w \<in> set (job_waits s)" for w
      using one_row [OF assms(3) that, of "\<lambda>w. jw_status w = ''pending''"] by auto
    ultimately show ?thesis using ok by (simp add: resumes_queued_def update_where_unmatched)
  next
    assume "\<exists>b. outbox s' = outbox s @ [b] \<and> ob_id b \<notin> ob_id ` set (outbox s) \<and> resume_row wait b
          \<and> job_waits s' = job_waits ?s1 \<and> terminal_events s' = terminal_events s \<and> runs s' = runs s \<and> keeps s s'
          \<and> runtime_bindings s' = runtime_bindings s"
    then show ?thesis using ok by (auto simp: resumes_queued_def set_update_where)
  qed
qed

lemma activate_waits_effect:
  assumes "activate_waits ws event ids now s = Inr s'" "find (\<lambda>e. te_id e = event) (terminal_events s) = Some e"
    and "distinct (map jw_id (job_waits s))"
  shows "job_waits s' = update_where (\<lambda>w. jw_id w \<in> jw_id ` set ws \<and> jw_status w = ''pending'') (wake e now) (job_waits s)
    \<and> terminal_events s' = terminal_events s \<and> runs s' = runs s \<and> keeps s s' \<and> (resumes_queued s \<longrightarrow> resumes_queued s')
    \<and> runtime_bindings s' = runtime_bindings s"
  using assms
proof (induction ws arbitrary: ids s)
  case Nil
  then show ?case by (simp add: update_where_unmatched)
next
  case (Cons w ws)
  from Cons.prems(1) obtain s1 where first: "activate_wait_tx (jw_id w) (jw_run w) event (case ids of [] \<Rightarrow> [] | i # _ \<Rightarrow> i) now s = Inr s1"
    and rest: "activate_waits ws event (tl ids) now s1 = Inr s'"
    by (auto simp: res_simps)
  note one = activate_wait_tx_effect [OF first Cons.prems(2,3)]
  have "distinct (map jw_id (job_waits s1))"
    using Cons.prems(3) unfolding one(1) by (simp add: map_update_where)
  with one(2) Cons.prems(2) Cons.IH [OF rest] have step:
    "job_waits s' = update_where (\<lambda>v. jw_id v \<in> jw_id ` set ws \<and> jw_status v = ''pending'') (wake e now) (job_waits s1)"
    "terminal_events s' = terminal_events s1" "runs s' = runs s1" "keeps s1 s'" "resumes_queued s1 \<longrightarrow> resumes_queued s'"
    "runtime_bindings s' = runtime_bindings s1"
    by simp_all
  have "job_waits s' = update_where (\<lambda>v. jw_id v \<in> jw_id ` set (w # ws) \<and> jw_status v = ''pending'') (wake e now) (job_waits s)"
    unfolding step(1) one(1) by (auto simp: update_where_def)
  with step(2-6) one(2-6) show ?case by (auto intro: keeps_trans)
qed

text \<open>
  No lost wake-up: a wait still pending has no terminal event, a ready one its outbox row, and a run
  waits for one job at a time.
\<close>

definition waits_ok :: "db \<Rightarrow> bool" where
  "waits_ok s \<longleftrightarrow>
     distinct (map jw_id (job_waits s))
     \<and> distinct (map jw_run (filter active_wait (job_waits s)))
     \<and> distinct (map te_id (terminal_events s))
     \<and> (\<forall>w \<in> set (job_waits s). jw_status w = ''pending'' \<longrightarrow> (\<forall>e \<in> set (terminal_events s). \<not> matching e w))
     \<and> resumes_queued s"

lemma woken_waits:
  assumes "distinct (map jw_id ws)" "distinct (map jw_run (filter active_wait ws))"
  shows "distinct (map jw_id (update_where P (wake e now) ws))"
    "(\<And>w. P w \<Longrightarrow> active_wait w) \<Longrightarrow> distinct (map jw_run (filter active_wait (update_where P (wake e now) ws)))"
proof -
  show "distinct (map jw_id (update_where P (wake e now) ws))" using assms(1) by (simp add: map_update_where)
  assume "\<And>w. P w \<Longrightarrow> active_wait w"
  then have "map jw_run (filter active_wait (update_where P (wake e now) ws)) = map jw_run (filter active_wait ws)"
    by (induction ws) (auto simp: update_where_def)
  with assms(2) show "distinct (map jw_run (filter active_wait (update_where P (wake e now) ws)))" by simp
qed

lemma ingest_event_txE:
  assumes "ingest_event_tx e ids now s = Inr (new, s')" "waits_ok s"
  obtains "\<not> new" "s' = s"
      "\<And>u js. runtime_bindings u = runtime_bindings s \<Longrightarrow> terminal_events u = terminal_events s \<Longrightarrow> ingest_event_tx e js now u = Inr (new, u)"
  | raw where new "je_scope e = Some raw" "te_id (stored_event e (trim raw) now) \<notin> te_id ` set (terminal_events s)"
      "job_waits s' = update_where (\<lambda>w. matching (stored_event e (trim raw) now) w \<and> jw_status w = ''pending'')
         (wake (stored_event e (trim raw) now) now) (job_waits s)"
      "terminal_events s' = terminal_events s @ [stored_event e (trim raw) now]" "runs s' = runs s" "keeps s s'" "resumes_queued s'"
      "runtime_bindings s' = runtime_bindings s"
proof (cases new)
  case False
  with assms(1) have "s' = s" by (auto simp: ingest_event_tx_def res_simps Let_def split: option.splits if_splits)
  moreover have "ingest_event_tx e js now u = Inr (new, u)"
    if "runtime_bindings u = runtime_bindings s" "terminal_events u = terminal_events s" for u js
    using assms(1) False that by (auto simp: ingest_event_tx_def res_simps Let_def split: option.splits if_splits)
  ultimately show thesis using that(1) False by blast
next
  case True
  then obtain raw where raw: "je_scope e = Some raw"
    using assms(1) by (auto simp: ingest_event_tx_def split: option.splits)
  let ?t = "stored_event e (trim raw) now"
  let ?s = "s\<lparr>terminal_events := terminal_events s @ [?t]\<rparr>"
  let ?ws = "filter (\<lambda>w. matching ?t w \<and> jw_status w = ''pending'') (job_waits s)"
  from assms(1) True raw have fresh: "te_id ?t \<notin> te_id ` set (terminal_events s)"
    and act: "activate_waits ?ws (te_id ?t) ids now ?s = Inr s'"
    by (auto simp: ingest_event_tx_def Let_def res_simps list_ex_iff split: if_splits)
  have "find (\<lambda>u. te_id u = te_id ?t) (terminal_events s) = None" using fresh by (rule find_fresh)
  then have found: "find (\<lambda>u. te_id u = te_id ?t) (terminal_events ?s) = Some ?t" by (simp add: find_append)
  have dist: "distinct (map jw_id (job_waits ?s))" using assms(2) by (simp add: waits_ok_def)
  note rows = activate_waits_effect [OF act found dist]
  have "jw_id v \<in> jw_id ` set ?ws \<and> jw_status v = ''pending'' \<longleftrightarrow> matching ?t v \<and> jw_status v = ''pending''"
    if "v \<in> set (job_waits s)" for v
    using distinct_map_inj [of jw_id "job_waits s" v] that dist by auto
  then have "job_waits s' = update_where (\<lambda>w. matching ?t w \<and> jw_status w = ''pending'') (wake ?t now) (job_waits s)"
    using rows by (simp add: update_where_def)
  moreover have "keeps s s'" using rows keeps_trans [of s ?s s'] by simp
  moreover have "resumes_queued s'" using rows assms(2) by (simp add: waits_ok_def resumes_queued_def)
  ultimately show thesis using that(2) [OF True raw fresh] rows by simp
qed

lemma ingest_event_tx_ok:
  assumes "waits_ok s" "ingest_event_tx e ids now s = Inr (new, s')"
  shows "waits_ok s'" "keeps s s'"
proof -
  from assms(2,1) have "waits_ok s' \<and> keeps s s'"
  proof (cases rule: ingest_event_txE)
    case 1
    with assms(1) show ?thesis by simp
  next
    case (2 raw)
    let ?t = "stored_event e (trim raw) now"
    let ?P = "\<lambda>w. matching ?t w \<and> jw_status w = ''pending''"
    have "distinct (map te_id (terminal_events s'))" using assms(1) 2 by (simp add: waits_ok_def)
    moreover have "distinct (map jw_id (job_waits s'))" "distinct (map jw_run (filter active_wait (job_waits s')))"
      unfolding 2(4) using assms(1) by (auto intro!: woken_waits simp: waits_ok_def active_wait_def)
    moreover have "\<not> matching u w" if "w \<in> set (job_waits s')" "jw_status w = ''pending''" "u \<in> set (terminal_events s')" for w u
    proof -
      from that(1,2) have "w \<in> set (job_waits s)" "\<not> ?P w" by (auto simp: 2(4) set_update_where split: if_splits)
      with that(2,3) assms(1) show ?thesis by (auto simp: 2(5) waits_ok_def)
    qed
    ultimately show ?thesis using 2 by (simp add: waits_ok_def)
  qed
  then show "waits_ok s'" "keeps s s'" by simp_all
qed

lemma store_wait_txE:
  assumes "store_wait_tx r w actor fresh now s = Inr s'"
  obtains s1 s3 where "insert_job_wait w s = Inr s1"
    "(case last_max (\<lambda>e. (te_completed_at e, te_id e)) (filter (\<lambda>e. matching e w) (terminal_events
        (update_runs (\<lambda>q. r_id q = jw_run w) (\<lambda>q. q\<lparr>r_stop_reason := Some ''waiting_for_runtime_job''\<rparr>) s1))) of
         None \<Rightarrow> Inr (update_runs (\<lambda>q. r_id q = jw_run w) (\<lambda>q. q\<lparr>r_stop_reason := Some ''waiting_for_runtime_job''\<rparr>) s1)
       | Some e \<Rightarrow> activate_wait_tx (jw_id w) (jw_run w) (te_id e) fresh now
           (update_runs (\<lambda>q. r_id q = jw_run w) (\<lambda>q. q\<lparr>r_stop_reason := Some ''waiting_for_runtime_job''\<rparr>) s1)) = Inr s3"
    "s' = append_event_tx ''agent_instance'' actor ''run'' (jw_run w) ''run.job_wait_registered''
       [(''task_id'', PStr (r_task r)), (''wait_id'', PStr (jw_id w)), (''source_machine'', PStr (jw_machine w)),
        (''job_id'', PStr (jw_job w)), (''runtime_scope_id'', PStr (jw_scope w)), (''resume_plan'', PStr (jw_resume_plan w)),
        (''reason'', PStr (jw_reason w))] None now s3"
  using assms unfolding store_wait_tx_def Let_def
  by (simp only: res_simps sum.inject, elim exE conjE) (rule that, assumption+, erule sym)

lemma store_wait_tx_rows:
  assumes "waits_ok s" "store_wait_tx r (new_wait i scope fresh now) actor fresh' now s = Inr s'"
  shows "job_waits s' = job_waits s @ [case last_max (\<lambda>e. (te_completed_at e, te_id e))
        (filter (\<lambda>e. matching e (new_wait i scope fresh now)) (terminal_events s)) of
      None \<Rightarrow> new_wait i scope fresh now | Some e \<Rightarrow> wake e now (new_wait i scope fresh now)]
    \<and> terminal_events s' = terminal_events s \<and> runtime_bindings s' = runtime_bindings s \<and> fresh \<notin> jw_id ` set (job_waits s)"
proof -
  let ?w = "new_wait i scope fresh now"
  let ?f = "\<lambda>q. q\<lparr>r_stop_reason := Some ''waiting_for_runtime_job''\<rparr>"
  let ?s2 = "update_runs (\<lambda>q. r_id q = wi_run i) ?f (s\<lparr>job_waits := job_waits s @ [?w]\<rparr>)"
  have w: "jw_id ?w = fresh" "jw_run ?w = wi_run i" "jw_status ?w = ''pending''" by (simp_all add: new_wait_def)
  from assms(2) obtain s1 s3 where s1: "insert_job_wait ?w s = Inr s1"
    and s3: "(case last_max (\<lambda>e. (te_completed_at e, te_id e))
        (filter (\<lambda>e. matching e ?w) (terminal_events (update_runs (\<lambda>q. r_id q = wi_run i) ?f s1))) of
         None \<Rightarrow> Inr (update_runs (\<lambda>q. r_id q = wi_run i) ?f s1)
       | Some e \<Rightarrow> activate_wait_tx fresh (wi_run i) (te_id e) fresh' now (update_runs (\<lambda>q. r_id q = wi_run i) ?f s1)) = Inr s3"
    and s': "job_waits s' = job_waits s3" "terminal_events s' = terminal_events s3" "runtime_bindings s' = runtime_bindings s3"
    by (rule store_wait_txE, unfold w) (rule that, assumption, assumption, simp_all add: append_event_tx_def)
  from s1 have s1_eq: "s1 = s\<lparr>job_waits := job_waits s @ [?w]\<rparr>" and new: "fresh \<notin> jw_id ` set (job_waits s)"
    by (auto simp: insert_job_wait_def w list_ex_iff split: if_splits)
  note s3 = s3 [unfolded s1_eq]
  have tables: "job_waits ?s2 = job_waits s @ [?w]" "terminal_events ?s2 = terminal_events s" "runtime_bindings ?s2 = runtime_bindings s"
    by (simp_all add: update_runs_def)
  show ?thesis
  proof (cases "last_max (\<lambda>e. (te_completed_at e, te_id e)) (filter (\<lambda>e. matching e ?w) (terminal_events s))")
    case None
    with s3 new show ?thesis by (auto simp: s' tables)
  next
    case (Some e)
    with s3 have act: "activate_wait_tx fresh (wi_run i) (te_id e) fresh' now ?s2 = Inr s3" by (simp add: tables)
    have "e \<in> set (terminal_events s)" using last_max_Some [OF Some] by simp
    then have "find (\<lambda>u. te_id u = te_id e) (terminal_events ?s2) = Some e"
      using assms(1) by (intro find_unique) (simp_all add: tables waits_ok_def)
    moreover have "distinct (map jw_id (job_waits ?s2))" using assms(1) new w by (simp add: tables waits_ok_def)
    ultimately have "job_waits s3 = update_where (\<lambda>v. jw_id v = fresh \<and> jw_status v = ''pending'') (wake e now) (job_waits ?s2)"
      "terminal_events s3 = terminal_events s" "runtime_bindings s3 = runtime_bindings s"
      using activate_wait_tx_effect [OF act] by (simp_all add: tables)
    moreover have "update_where (\<lambda>v. jw_id v = fresh \<and> jw_status v = ''pending'') (wake e now) (job_waits s) = job_waits s"
      using new by (intro update_where_unmatched) auto
    ultimately show ?thesis using Some new w by (simp add: s' tables)
  qed
qed

lemma store_wait_tx_ok:
  assumes "waits_ok s" "store_wait_tx r (new_wait i scope fresh now) actor fresh' now s = Inr s'"
  shows "waits_ok s'"
proof -
  let ?w = "new_wait i scope fresh now"
  let ?f = "\<lambda>q. q\<lparr>r_stop_reason := Some ''waiting_for_runtime_job''\<rparr>"
  let ?s2 = "update_runs (\<lambda>q. r_id q = wi_run i) ?f (s\<lparr>job_waits := job_waits s @ [?w]\<rparr>)"
  have w: "jw_id ?w = fresh" "jw_run ?w = wi_run i" "jw_status ?w = ''pending''" by (simp_all add: new_wait_def)
  from assms(2) obtain s1 s3 where s1: "insert_job_wait ?w s = Inr s1"
    and s3: "(case last_max (\<lambda>e. (te_completed_at e, te_id e))
        (filter (\<lambda>e. matching e ?w) (terminal_events (update_runs (\<lambda>q. r_id q = wi_run i) ?f s1))) of
         None \<Rightarrow> Inr (update_runs (\<lambda>q. r_id q = wi_run i) ?f s1)
       | Some e \<Rightarrow> activate_wait_tx fresh (wi_run i) (te_id e) fresh' now (update_runs (\<lambda>q. r_id q = wi_run i) ?f s1)) = Inr s3"
    and s': "job_waits s' = job_waits s3" "terminal_events s' = terminal_events s3" "outbox s' = outbox s3"
    by (rule store_wait_txE, unfold w) (rule that, assumption, assumption, simp_all add: append_event_tx_def)
  from s1 have s1_eq: "s1 = s\<lparr>job_waits := job_waits s @ [?w]\<rparr>" and idle: "fresh \<notin> jw_id ` set (job_waits s)"
      "\<not> list_ex (\<lambda>v. jw_run v = wi_run i \<and> active_wait v) (job_waits s)"
    by (auto simp: insert_job_wait_def w active_wait_def list_ex_iff split: if_splits)
  note s3 = s3 [unfolded s1_eq]
  have tables: "job_waits ?s2 = job_waits s @ [?w]" "terminal_events ?s2 = terminal_events s" "outbox ?s2 = outbox s"
    by (simp_all add: update_runs_def)
  have ids: "distinct (map jw_id (job_waits ?s2))" "distinct (map jw_run (filter active_wait (job_waits ?s2)))"
    "distinct (map te_id (terminal_events ?s2))" "resumes_queued ?s2"
    using assms(1) idle w by (auto simp: tables waits_ok_def resumes_queued_def list_ex_iff)
  have quiet: "\<not> matching u v" if "v \<in> set (job_waits s)" "jw_status v = ''pending''" "u \<in> set (terminal_events s)" for u v
    using assms(1) that by (simp add: waits_ok_def)
  have ok: "waits_ok s3"
  proof (cases "last_max (\<lambda>e. (te_completed_at e, te_id e)) (filter (\<lambda>e. matching e ?w) (terminal_events s))")
    case None
    then have "s3 = ?s2" "\<forall>e \<in> set (terminal_events s). \<not> matching e ?w"
      using s3 by (auto simp: tables filter_empty_conv)
    then show ?thesis using ids quiet by (auto simp: waits_ok_def tables)
  next
    case (Some e)
    with s3 have act: "activate_wait_tx fresh (wi_run i) (te_id e) fresh' now ?s2 = Inr s3" by (simp add: tables)
    have "e \<in> set (terminal_events s)" using last_max_Some [OF Some] by simp
    then have "find (\<lambda>u. te_id u = te_id e) (terminal_events ?s2) = Some e"
      using ids(3) by (intro find_unique) (simp_all add: tables)
    note one = activate_wait_tx_effect [OF act this ids(1)]
    let ?P = "\<lambda>v. jw_id v = fresh \<and> jw_status v = ''pending''"
    have "\<not> matching u v" if "v \<in> set (job_waits s3)" "jw_status v = ''pending''" "u \<in> set (terminal_events s3)" for u v
      using that quiet [of v u] w by (auto simp: one(1,2) tables set_update_where split: if_splits)
    moreover have "distinct (map jw_id (job_waits s3))" "distinct (map jw_run (filter active_wait (job_waits s3)))"
      unfolding one(1) using ids(1,2) by (auto intro!: woken_waits simp: active_wait_def)
    ultimately show ?thesis using ids(3,4) one(2,5) by (simp add: waits_ok_def)
  qed
  then show ?thesis unfolding waits_ok_def resumes_queued_def s' .
qed

lemma queue_wait_tx_ok:
  assumes "waits_ok s" "queue_wait_tx box attempt now s = Inr s'"
  shows "waits_ok s'"
proof -
  from assms(2) obtain b where found: "find (\<lambda>b. ob_id b = box \<and> ob_topic b = ''run.wait_resume'' \<and> ob_status b = ''pending'') (outbox s) = Some b"
    and rows: "job_waits s' = update_where (\<lambda>w. ob_wait b = Some (jw_id w) \<and> jw_status w = ''ready'')
           (\<lambda>w. w\<lparr>jw_status := ''queued'', jw_queued_at := Some now, jw_resume_attempt := Some attempt\<rparr>) (job_waits s)"
      "terminal_events s' = terminal_events s"
      "outbox s' = update_where (\<lambda>c. ob_id c = box \<and> ob_status c = ''pending'')
       (\<lambda>c. c\<lparr>ob_status := ''delivered'', ob_delivered_at := Some now\<rparr>) (outbox s)"
    by (auto simp: queue_wait_tx_def res_simps Let_def)
  from found have b: "b \<in> set (outbox s)" "ob_id b = box" by (auto dest: find_Some_in)
  let ?P = "\<lambda>w. ob_wait b = Some (jw_id w) \<and> jw_status w = ''ready''"
  have ids: "distinct (map ob_id (outbox s))" using assms(1) by (simp add: waits_ok_def resumes_queued_def)
  have "\<exists>c \<in> set (outbox s'). resume_row (jw_id w) c" if "w \<in> set (job_waits s')" "jw_status w = ''ready''" for w
  proof -
    from that have w: "w \<in> set (job_waits s)" "ob_wait b \<noteq> Some (jw_id w)" "jw_status w = ''ready''"
      by (auto simp: rows set_update_where split: if_splits)
    then obtain c where c: "c \<in> set (outbox s)" "resume_row (jw_id w) c"
      using assms(1) by (auto simp: waits_ok_def resumes_queued_def)
    then have "ob_id c \<noteq> box" using w(2) b distinct_map_inj [OF ids c(1) b(1)] by (auto simp: resume_row_def)
    with c show ?thesis by (auto simp: rows set_update_where)
  qed
  moreover have "distinct (map ob_id (outbox s'))" using ids by (simp add: rows map_update_where)
  moreover have "distinct (map jw_id (job_waits s'))" using assms(1) by (simp add: rows map_update_where waits_ok_def)
  moreover have "distinct (map jw_run (filter active_wait (job_waits s')))"
  proof -
    have "distinct (map jw_run (filter active_wait (update_where ?P
        (\<lambda>w. w\<lparr>jw_status := ''queued'', jw_queued_at := Some now, jw_resume_attempt := Some attempt\<rparr>) ws)))"
      if "distinct (map jw_run (filter active_wait ws))" for ws
      using that by (induction ws) (auto simp: update_where_def active_wait_def split: if_splits)
    then show ?thesis using assms(1) by (simp add: rows waits_ok_def)
  qed
  ultimately show ?thesis
    using assms(1) by (auto simp: waits_ok_def resumes_queued_def rows(1,2) set_update_where split: if_splits)
qed

lemma waits_ok_cong:
  "job_waits s' = job_waits s \<Longrightarrow> terminal_events s' = terminal_events s \<Longrightarrow> outbox s' = outbox s \<Longrightarrow> waits_ok s' = waits_ok s"
  by (simp add: waits_ok_def resumes_queued_def)

lemma insert_restart_txE:
  assumes "insert_restart_tx r previous attempt job now s = Inr s'"
  obtains "s' = s\<lparr>jobs := jobs s @ [\<lparr>jb_id = job, jb_kind = ''launch_executor'', jb_attempt = attempt, jb_status = ''pending'',
       jb_available_at = now, jb_claimed_at = None, jb_attempts = 0, jb_last_error = None, jb_created_at = now\<rparr>],
     launch_attempts := launch_attempts s @ [restart_attempt r previous attempt job now]\<rparr>"
    "\<not> list_ex (\<lambda>m. la_assignment m = r_assignment r \<and> open_attempt m) (launch_attempts s)"
    "\<not> list_ex (\<lambda>m. la_id m = attempt) (launch_attempts s)"
  using assms that
  by (auto simp: insert_restart_tx_def insert_job_def insert_launch_attempt_def res_simps restart_attempt_def open_attempt_def
      split: if_splits)

lemma restart_window_txE:
  assumes "restart_window_tx r waited grace now s = Inr (deadline, s')"
  obtains bs as where "s' = s\<lparr>runtime_bindings := bs, assignments := as\<rparr>" "keeps s s'"
proof -
  let ?s = "update_assignments (\<lambda>a. a_id a = r_assignment r \<and> a_status a = ''active'')
             (\<lambda>a. a\<lparr>a_expires_at := max (a_expires_at a) (now + grace), a_renewed_at := now\<rparr>)
        (update_bindings (\<lambda>b. rb_run b = r_id r) (\<lambda>b. b\<lparr>rb_restart_deadline := Some (now + grace), rb_updated_at := now\<rparr>) s)"
  have "keeps s ?s"
    by (rule keeps_trans [OF _ keeps_update_assignments]) (auto simp: row_defs)
  moreover from assms have "s' = s \<or> s' = ?s" by (auto simp: restart_window_tx_def res_simps Let_def split: if_splits)
  moreover have "?s = s\<lparr>runtime_bindings := runtime_bindings ?s, assignments := assignments ?s\<rparr>"
    by (simp add: update_assignments_def update_bindings_def)
  ultimately show thesis using that [of "assignments s'" "runtime_bindings s'"] by (elim disjE) simp_all
qed

lemma enqueue_run_restart_txE:
  assumes "enqueue_run_restart_tx run actor_type actor event_type box grace attempt job now s = Inr (i, s')"
  obtains r deadline s1 previous s2 s3 where "find_run run s = Some r" "r_status r = ''interrupted''"
    "restart_window_tx r (box \<noteq> None) grace now s = Inr (deadline, s1)" "\<not> deadline \<le> now"
    "list_ex (\<lambda>a. a_id a = r_assignment r \<and> a_status a = ''active'' \<and> now < a_expires_at a) (assignments s1)"
    "\<not> list_ex (\<lambda>l. la_run l = Some run \<and> la_status l \<in> {''queued'', ''starting'', ''running''}) (launch_attempts s1)"
    "last_max (\<lambda>l. (la_created_at l, la_id l)) (filter (\<lambda>l. la_run l = Some run) (launch_attempts s1)) = Some previous"
    "insert_restart_tx r previous attempt job now s1 = Inr s2"
    "(case box of None \<Rightarrow> Inr (append_event_tx actor_type actor ''run'' run event_type [(''launch_attempt_id'', PStr attempt)] None now s2)
      | Some b \<Rightarrow> queue_wait_tx b attempt now
          (append_event_tx actor_type actor ''run'' run event_type [(''launch_attempt_id'', PStr attempt)] None now s2)) = Inr s3"
    "i = attempt" "s' = s3"
  using assms unfolding enqueue_run_restart_tx_def Let_def
  by (simp only: res_simps split_paired_Ex prod.case sum.inject prod.inject, elim exE conjE)
    (rule that, assumption+, (erule sym)+)

lemma enqueue_run_restart_tx_ok:
  assumes "enqueue_run_restart_tx run actor_type actor event_type box grace attempt job now s = Inr (i, s')"
  shows "keeps s s'" "waits_ok s \<Longrightarrow> waits_ok s'"
proof -
  from assms obtain r deadline s1 previous s2 where w: "restart_window_tx r (box \<noteq> None) grace now s = Inr (deadline, s1)"
    and ins: "insert_restart_tx r previous attempt job now s1 = Inr s2"
    and q: "(case box of None \<Rightarrow> Inr (append_event_tx actor_type actor ''run'' run event_type [(''launch_attempt_id'', PStr attempt)] None now s2)
      | Some b \<Rightarrow> queue_wait_tx b attempt now
          (append_event_tx actor_type actor ''run'' run event_type [(''launch_attempt_id'', PStr attempt)] None now s2)) = Inr s'"
    by (rule enqueue_run_restart_txE) (rule that, assumption, assumption, simp only:)
  let ?s3 = "append_event_tx actor_type actor ''run'' run event_type [(''launch_attempt_id'', PStr attempt)] None now s2"
  from w obtain bs as where s1: "s1 = s\<lparr>runtime_bindings := bs, assignments := as\<rparr>" "keeps s s1" by (rule restart_window_txE)
  from ins have s2: "job_waits s2 = job_waits s1" "terminal_events s2 = terminal_events s1" "outbox s2 = outbox s1" "keeps s1 s2"
    by (auto elim!: insert_restart_txE)
  have base: "keeps s ?s3" using s1(2) s2(4) by (simp add: keeps_trans [of s s1 s2])
  have "keeps s s'"
    using q base by (auto simp: queue_wait_tx_def res_simps Let_def split: option.splits)
  then show "keeps s s'" .
  assume "waits_ok s"
  moreover have "waits_ok ?s3 = waits_ok s" by (rule waits_ok_cong) (simp_all add: append_event_tx_def s2 s1(1))
  ultimately show "waits_ok s'" using q queue_wait_tx_ok by (auto split: option.splits)
qed

lemma keeps_activate_wait_tx: "activate_wait_tx wait run event fresh now s = Inr s' \<Longrightarrow> keeps s s'"
  by (auto simp: activate_wait_tx_def res_simps Let_def split: if_splits)

lemma keeps_activate_waits: "activate_waits ws event ids now s = Inr s' \<Longrightarrow> keeps s s'"
  by (induction ws arbitrary: ids s) (auto simp: res_simps intro: keeps_trans keeps_activate_wait_tx)

lemma keeps_from_events: "keeps (s\<lparr>terminal_events := es\<rparr>) s' \<Longrightarrow> keeps s s'"
  using keeps_trans [of s "s\<lparr>terminal_events := es\<rparr>" s'] by simp

lemma keeps_ingest_event_tx: "ingest_event_tx e ids now s = Inr (new, s') \<Longrightarrow> keeps s s'"
  by (auto simp: ingest_event_tx_def Let_def res_simps split: option.splits if_splits
      dest!: keeps_activate_waits intro: keeps_from_events)

lemma keeps_store_wait_tx:
  assumes "store_wait_tx r w actor fresh now s = Inr s'" "find_run (jw_run w) s = Some r" "live r"
  shows "keeps s s'"
  using assms(1)
proof (rule store_wait_txE)
  let ?f = "\<lambda>q. q\<lparr>r_stop_reason := Some ''waiting_for_runtime_job''\<rparr>"
  fix s1 s3
  assume ins: "insert_job_wait w s = Inr s1"
    and act: "(case last_max (\<lambda>e. (te_completed_at e, te_id e)) (filter (\<lambda>e. matching e w) (terminal_events
        (update_runs (\<lambda>q. r_id q = jw_run w) ?f s1))) of
         None \<Rightarrow> Inr (update_runs (\<lambda>q. r_id q = jw_run w) ?f s1)
       | Some e \<Rightarrow> activate_wait_tx (jw_id w) (jw_run w) (te_id e) fresh now (update_runs (\<lambda>q. r_id q = jw_run w) ?f s1)) = Inr s3"
    and s': "s' = append_event_tx ''agent_instance'' actor ''run'' (jw_run w) ''run.job_wait_registered''
       [(''task_id'', PStr (r_task r)), (''wait_id'', PStr (jw_id w)), (''source_machine'', PStr (jw_machine w)),
        (''job_id'', PStr (jw_job w)), (''runtime_scope_id'', PStr (jw_scope w)), (''resume_plan'', PStr (jw_resume_plan w)),
        (''reason'', PStr (jw_reason w))] None now s3"
  from ins have s1: "s1 = s\<lparr>job_waits := job_waits s @ [w]\<rparr>" by (auto simp: insert_job_wait_def split: if_splits)
  let ?s2 = "update_runs (\<lambda>q. r_id q = jw_run w) ?f s1"
  have "keeps s1 ?s2" using assms(2,3) by (intro keeps_move_run [of _ _ r]) (auto simp: s1 find_run_def row_defs)
  then have "keeps s ?s2" using keeps_trans [of s s1 ?s2] by (simp add: s1)
  moreover have "keeps ?s2 s3" using act by (auto split: option.splits intro: keeps_activate_wait_tx)
  ultimately show "keeps s s'" unfolding s' keeps_append_event by (rule keeps_trans)
qed

lemma register_run_job_wait_tx_cases:
  assumes "register_run_job_wait_tx i actor fresh fresh' now s = Inr (wait, s')"
  obtains r b where "find_run (wi_run i) s = Some r" "r_agent r = actor" "r_status r = ''running''" "run_runtime_binding (wi_run i) s = Some b"
    "s' = s \<and> (\<exists>w. find (\<lambda>w. jw_run w = wi_run i \<and> active_wait w) (job_waits s) = Some w \<and> wait = jw_id w
        \<and> jw_machine w = wi_machine i \<and> jw_job w = wi_job i \<and> jw_scope w = rb_scope b)
     \<or> find (\<lambda>w. jw_run w = wi_run i \<and> active_wait w) (job_waits s) = None \<and> wait = fresh
        \<and> store_wait_tx r (new_wait i (rb_scope b) fresh now) actor fresh' now s = Inr s'"
  using assms that
  by (cases "find (\<lambda>w. jw_run w = wi_run i \<and> active_wait w) (job_waits s)") (auto simp: register_run_job_wait_tx_def res_simps)

lemma register_run_job_wait_tx_ok:
  assumes "register_run_job_wait_tx i actor fresh fresh' now s = Inr (wait, s')"
  shows "keeps s s'" "waits_ok s \<Longrightarrow> waits_ok s'"
proof -
  from assms obtain r :: run and b :: runtime_binding where r: "find_run (wi_run i) s = Some r" "r_status r = ''running''"
    and s': "s' = s \<or> store_wait_tx r (new_wait i (rb_scope b) fresh now) actor fresh' now s = Inr s'"
    by (rule register_run_job_wait_tx_cases) blast
  have "keeps s s'" if "store_wait_tx r (new_wait i (rb_scope b) fresh now) actor fresh' now s = Inr s'"
    using that by (rule keeps_store_wait_tx) (use r in \<open>simp_all add: new_wait_def live_def live_statuses_def\<close>)
  with s' show "keeps s s'" by auto
  from s' store_wait_tx_ok show "waits_ok s \<Longrightarrow> waits_ok s'" by blast
qed

text \<open>
  C31. No wake-up is lost. In a store where no pending wait has a terminal event and every ready
  wait has its outbox row, this stays so whatever comes next: a run that registers a wait (also when
  the event came first), an event, and every kind of restart.
\<close>

theorem no_lost_wakeup:
  assumes "waits_ok s"
  shows "waits_ok (snd (register_run_job_wait i actor fresh fresh' now s))
    \<and> waits_ok (snd (ingest_runtime_job_terminal_event e ids now s))
    \<and> waits_ok (snd (ingest_lsm_job_terminal_event l ids now s))
    \<and> waits_ok (snd (enqueue_run_restart run grace attempt job now s))
    \<and> waits_ok (snd (enqueue_run_delivery_resume run grace attempt job now s))
    \<and> waits_ok (snd (enqueue_run_job_wait_resume box grace attempt job now s))"
proof -
  have register: "waits_ok (snd (register_run_job_wait i actor fresh fresh' now s))"
    unfolding register_run_job_wait_def
    by (intro checked_invariant [where I = waits_ok] commit_then_invariant [where I = waits_ok] assms)
      (erule register_run_job_wait_tx_ok(2) [OF _ assms])
  have ingest: "waits_ok (snd (ingest_runtime_job_terminal_event e ids now s))" for e
    unfolding ingest_runtime_job_terminal_event_def
    by (intro checked_invariant [where I = waits_ok] commit_invariant [where I = waits_ok] assms)
      (erule ingest_event_tx_ok(1) [OF assms])
  have restart: "waits_ok (snd (commit_then (enqueue_run_restart_tx run t actor ty b grace attempt job now) get_launch_attempt s))"
    for run t actor ty b
    by (intro commit_then_invariant [where I = waits_ok] assms) (erule enqueue_run_restart_tx_ok(2) [OF _ assms])
  have "waits_ok (snd (enqueue_run_job_wait_resume box grace attempt job now s))"
    unfolding enqueue_run_job_wait_resume_def by (rule checked_invariant [where I = waits_ok], rule assms, rule restart)
  with register ingest restart show ?thesis
    by (simp add: ingest_lsm_job_terminal_event_def enqueue_run_restart_def enqueue_run_delivery_resume_def)
qed

text \<open>A run with a runtime and a finished launch, a job it waits for, and the terminal event of the job.\<close>

definition example_runtime_store :: "string \<Rightarrow> db" where
  "example_runtime_store st = empty_db\<lparr>
     tasks := [example_task ''t'' ''in_progress''],
     agents := [example_agent ''e''],
     assignments := [example_assignment ''ae'' ''t'' ''executor'' ''e'' ''active'' 30],
     runs := [example_run ''xe'' ''t'' ''ae'' ''e'' st],
     launch_profiles := [\<lparr>lp_id = ''p'', lp_name = ''p'', lp_adapter = ''codex_cli'', lp_agent = ''e'', lp_program = ''/bin/codex'',
       lp_cwd = Some ''/w'', lp_model = Some ''m'', lp_enabled = True,
       lp_metadata = JObj [(''execution_backend'', JStr ''morrow_runtime'')], lp_created_at = 0, lp_updated_at = 0\<rparr>],
     launch_attempts := [\<lparr>la_id = ''l'', la_assignment = ''ae'', la_task = ''t'', la_agent = ''e'', la_profile = ''p'', la_run = Some ''xe'',
       la_job = None, la_resume_from = None, la_restart_run = None, la_status = ''exited'', la_cwd = None, la_pid = None,
       la_exit_code = None, la_stdout = None, la_stderr = None, la_error = None, la_created_at = 1, la_started_at = Some 1,
       la_ended_at = Some 2\<rparr>],
     runtime_bindings := [\<lparr>rb_run = ''xe'', rb_scope = ''scope'', rb_capability = None, rb_restart_deadline = Some 50,
       rb_terminalized_at = None, rb_created_at = 1, rb_updated_at = 1\<rparr>]\<rparr>"

definition example_wait :: wait_input where
  "example_wait = \<lparr>wi_run = ''xe'', wi_machine = ''m'', wi_job = ''j'', wi_plan = ''go'', wi_reason = ''build''\<rparr>"

definition example_event :: job_event where
  "example_event = \<lparr>je_id = ''ev'', je_job = ''j'', je_machine = ''m'', je_scope = Some ''scope'', je_attempt = 1, je_status = ''succeeded'',
     je_exit_code = Some 0, je_completed_at = 4, je_reason = ''done'', je_summary_ref = None, je_result = None\<rparr>"

definition example_woken_store :: db where
  "example_woken_store = (example_runtime_store ''interrupted'')\<lparr>
     job_waits := [wake (stored_event example_event ''scope'' 5) 5 (new_wait example_wait ''scope'' ''w'' 3)],
     terminal_events := [stored_event example_event ''scope'' 5],
     outbox := [\<lparr>ob_id = ''o'', ob_topic = ''run.wait_resume'', ob_wait = Some ''w'', ob_payload = [], ob_status = ''pending'',
       ob_created_at = 5, ob_delivered_at = None\<rparr>]\<rparr>"

lemma example_waits_ok: "waits_ok (example_runtime_store st)" "waits_ok example_woken_store"
  by (simp_all add: waits_ok_def resumes_queued_def resume_row_def example_woken_store_def example_runtime_store_def
      empty_db_def active_wait_def new_wait_def wake_def)

theorem no_lost_wakeup_witness:
  "waits_ok (snd (register_run_job_wait example_wait ''e'' ''w'' ''o'' 3 (example_runtime_store ''running'')))"
  using no_lost_wakeup [OF example_waits_ok(1)] by blast



text \<open>
  C34. A restart queues the only open launch attempt of the run's assignment, and a second restart
  of the run is refused while it is queued. The refusal comes from the unique index of the
  attempts, as a storage error, and never from the check written for it: that one looks for attempts
  of the run by \<open>run_id\<close>, which a queued restart does not have yet.
\<close>

theorem restart_only_once:
  assumes "enqueue_run_restart run grace attempt job now s = (Inr l, s')"
    and "attempt' \<notin> la_id ` set (launch_attempts s')" "job' \<notin> jb_id ` set (jobs s')"
  shows "la_status l = ''queued'' \<and> la_restart_run l = Some run
    \<and> filter (\<lambda>m. la_assignment m = la_assignment l \<and> open_attempt m) (launch_attempts s') = [l]
    \<and> (\<exists>e. enqueue_run_restart run grace' attempt' job' later s' = (Inl e, s')
        \<and> e \<in> {Storage ''2067'', Conflict ''Run restart window has expired'', Conflict ''Run Assignment is not active''})"
proof -
  from assms(1) obtain i where tx: "enqueue_run_restart_tx run ''human'' ''local'' ''run.restart_requested'' None grace attempt job now s = Inr (i, s')"
    and l: "get_launch_attempt i s' = Inr l"
    by (auto simp: enqueue_run_restart_def commit_then_Inr)
  from tx obtain r deadline s1 previous s2 s3 where r: "find_run run s = Some r" "r_status r = ''interrupted''"
    and w: "restart_window_tx r (None \<noteq> (None :: id option)) grace now s = Inr (deadline, s1)"
    and idle: "\<not> list_ex (\<lambda>l. la_run l = Some run \<and> la_status l \<in> {''queued'', ''starting'', ''running''}) (launch_attempts s1)"
    and prev: "last_max (\<lambda>l. (la_created_at l, la_id l)) (filter (\<lambda>l. la_run l = Some run) (launch_attempts s1)) = Some previous"
    and ins: "insert_restart_tx r previous attempt job now s1 = Inr s2"
    and s3: "(case None of None \<Rightarrow> Inr (append_event_tx ''human'' ''local'' ''run'' run ''run.restart_requested'' [(''launch_attempt_id'', PStr attempt)] None now s2)
      | Some b \<Rightarrow> queue_wait_tx b attempt now
          (append_event_tx ''human'' ''local'' ''run'' run ''run.restart_requested'' [(''launch_attempt_id'', PStr attempt)] None now s2)) = Inr s3"
    and i: "i = attempt" "s' = s3"
    by (rule enqueue_run_restart_txE)
  from w have s1: "s1 = s" and d: "Option.bind (run_runtime_binding (r_id r) s) rb_restart_deadline = Some deadline"
    by (auto simp: restart_window_tx_def res_simps)
  let ?l = "restart_attempt r previous attempt job now"
  from ins obtain js where s2: "s2 = s\<lparr>jobs := js, launch_attempts := launch_attempts s @ [?l]\<rparr>"
    and none: "\<not> list_ex (\<lambda>m. la_assignment m = r_assignment r \<and> open_attempt m) (launch_attempts s)"
      "\<not> list_ex (\<lambda>m. la_id m = attempt) (launch_attempts s)"
    unfolding s1 by (rule insert_restart_txE) blast
  have new: "la_id ?l = attempt" "la_run ?l = None" "open_attempt ?l" "la_assignment ?l = r_assignment r" "la_status ?l = ''queued''"
    "la_restart_run ?l = Some (r_id r)"
    by (simp_all add: restart_attempt_def open_attempt_def)
  from s3 i have tables: "runs s' = runs s" "launch_attempts s' = launch_attempts s @ [?l]" "runtime_bindings s' = runtime_bindings s"
    by (auto simp: s2 append_event_tx_def)
  have "find (\<lambda>m. la_id m = attempt) (launch_attempts s) = None" using none(2) by (simp add: find_None_list_ex)
  then have "l = ?l" using l by (simp add: get_launch_attempt_def res_simps tables i(1) find_append new)
  moreover have "filter (\<lambda>m. la_assignment m = r_assignment r \<and> open_attempt m) (launch_attempts s') = [?l]"
    using none(1) by (simp add: tables new list_ex_iff filter_empty_conv)
  moreover have "r_id r = run" using find_run_SomeD [OF r(1)] by simp
  moreover have "\<exists>e. enqueue_run_restart run grace' attempt' job' later s' = (Inl e, s')
        \<and> e \<in> {Storage ''2067'', Conflict ''Run restart window has expired'', Conflict ''Run Assignment is not active''}"
  proof -
    have again: "insert_restart_tx r previous attempt' job' later s' = Inl (Storage ''2067'')"
      using assms(2,3) new
      by (auto simp: insert_restart_tx_def insert_job_def insert_launch_attempt_def tables list_ex_iff storage_def restart_attempt_def
          open_attempt_def)
    have "find_run run s' = Some r" "restart_window_tx r False grace' later s' = Inr (deadline, s')"
      using r d by (simp_all add: find_run_def tables restart_window_tx_def run_runtime_binding_def)
    moreover have "\<not> list_ex (\<lambda>l. la_run l = Some run \<and> la_status l \<in> {''queued'', ''starting'', ''running''}) (launch_attempts s')"
      using idle new(2) by (simp add: tables s1)
    moreover have "last_max (\<lambda>l. (la_created_at l, la_id l)) (filter (\<lambda>l. la_run l = Some run) (launch_attempts s')) = Some previous"
      using prev new(2) by (simp add: tables s1)
    ultimately show ?thesis
      using r(2) again by (auto simp: enqueue_run_restart_def enqueue_run_restart_tx_def commit_then_def ensure_def)
  qed
  ultimately show ?thesis using new by simp
qed

theorem restart_only_once_witness:
  "\<exists>l s'. enqueue_run_restart ''xe'' 600 ''l2'' ''j2'' 5 (example_runtime_store ''interrupted'') = (Inr l, s')
     \<and> (\<exists>e. enqueue_run_restart ''xe'' 600 ''l3'' ''j3'' 6 s' = (Inl e, s'))"
proof -
  let ?op = "enqueue_run_restart ''xe'' 600 ''l2'' ''j2'' 5 (example_runtime_store ''interrupted'')"
  have "\<not> isl (fst ?op)" by code_simp
  from right_operation [OF this] obtain l s' where op: "?op = (Inr l, s')" by blast
  have "''l3'' \<notin> la_id ` set (launch_attempts (snd ?op))" "''j3'' \<notin> jb_id ` set (jobs (snd ?op))" by code_simp+
  with restart_only_once [OF op] op show ?thesis by fastforce
qed

text \<open>
  C33. It does not matter whether a run registers its wait before or after the terminal event of the
  job arrives: both orders end with the same waits and the same events.
\<close>

theorem wait_and_event_commute:
  assumes "waits_ok s" "find (\<lambda>w. jw_run w = wi_run i \<and> active_wait w) (job_waits s) = None"
    and "run_runtime_binding (wi_run i) s = Some b" "\<forall>u \<in> set (terminal_events s). \<not> matching u (new_wait i (rb_scope b) fresh now)"
    and "register_run_job_wait_tx i actor fresh box now s = Inr (wait1, a1)" "ingest_event_tx e ids now a1 = Inr (new1, a2)"
    and "ingest_event_tx e ids' now s = Inr (new2, b1)" "register_run_job_wait_tx i actor fresh box' now b1 = Inr (wait2, b2)"
  shows "job_waits a2 = job_waits b2 \<and> terminal_events a2 = terminal_events b2 \<and> new1 = new2 \<and> wait1 = wait2"
proof -
  let ?w = "new_wait i (rb_scope b) fresh now"
  have w: "jw_status ?w = ''pending''" "jw_id ?w = fresh" by (simp_all add: new_wait_def)
  have reg: "\<exists>r. store_wait_tx r ?w actor c now u = Inr v \<and> wait = fresh"
    if "register_run_job_wait_tx i actor fresh c now u = Inr (wait, v)" "\<not> list_ex (\<lambda>w. jw_run w = wi_run i \<and> active_wait w) (job_waits u)"
      "runtime_bindings u = runtime_bindings s" for c u v wait
    using that(1)
  proof (rule register_run_job_wait_tx_cases)
    fix r d
    assume "run_runtime_binding (wi_run i) u = Some d"
      "v = u \<and> (\<exists>w. find (\<lambda>w. jw_run w = wi_run i \<and> active_wait w) (job_waits u) = Some w \<and> wait = jw_id w
        \<and> jw_machine w = wi_machine i \<and> jw_job w = wi_job i \<and> jw_scope w = rb_scope d)
     \<or> find (\<lambda>w. jw_run w = wi_run i \<and> active_wait w) (job_waits u) = None \<and> wait = fresh
        \<and> store_wait_tx r (new_wait i (rb_scope d) fresh now) actor c now u = Inr v"
    moreover have "d = b" using calculation(1) assms(3) that(3) by (simp add: run_runtime_binding_def)
    ultimately show ?thesis using that(2) by (auto simp: find_None_list_ex [symmetric])
  qed
  have idle: "\<not> list_ex (\<lambda>w. jw_run w = wi_run i \<and> active_wait w) (job_waits s)" using assms(2) by (simp add: find_None_list_ex)
  have none: "filter (\<lambda>e. matching e ?w) (terminal_events s) = []" using assms(4) by (simp add: filter_empty_conv)
  from reg [OF assms(5) idle refl] store_wait_tx_rows [OF assms(1)] none
  have a1: "job_waits a1 = job_waits s @ [?w]" "terminal_events a1 = terminal_events s" "runtime_bindings a1 = runtime_bindings s"
    and wait1: "wait1 = fresh"
    by fastforce+
  have a1_ok: "waits_ok a1" using register_run_job_wait_tx_ok(2) [OF assms(5,1)] .
  from assms(7,1) show ?thesis
  proof (cases rule: ingest_event_txE)
    case 1
    have "a2 = a1" "new1 = new2" using 1(3) [of a1 ids] a1 assms(6) by simp_all
    moreover have "job_waits b2 = job_waits s @ [?w] \<and> terminal_events b2 = terminal_events s \<and> wait2 = fresh"
      using reg [OF assms(8)] idle store_wait_tx_rows [OF assms(1)] none 1(2) by fastforce
    ultimately show ?thesis using a1 wait1 by simp
  next
    case (2 raw)
    let ?t = "stored_event e (trim raw) now"
    let ?wake = "update_where (\<lambda>w. matching ?t w \<and> jw_status w = ''pending'') (wake ?t now)"
    have b1_ok: "waits_ok b1" by (rule ingest_event_tx_ok(1) [OF assms(1,7)])
    have "\<not> list_ex (\<lambda>w. jw_run w = wi_run i \<and> active_wait w) (job_waits b1)"
      using idle by (auto simp: 2 list_ex_iff set_update_where active_wait_def)
    from reg [OF assms(8) this 2(9)] store_wait_tx_rows [OF b1_ok] none
    have b2: "job_waits b2 = ?wake (job_waits s) @ [if matching ?t ?w then wake ?t now ?w else ?w]"
      "terminal_events b2 = terminal_events s @ [?t]" "wait2 = fresh"
      by (fastforce simp: 2)+
    from assms(6) a1_ok show ?thesis
    proof (cases rule: ingest_event_txE)
      case 1
      then show ?thesis using 1(3) [of s ids'] a1 assms(7) \<open>new2\<close> by simp
    next
      case A: (2 raw')
      then have "raw' = raw" using 2(2) by simp
      with A b2 a1 w wait1 \<open>new2\<close> show ?thesis by (simp add: update_where_def)
    qed
  qed
qed

theorem wait_and_event_commute_witness:
  "\<exists>a1 a2 b1 b2. register_run_job_wait_tx example_wait ''e'' ''w'' ''o'' 5 (example_runtime_store ''running'') = Inr (''w'', a1)
     \<and> ingest_event_tx example_event [''o''] 5 a1 = Inr (True, a2)
     \<and> ingest_event_tx example_event [''o''] 5 (example_runtime_store ''running'') = Inr (True, b1)
     \<and> register_run_job_wait_tx example_wait ''e'' ''w'' ''o'' 5 b1 = Inr (''w'', b2) \<and> job_waits a2 = job_waits b2"
proof -
  let ?s = "example_runtime_store ''running''"
  let ?a1 = "snd (projr (register_run_job_wait_tx example_wait ''e'' ''w'' ''o'' 5 ?s))"
    and ?b1 = "snd (projr (ingest_event_tx example_event [''o''] 5 ?s))"
  let ?a2 = "snd (projr (ingest_event_tx example_event [''o''] 5 ?a1))"
    and ?b2 = "snd (projr (register_run_job_wait_tx example_wait ''e'' ''w'' ''o'' 5 ?b1))"
  have runs: "register_run_job_wait_tx example_wait ''e'' ''w'' ''o'' 5 ?s = Inr (''w'', ?a1)"
    "ingest_event_tx example_event [''o''] 5 ?a1 = Inr (True, ?a2)"
    "ingest_event_tx example_event [''o''] 5 ?s = Inr (True, ?b1)"
    "register_run_job_wait_tx example_wait ''e'' ''w'' ''o'' 5 ?b1 = Inr (''w'', ?b2)"
    by code_simp+
  have "find (\<lambda>w. jw_run w = wi_run example_wait \<and> active_wait w) (job_waits ?s) = None"
    "\<exists>b. run_runtime_binding (wi_run example_wait) ?s = Some b" "terminal_events ?s = []"
    by (simp_all add: example_runtime_store_def run_runtime_binding_def example_wait_def empty_db_def)
  with wait_and_event_commute [OF example_waits_ok(1) _ _ _ runs] have "job_waits ?a2 = job_waits ?b2" by auto
  with runs show ?thesis by (intro exI conjI)
qed

end
