(* ===== verification/Messages.thy ===== *)
theory Messages
  imports Records
begin

text \<open>
  Threads and messages of a task: collaboration threads (\<open>morrows-store/src/collaboration.rs\<close>) and
  the thread between a human and an agent, whose messages go through the delivery outbox and move
  the interview of the agent's assignment (\<open>morrows-store/src/task_message.rs\<close>).
\<close>

subsection \<open>Threads\<close>

definition find_thread :: "id \<Rightarrow> db \<Rightarrow> thread_row option" where
  "find_thread i s = find (\<lambda>h. th_id h = i) (threads s)"

definition insert_thread :: "thread_row \<Rightarrow> db \<Rightarrow> sql_error + db" where
  "insert_thread h s =
     (if list_ex (\<lambda>g. th_id g = th_id h) (threads s) then Inl PrimaryKeyViolation
      else if find_task (th_task h) s = None
        \<or> (case th_created_by h of None \<Rightarrow> False | Some g \<Rightarrow> find_agent g s = None) then Inl ForeignKeyViolation
      else Inr (s\<lparr>threads := threads s @ [h]\<rparr>))"

definition create_thread :: "id \<Rightarrow> id \<Rightarrow> string \<Rightarrow> id \<Rightarrow> time \<Rightarrow> (db, thread_row) operation" where
  "create_thread task actor title fresh now =
     checked (\<lambda>s. bind_res (get_task task s) (\<lambda>_. bind_res (get_agent actor s) (\<lambda>_. required title ''title'')))
       (\<lambda>_. commit (\<lambda>s.
          let h = \<lparr>th_id = fresh, th_task = task, th_kind = ''collaboration'', th_target = None,
                th_created_by = Some actor, th_title = title, th_created_at = now\<rparr> in
          bind_res (exec (insert_thread h s)) (\<lambda>s1.
          Inr (h, append_event_tx ''agent_instance'' actor ''task'' task ''thread.created''
            [(''thread_id'', PStr fresh)] None now s1))))"

definition task_threads :: "id \<Rightarrow> db \<Rightarrow> thread_row list res" where
  "task_threads task s =
     bind_res (get_task task s) (\<lambda>_.
       Inr (sort_key (\<lambda>h. (th_created_at h, th_id h)) (filter (\<lambda>h. th_task h = task) (threads s))))"

definition human_thread :: "id \<Rightarrow> id \<Rightarrow> thread_row \<Rightarrow> bool" where
  "human_thread task agent h \<longleftrightarrow> th_task h = task \<and> th_kind h = ''human_agent'' \<and> th_target h = Some agent"

definition task_agent_thread :: "id \<Rightarrow> id \<Rightarrow> db \<Rightarrow> thread_row option res" where
  "task_agent_thread task agent s =
     bind_res (get_task task s) (\<lambda>_. bind_res (get_agent agent s) (\<lambda>_.
     Inr (last_max (\<lambda>h. (th_created_at h, th_id h)) (filter (human_thread task agent) (threads s)))))"

subsection \<open>Messages\<close>

text \<open>The primary key, the two \<open>CHECK\<close>s and the foreign keys of \<open>messages\<close> (migration 0043).\<close>

definition insert_message :: "message_row \<Rightarrow> db \<Rightarrow> sql_error + db" where
  "insert_message m s =
     (if ms_author_type m \<notin> {''human'', ''agent'', ''system''}
        \<or> (ms_author_type m = ''agent'') \<noteq> (ms_created_by m \<noteq> None) then Inl CheckViolation
      else if list_ex (\<lambda>n. ms_id n = ms_id m) (messages s) then Inl PrimaryKeyViolation
      else if find_thread (ms_thread m) s = None
        \<or> (case ms_created_by m of None \<Rightarrow> False | Some g \<Rightarrow> find_agent g s = None)
        \<or> (case ms_recipient m of None \<Rightarrow> False | Some g \<Rightarrow> find_agent g s = None)
        \<or> (case ms_reply_to m of None \<Rightarrow> False | Some i \<Rightarrow> \<not> list_ex (\<lambda>n. ms_id n = i) (messages s))
      then Inl ForeignKeyViolation
      else Inr (s\<lparr>messages := messages s @ [m]\<rparr>))"

definition update_messages :: "(message_row \<Rightarrow> bool) \<Rightarrow> (message_row \<Rightarrow> message_row) \<Rightarrow> db \<Rightarrow> db" where
  "update_messages P f s = s\<lparr>messages := update_where P f (messages s)\<rparr>"

definition get_task_message :: "id \<Rightarrow> db \<Rightarrow> message_row res" where
  "get_task_message i s =
     ok_or (NotFound (''task message '' @ i)) (find (\<lambda>m. ms_id m = i) (messages s))"

definition thread_messages :: "id \<Rightarrow> db \<Rightarrow> message_row list res" where
  "thread_messages thread s =
     bind_res (ensure (list_ex (\<lambda>h. th_id h = thread) (threads s)) (NotFound ''thread'')) (\<lambda>_.
     Inr (sort_key (\<lambda>m. (ms_created_at m, ms_id m)) (filter (\<lambda>m. ms_thread m = thread) (messages s))))"

subsection \<open>The interview behind a thread\<close>

text \<open>The rows of the two updates: intakes of the thread whose active assignment is in one of \<open>phases\<close>.\<close>

definition interviewed :: "string set \<Rightarrow> assignment \<Rightarrow> bool" where
  "interviewed phases a \<longleftrightarrow> a_status a = ''active'' \<and> a_phase a \<in> phases"

definition intake_of_thread :: "id \<Rightarrow> string set \<Rightarrow> string \<Rightarrow> db \<Rightarrow> intake \<Rightarrow> bool" where
  "intake_of_thread thread phases except s n \<longleftrightarrow>
     in_thread n = Some thread \<and> in_conversation_state n \<noteq> except
     \<and> list_ex (\<lambda>a. a_id a = in_assignment n \<and> interviewed phases a) (assignments s)"

definition assignment_of_thread :: "id \<Rightarrow> string set \<Rightarrow> db \<Rightarrow> assignment \<Rightarrow> bool" where
  "assignment_of_thread thread phases s a \<longleftrightarrow>
     list_ex (\<lambda>n. in_assignment n = a_id a \<and> in_thread n = Some thread) (intakes s) \<and> interviewed phases a"

definition human_speaks :: "id \<Rightarrow> time \<Rightarrow> db \<Rightarrow> db" where
  "human_speaks thread now s =
     (let s1 = s\<lparr>intakes := update_where (intake_of_thread thread {human_interview, ready_phase} ''not_started'' s)
           (\<lambda>n. n\<lparr>in_conversation_state := ''waiting_for_agent'', in_interview_status := ''pending'',
              in_human_response := None, in_approved_by := None, in_approved_at := None,
              in_final_summary := None, in_confirmation := None, in_converged_at := None,
              in_updated_at := now\<rparr>) (intakes s)\<rparr> in
      update_assignments (assignment_of_thread thread {human_interview, ready_phase} s1)
        (\<lambda>a. a\<lparr>a_phase := human_interview, a_expires_at := max (a_expires_at a) (now + hours 24),
           a_renewed_at := now\<rparr>) s1)"

definition agent_speaks :: "id \<Rightarrow> time \<Rightarrow> db \<Rightarrow> db" where
  "agent_speaks thread now s =
     (let s1 = s\<lparr>intakes := update_where (intake_of_thread thread {human_interview} ''converged'' s)
           (\<lambda>n. n\<lparr>in_conversation_state := ''waiting_for_human'', in_interview_status := ''pending'',
              in_updated_at := now\<rparr>) (intakes s)\<rparr> in
      update_assignments (assignment_of_thread thread {human_interview} s1)
        (\<lambda>a. a\<lparr>a_expires_at := max (a_expires_at a) (now + hours 24), a_renewed_at := now\<rparr>) s1)"

subsection \<open>Messages of the human\<close>

record human_message_ids =
  hm_thread :: id
  hm_message :: id
  hm_delivery :: id

definition client_key :: "string option \<Rightarrow> string option" where
  "client_key client = Option.bind client (\<lambda>v. if trim v = [] then None else Some (trim v))"

definition check_human_message :: "id \<Rightarrow> id \<Rightarrow> string \<Rightarrow> string option \<Rightarrow> db \<Rightarrow> unit res" where
  "check_human_message task agent body client s =
     bind_res (ensure (trim body \<noteq> []) (InvalidInput ''message body cannot be empty'')) (\<lambda>_.
     bind_res (ensure (chars_count (trim body) \<le> 100000)
       (InvalidInput ''message body must be at most 100000 characters'')) (\<lambda>_.
     bind_res (get_task task s) (\<lambda>_. bind_res (get_agent agent s) (\<lambda>_.
     ensure (case client_key client of None \<Rightarrow> True | Some v \<Rightarrow> chars_count v \<le> 128)
       (InvalidInput ''client_message_id must be at most 128 characters'')))))"

definition sent_before :: "id \<Rightarrow> string option \<Rightarrow> db \<Rightarrow> message_row option" where
  "sent_before thread client s =
     (case client of None \<Rightarrow> None
      | Some c \<Rightarrow> find (\<lambda>m. ms_thread m = thread \<and> ms_client m = Some c) (messages s))"

definition human_message :: "id \<Rightarrow> id \<Rightarrow> id \<Rightarrow> string \<Rightarrow> string option \<Rightarrow> time \<Rightarrow> message_row" where
  "human_message i thread agent body client now =
     \<lparr>ms_id = i, ms_thread = thread, ms_author_type = ''human'', ms_created_by = None, ms_body = body,
      ms_status = ''queued'', ms_created_at = now, ms_recalled_at = None, ms_type = ''human_agent'',
      ms_recipient = Some agent, ms_requires_response = True, ms_recipient_role = None,
      ms_reply_to = None, ms_correlation = None, ms_client = client\<rparr>"

definition create_human_task_message_tx ::
  "id \<Rightarrow> id \<Rightarrow> string \<Rightarrow> string option \<Rightarrow> human_message_ids \<Rightarrow> time \<Rightarrow> (db, message_row option) tx" where
  "create_human_task_message_tx task agent body client ids now s =
     bind_res (ensure_task_agent_thread_tx task agent (hm_thread ids) now s) (\<lambda>(thread, s1).
     case sent_before thread client s1 of
       Some m \<Rightarrow>
         bind_res (ensure (ms_body m = body)
           (Conflict ''client_message_id was already used for different content'')) (\<lambda>_. Inr (Some m, s1))
     | None \<Rightarrow>
         bind_res (exec (insert_message (human_message (hm_message ids) thread agent body client now) s1)) (\<lambda>s2.
         bind_res (enqueue_agent_delivery_tx agent (Some task) ''task_message'' (hm_message ids)
           [(''thread_id'', PStr thread), (''message_id'', PStr (hm_message ids)), (''body'', PStr body)]
           (hm_delivery ids) now s2) (\<lambda>s3.
         Inr (None, append_event_tx ''human'' ''local'' ''task'' task ''task.message_queued''
           [(''thread_id'', PStr thread), (''message_id'', PStr (hm_message ids)),
            (''agent_instance_id'', PStr agent), (''delivery_id'', PStr (hm_delivery ids)),
            (''client_message_id'', p_opt client)] None now (human_speaks thread now s3)))))"

definition create_human_task_message ::
  "id \<Rightarrow> id \<Rightarrow> string \<Rightarrow> string option \<Rightarrow> human_message_ids \<Rightarrow> time \<Rightarrow> (db, message_row) operation" where
  "create_human_task_message task agent body client ids now =
     checked (check_human_message task agent body client) (\<lambda>_.
       commit_then (create_human_task_message_tx task agent (trim body) (client_key client) ids now)
         (\<lambda>r s. case r of Some m \<Rightarrow> Inr m | None \<Rightarrow> get_task_message (hm_message ids) s))"

definition human_message_of :: "id \<Rightarrow> id \<Rightarrow> id \<Rightarrow> db \<Rightarrow> message_row option" where
  "human_message_of task agent i s =
     find (\<lambda>m. ms_id m = i \<and> list_ex (\<lambda>h. th_id h = ms_thread m \<and> human_thread task agent h) (threads s)) (messages s)"

definition delivery_of :: "id \<Rightarrow> delivery \<Rightarrow> bool" where
  "delivery_of message d \<longleftrightarrow> dl_kind d = ''task_message'' \<and> dl_source d = message"

definition recall_human_task_message_tx :: "id \<Rightarrow> id \<Rightarrow> id \<Rightarrow> time \<Rightarrow> (db, message_row option) tx" where
  "recall_human_task_message_tx task agent i now s =
     bind_res (ok_or (NotFound (''task message '' @ i)) (human_message_of task agent i s)) (\<lambda>m.
     bind_res (ensure (ms_author_type m = ''human'') (Conflict ''only Human task messages can be recalled'')) (\<lambda>_.
     if ms_recalled_at m \<noteq> None then Inr (Some m, s)
     else bind_res (ensure (map_option dl_status (find (delivery_of i) (deliveries s)) = Some ''queued'')
       (Conflict ''task message can only be recalled before delivery'')) (\<lambda>_.
     let s1 = update_messages (\<lambda>m. ms_id m = i \<and> ms_recalled_at m = None)
           (\<lambda>m. m\<lparr>ms_recalled_at := Some now, ms_status := ''recalled''\<rparr>) s;
         s2 = s1\<lparr>deliveries := filter (\<lambda>d. \<not> (delivery_of i d \<and> dl_status d = ''queued'')) (deliveries s1)\<rparr>
     in Inr (None, append_event_tx ''human'' ''local'' ''task'' task ''task.message_recalled''
          [(''message_id'', PStr i), (''agent_instance_id'', PStr agent)] None now s2))))"

definition recall_human_task_message :: "id \<Rightarrow> id \<Rightarrow> id \<Rightarrow> time \<Rightarrow> (db, message_row) operation" where
  "recall_human_task_message task agent i now =
     checked (\<lambda>s. bind_res (get_task task s) (\<lambda>_. get_agent agent s)) (\<lambda>_.
       commit_then (recall_human_task_message_tx task agent i now)
         (\<lambda>r s. case r of Some m \<Rightarrow> Inr m | None \<Rightarrow> get_task_message i s))"

subsection \<open>Messages of the agent\<close>

text \<open>The messages of the human that still wait for the agent of the thread.\<close>

definition awaiting_agent :: "id \<Rightarrow> message_row \<Rightarrow> bool" where
  "awaiting_agent thread m \<longleftrightarrow>
     ms_thread m = thread \<and> ms_author_type m = ''human'' \<and> ms_status m = ''queued'' \<and> ms_recalled_at m = None"

definition delivered_to :: "string \<Rightarrow> time \<Rightarrow> delivery \<Rightarrow> delivery" where
  "delivered_to by now d = d\<lparr>dl_status := ''delivered'', dl_by := Some by, dl_delivered_at := Some now\<rparr>"

definition answered :: "id \<Rightarrow> id \<Rightarrow> id \<Rightarrow> db \<Rightarrow> delivery \<Rightarrow> bool" where
  "answered thread task agent s d \<longleftrightarrow>
     dl_agent d = agent \<and> dl_task d = Some task \<and> dl_kind d = ''task_message'' \<and> dl_status d = ''queued''
     \<and> list_ex (\<lambda>m. ms_id m = dl_source d \<and> awaiting_agent thread m) (messages s)"

definition agent_message :: "id \<Rightarrow> id \<Rightarrow> id \<Rightarrow> string \<Rightarrow> time \<Rightarrow> message_row" where
  "agent_message i thread agent body now =
     \<lparr>ms_id = i, ms_thread = thread, ms_author_type = ''agent'', ms_created_by = Some agent, ms_body = body,
      ms_status = ''delivered'', ms_created_at = now, ms_recalled_at = None, ms_type = ''human_agent'',
      ms_recipient = None, ms_requires_response = False, ms_recipient_role = None,
      ms_reply_to = None, ms_correlation = None, ms_client = None\<rparr>"

definition agent_reply_tx :: "id \<Rightarrow> id \<Rightarrow> id \<Rightarrow> string \<Rightarrow> id \<Rightarrow> time \<Rightarrow> (db, unit) tx" where
  "agent_reply_tx thread task agent body fresh now s =
     (let s1 = update_deliveries (answered thread task agent s) (delivered_to (''message_create:'' @ agent) now) s;
         s2 = update_messages (awaiting_agent thread) (\<lambda>m. m\<lparr>ms_status := ''delivered''\<rparr>) s1 in
     bind_res (exec (insert_message (agent_message fresh thread agent body now) s2)) (\<lambda>s3.
     Inr ((), append_event_tx ''agent_instance'' agent ''task'' task ''task.message_replied''
       [(''thread_id'', PStr thread), (''message_id'', PStr fresh)] None now (agent_speaks thread now s3))))"

definition agent_reply_task_thread :: "id \<Rightarrow> id \<Rightarrow> string \<Rightarrow> id \<Rightarrow> time \<Rightarrow> (db, message_row) operation" where
  "agent_reply_task_thread thread agent body fresh now =
     checked (\<lambda>s.
         bind_res (ensure (trim body \<noteq> []) (InvalidInput ''message body cannot be empty'')) (\<lambda>_.
         bind_res (get_agent agent s) (\<lambda>_.
         bind_res (ok_or (NotFound (''thread '' @ thread)) (find_thread thread s)) (\<lambda>h.
         bind_res (ensure (th_kind h = ''human_agent'' \<and> th_target h = Some agent)
           (Conflict ''thread is not the human/agent thread for this AgentInstance'')) (\<lambda>_. Inr (th_task h))))))
       (\<lambda>task. commit_then (agent_reply_tx thread task agent (trim body) fresh now) (\<lambda>_. get_task_message fresh))"

definition unrecalled_in :: "id \<Rightarrow> db \<Rightarrow> id \<Rightarrow> bool" where
  "unrecalled_in thread s i \<longleftrightarrow>
     list_ex (\<lambda>m. ms_id m = i \<and> ms_thread m = thread \<and> ms_recalled_at m = None) (messages s)"

definition acknowledge_task_thread_deliveries :: "id \<Rightarrow> id \<Rightarrow> string \<Rightarrow> time \<Rightarrow> (db, nat) operation" where
  "acknowledge_task_thread_deliveries thread agent by now =
     checked (\<lambda>s. ensure (Option.bind (find (\<lambda>h. th_id h = thread \<and> th_kind h = ''human_agent'') (threads s)) th_target
           = Some agent) (Conflict ''thread belongs to another agent instance''))
       (\<lambda>_. commit (\<lambda>s.
          let P = \<lambda>d. dl_agent d = agent \<and> dl_kind d = ''task_message'' \<and> dl_status d = ''queued''
                \<and> unrecalled_in thread s (dl_source d) in
          Inr (rows_affected P (deliveries s), update_deliveries P (delivered_to by now) s)))"

record create_message_input =
  ci_body :: string
  ci_type :: string
  ci_recipient :: "string option"
  ci_role :: "string option"
  ci_reply_to :: "string option"
  ci_correlation :: "string option"
  ci_requires_response :: bool
  ci_status :: string

definition required_opt :: "string option \<Rightarrow> string \<Rightarrow> unit res" where
  "required_opt v field = (case v of None \<Rightarrow> Inr () | Some v \<Rightarrow> required v field)"

text \<open>The checks of \<open>create_message\<close>, with the references brought into canonical form.\<close>

definition check_message :: "external \<Rightarrow> id \<Rightarrow> create_message_input \<Rightarrow> db \<Rightarrow> create_message_input res" where
  "check_message x thread i s =
     bind_res (required (ci_body i) ''body'') (\<lambda>_. bind_res (required (ci_type i) ''message_type'') (\<lambda>_.
     bind_res (required (ci_status i) ''status'') (\<lambda>_. bind_res (required_opt (ci_role i) ''recipient_role'') (\<lambda>_.
     bind_res (required_opt (ci_correlation i) ''correlation_id'') (\<lambda>_.
     bind_res (case ci_recipient i of None \<Rightarrow> Inr None
       | Some raw \<Rightarrow> bind_res (ok_or (InvalidInput ''invalid recipient UUID'') (x_parse_id x raw)) (\<lambda>g.
           bind_res (get_agent g s) (\<lambda>_. Inr (Some g)))) (\<lambda>recipient.
     bind_res (case ci_reply_to i of None \<Rightarrow> Inr None
       | Some raw \<Rightarrow> bind_res (ok_or (InvalidInput ''invalid reply UUID'') (x_parse_id x raw)) (\<lambda>m.
           bind_res (ensure (find_message m thread s \<noteq> None)
             (InvalidInput ''reply must reference a message in this thread'')) (\<lambda>_. Inr (Some m)))) (\<lambda>reply.
     Inr (i\<lparr>ci_recipient := recipient, ci_reply_to := reply\<rparr>))))))))"

definition only_body :: "create_message_input \<Rightarrow> bool" where
  "only_body i \<longleftrightarrow>
     \<not> (ci_type i \<noteq> ''note'' \<or> ci_recipient i \<noteq> None \<or> ci_role i \<noteq> None \<or> ci_reply_to i \<noteq> None
        \<or> ci_correlation i \<noteq> None \<or> ci_requires_response i \<or> ci_status i \<noteq> ''sent'')"

definition message_thread ::
  "external \<Rightarrow> id \<Rightarrow> id \<Rightarrow> create_message_input \<Rightarrow> db \<Rightarrow> (create_message_input \<times> thread_row) res" where
  "message_thread x thread actor i s =
     bind_res (check_message x thread i s) (\<lambda>i.
     bind_res (get_agent actor s) (\<lambda>_.
     bind_res (ok_or (NotFound ''thread'') (find_thread thread s)) (\<lambda>h.
     bind_res (if th_kind h = ''human_agent'' then
         bind_res (ensure (th_target h = Some actor)
           (Conflict ''human/agent thread belongs to another AgentInstance'')) (\<lambda>_.
         ensure (only_body i) (InvalidInput ''human/agent thread replies accept only the message body''))
       else Inr ()) (\<lambda>_.
     Inr (i, h)))))"

definition create_message ::
  "external \<Rightarrow> id \<Rightarrow> id \<Rightarrow> create_message_input \<Rightarrow> id \<Rightarrow> time \<Rightarrow> (db, message_row) operation" where
  "create_message x thread actor i fresh now =
     checked (message_thread x thread actor i) (\<lambda>(i, h).
       if th_kind h = ''human_agent'' then agent_reply_task_thread thread actor (ci_body i) fresh now
       else commit (\<lambda>s.
         let m = \<lparr>ms_id = fresh, ms_thread = thread, ms_author_type = ''agent'', ms_created_by = Some actor,
               ms_body = ci_body i, ms_status = ci_status i, ms_created_at = now, ms_recalled_at = None,
               ms_type = ci_type i, ms_recipient = ci_recipient i, ms_requires_response = ci_requires_response i,
               ms_recipient_role = ci_role i, ms_reply_to = ci_reply_to i, ms_correlation = ci_correlation i,
               ms_client = None\<rparr> in
         bind_res (exec (insert_message m s)) (\<lambda>s1.
         Inr (m, append_event_tx ''agent_instance'' actor ''task'' (th_task h) ''message.created''
           [(''thread_id'', PStr thread), (''message_id'', PStr fresh)] None now s1))))"

subsection \<open>Recalled messages\<close>

text \<open>
  Each message has one row and each source one delivery; and a delivery of the kind
  \<open>task_message\<close> is that of a message which has not been recalled.
\<close>

definition delivery_key :: "delivery \<Rightarrow> string \<times> id" where
  "delivery_key d = (dl_kind d, dl_source d)"

definition message_key :: "message_row \<Rightarrow> id \<times> bool" where
  "message_key m = (ms_id m, ms_recalled_at m = None)"

definition messages_ok :: "db \<Rightarrow> bool" where
  "messages_ok s \<longleftrightarrow> distinct (map ms_id (messages s)) \<and> distinct (map delivery_key (deliveries s))
     \<and> (\<forall>i. (''task_message'', i) \<in> set (map delivery_key (deliveries s)) \<longrightarrow>
          (i, True) \<in> set (map message_key (messages s)))"

lemma messages_ok_same:
  assumes "map message_key (messages s') = map message_key (messages s)"
    and "map delivery_key (deliveries s') = map delivery_key (deliveries s)"
  shows "messages_ok s' = messages_ok s"
proof -
  have "map ms_id ms = map fst (map message_key ms)" for ms by (simp add: message_key_def)
  then show ?thesis unfolding messages_ok_def assms by (metis assms(1))
qed

lemma messages_ok_events [simp]: "messages_ok (append_event_tx at ai et ei ty pl co now s) = messages_ok s"
  by (rule messages_ok_same) (simp_all add: append_event_tx_def)

lemma messages_ok_tables [simp]:
  "messages_ok (s\<lparr>threads := hs\<rparr>) = messages_ok s" "messages_ok (s\<lparr>intakes := ns\<rparr>) = messages_ok s"
  "messages_ok (update_assignments P f s) = messages_ok s"
  by (rule messages_ok_same; simp add: update_assignments_def)+

lemma messages_ok_speaks [simp]:
  "messages_ok (human_speaks thread now s) = messages_ok s" "messages_ok (agent_speaks thread now s) = messages_ok s"
  by (simp_all add: human_speaks_def agent_speaks_def Let_def)

lemma messages_ok_update_deliveries:
  "(\<And>d. P d \<Longrightarrow> delivery_key (f d) = delivery_key d) \<Longrightarrow> messages_ok (update_deliveries P f s) = messages_ok s"
  by (rule messages_ok_same) (simp_all add: update_deliveries_def map_update_where)

lemma messages_ok_update_messages:
  "(\<And>m. P m \<Longrightarrow> message_key (f m) = message_key m) \<Longrightarrow> messages_ok (update_messages P f s) = messages_ok s"
  by (rule messages_ok_same) (simp_all add: update_messages_def map_update_where)

lemma insert_message_Inr:
  "insert_message m s = Inr s' \<Longrightarrow> s' = s\<lparr>messages := messages s @ [m]\<rparr> \<and> ms_id m \<notin> set (map ms_id (messages s))"
  by (auto simp: insert_message_def list_ex_iff split: if_splits)

lemma enqueue_Inr:
  "enqueue_agent_delivery_tx agent task kind source payload fresh now s = Inr s' \<Longrightarrow>
   \<exists>d. s' = s\<lparr>deliveries := deliveries s @ [d]\<rparr> \<and> delivery_key d = (kind, source)
     \<and> (kind, source) \<notin> set (map delivery_key (deliveries s))"
  by (auto simp: enqueue_agent_delivery_tx_def delivery_key_def list_ex_iff split: if_splits
      intro!: exI [of _ "\<lparr>dl_id = fresh, dl_agent = agent, dl_task = task, dl_kind = kind, dl_source = source,
        dl_payload = payload, dl_status = ''queued'', dl_attempt = None, dl_claimed_at = None,
        dl_by = None, dl_delivered_at = None, dl_created_at = now\<rparr>"])

lemma messages_ok_insert:
  assumes "messages_ok s" "insert_message m s = Inr s'"
  shows "messages_ok s'"
  using assms(1) insert_message_Inr [OF assms(2)] by (auto simp: messages_ok_def)

lemma messages_ok_enqueue:
  assumes "messages_ok s" "insert_message m s = Inr s1" "ms_recalled_at m = None"
    and "enqueue_agent_delivery_tx agent task ''task_message'' (ms_id m) payload fresh now s1 = Inr s2"
  shows "messages_ok s2"
proof -
  from enqueue_Inr [OF assms(4)] obtain d where d: "s2 = s1\<lparr>deliveries := deliveries s1 @ [d]\<rparr>"
      "delivery_key d = (''task_message'', ms_id m)" "(''task_message'', ms_id m) \<notin> set (map delivery_key (deliveries s1))"
    by blast
  have "(ms_id m, True) \<in> set (map message_key (messages s1))"
    using insert_message_Inr [OF assms(2)] assms(3) by (simp add: message_key_def)
  with messages_ok_insert [OF assms(1,2)] d(2,3) show ?thesis
    unfolding messages_ok_def d(1) by (auto simp: eq_commute [of _ "delivery_key x" for x])
qed

lemma ensure_thread_messages:
  "ensure_task_agent_thread_tx task agent fresh now s = Inr (i, s') \<Longrightarrow>
   messages s' = messages s \<and> deliveries s' = deliveries s \<and> tasks s' = tasks s \<and> agents s' = agents s
     \<and> intakes s' = intakes s \<and> assignments s' = assignments s"
  by (auto simp: ensure_task_agent_thread_tx_def res_simps append_event_tx_def split: option.splits)

lemma create_human_txE:
  assumes "create_human_task_message_tx task agent body client ids now s = Inr (r, s')"
  obtains (sent) thread m where "ensure_task_agent_thread_tx task agent (hm_thread ids) now s = Inr (thread, s')"
      "sent_before thread client s' = Some m" "ms_body m = body" "r = Some m"
  | (queued) thread s1 s2 s3 where "ensure_task_agent_thread_tx task agent (hm_thread ids) now s = Inr (thread, s1)"
      "sent_before thread client s1 = None" "r = None"
      "insert_message (human_message (hm_message ids) thread agent body client now) s1 = Inr s2"
      "enqueue_agent_delivery_tx agent (Some task) ''task_message'' (hm_message ids)
           [(''thread_id'', PStr thread), (''message_id'', PStr (hm_message ids)), (''body'', PStr body)]
           (hm_delivery ids) now s2 = Inr s3"
      "s' = append_event_tx ''human'' ''local'' ''task'' task ''task.message_queued''
           [(''thread_id'', PStr thread), (''message_id'', PStr (hm_message ids)),
            (''agent_instance_id'', PStr agent), (''delivery_id'', PStr (hm_delivery ids)),
            (''client_message_id'', p_opt client)] None now (human_speaks thread now s3)"
  using assms by (auto simp: create_human_task_message_tx_def res_simps split: option.splits)

lemma recall_txE:
  assumes "recall_human_task_message_tx task agent i now s = Inr (r, s')"
  obtains (earlier) m where "human_message_of task agent i s = Some m" "ms_recalled_at m \<noteq> None" "r = Some m" "s' = s"
  | (recalled) m d where "human_message_of task agent i s = Some m" "ms_author_type m = ''human''" "ms_recalled_at m = None"
      "find (delivery_of i) (deliveries s) = Some d" "dl_status d = ''queued''" "r = None"
      "s' = append_event_tx ''human'' ''local'' ''task'' task ''task.message_recalled''
          [(''message_id'', PStr i), (''agent_instance_id'', PStr agent)] None now
          (update_messages (\<lambda>m. ms_id m = i \<and> ms_recalled_at m = None)
             (\<lambda>m. m\<lparr>ms_recalled_at := Some now, ms_status := ''recalled''\<rparr>) s
           \<lparr>deliveries := filter (\<lambda>d. \<not> (delivery_of i d \<and> dl_status d = ''queued'')) (deliveries s)\<rparr>)"
  using assms by (auto simp: recall_human_task_message_tx_def res_simps Let_def update_messages_def split: if_splits)

text \<open>The only delivery of a message goes with its recall.\<close>

lemma only_delivery:
  assumes "messages_ok s" "find (delivery_of i) (deliveries s) = Some d" "dl_status d = ''queued''"
  shows "filter (\<lambda>d. \<not> (delivery_of i d \<and> dl_status d = ''queued'')) (deliveries s)
       = filter (\<lambda>d. \<not> delivery_of i d) (deliveries s)"
proof (rule filter_cong [OF refl])
  fix e assume e: "e \<in> set (deliveries s)"
  have d: "d \<in> set (deliveries s)" "delivery_of i d" using find_Some_in [OF assms(2)] by simp_all
  have "e = d" if "delivery_of i e"
    using assms(1) e d that distinct_map_inj [of delivery_key "deliveries s" e d]
    by (simp add: messages_ok_def delivery_key_def delivery_of_def)
  with assms(3) show "(\<not> (delivery_of i e \<and> dl_status e = ''queued'')) = (\<not> delivery_of i e)" by auto
qed

lemma messages_ok_recall:
  assumes ok: "messages_ok s" and tx: "recall_human_task_message_tx task agent i now s = Inr (r, s')"
  shows "messages_ok s'"
  using tx
proof (cases rule: recall_txE)
  case (recalled m d)
  let ?ms = "update_where (\<lambda>m. ms_id m = i \<and> ms_recalled_at m = None)
             (\<lambda>m. m\<lparr>ms_recalled_at := Some now, ms_status := ''recalled''\<rparr>) (messages s)"
  let ?ds = "filter (\<lambda>d. \<not> delivery_of i d) (deliveries s)"
  have rows: "messages s' = ?ms" "deliveries s' = ?ds"
    using only_delivery [OF ok recalled(4,5)] by (simp_all add: recalled(7) update_messages_def append_event_tx_def)
  have "map ms_id ?ms = map ms_id (messages s)" by (rule map_update_where) simp
  moreover have "(j, True) \<in> set (map message_key ?ms)"
    if "(j, True) \<in> set (map message_key (messages s))" "j \<noteq> i" for j
    using that by (force simp: set_update_where message_key_def)
  moreover have "(''task_message'', j) \<in> set (map delivery_key (deliveries s)) \<and> j \<noteq> i"
    if "(''task_message'', j) \<in> set (map delivery_key ?ds)" for j
    using that by (auto simp: delivery_key_def delivery_of_def)
  ultimately show ?thesis using ok unfolding messages_ok_def rows by (auto intro: distinct_map_filter)
qed (use ok in simp)

lemma messages_ok_create:
  assumes ok: "messages_ok s" and tx: "create_human_task_message_tx task agent body client ids now s = Inr (r, s')"
  shows "messages_ok s'"
  using tx
proof (cases rule: create_human_txE)
  case sent
  with ok ensure_thread_messages [OF sent(1)] messages_ok_same [of s' s] show ?thesis by simp
next
  case (queued thread s1 s2 s3)
  have "messages_ok s1" using ok ensure_thread_messages [OF queued(1)] messages_ok_same [of s1 s] by simp
  then show ?thesis
    using messages_ok_enqueue [OF _ queued(4)] queued(5,6) by (simp add: human_message_def)
qed

lemma agent_reply_txE:
  assumes "agent_reply_tx thread task agent body fresh now s = Inr (u, s')"
  obtains s3 where
      "insert_message (agent_message fresh thread agent body now)
        (update_messages (awaiting_agent thread) (\<lambda>m. m\<lparr>ms_status := ''delivered''\<rparr>)
          (update_deliveries (answered thread task agent s) (delivered_to (''message_create:'' @ agent) now) s)) = Inr s3"
      "s' = append_event_tx ''agent_instance'' agent ''task'' task ''task.message_replied''
       [(''thread_id'', PStr thread), (''message_id'', PStr fresh)] None now (agent_speaks thread now s3)"
  using assms by (auto simp: agent_reply_tx_def Let_def res_simps)

lemma messages_ok_reply:
  assumes "messages_ok s" "agent_reply_tx thread task agent body fresh now s = Inr (u, s')"
  shows "messages_ok s'"
  using assms(2)
proof (rule agent_reply_txE)
  fix s3 assume ins: "insert_message (agent_message fresh thread agent body now)
        (update_messages (awaiting_agent thread) (\<lambda>m. m\<lparr>ms_status := ''delivered''\<rparr>)
          (update_deliveries (answered thread task agent s) (delivered_to (''message_create:'' @ agent) now) s)) = Inr s3"
    and s': "s' = append_event_tx ''agent_instance'' agent ''task'' task ''task.message_replied''
       [(''thread_id'', PStr thread), (''message_id'', PStr fresh)] None now (agent_speaks thread now s3)"
  have "messages_ok s3" using messages_ok_insert [OF _ ins] assms(1)
    by (simp add: messages_ok_update_deliveries messages_ok_update_messages delivery_key_def delivered_to_def message_key_def)
  with s' show ?thesis by simp
qed

subsection \<open>Conversations as a transition system\<close>

inductive message_step :: "external \<Rightarrow> db \<Rightarrow> db \<Rightarrow> bool" for x :: external where
  send: "message_step x s (snd (create_human_task_message task agent body client ids now s))"
| recall: "message_step x s (snd (recall_human_task_message task agent i now s))"
| reply: "message_step x s (snd (agent_reply_task_thread thread agent body fresh now s))"
| acknowledge_thread: "message_step x s (snd (acknowledge_task_thread_deliveries thread agent by now s))"
| post: "message_step x s (snd (create_message x thread agent input fresh now s))"
| acknowledge: "message_step x s (snd (acknowledge_agent_delivery i agent by now s))"
| take: "message_step x s (snd (claim_agent_deliveries_for_launch attempt limit now s))"
| deliver: "message_step x s (snd (complete_claimed_agent_deliveries attempt by now s))"
| give_back: "message_step x s (snd (release_claimed_agent_deliveries attempt s))"
| recover: "message_step x s (snd (recover_agent_delivery_claims s))"

text \<open>What a step may do to the rows: recalled messages stay as they are.\<close>

definition recalled :: "message_row \<Rightarrow> bool" where
  "recalled m \<longleftrightarrow> ms_recalled_at m \<noteq> None"

definition conversation_moves :: "db \<Rightarrow> db \<Rightarrow> bool" where
  "conversation_moves s s' \<longleftrightarrow> settled recalled (messages s) (messages s')"

definition message_step_ok :: "db \<Rightarrow> db \<Rightarrow> bool" where
  "message_step_ok s s' \<longleftrightarrow> (messages_ok s \<longrightarrow> messages_ok s' \<and> conversation_moves s s')"

lemma message_step_refl: "message_step_ok s s"
  by (simp add: message_step_ok_def conversation_moves_def settled_refl)

lemma message_step_commit:
  assumes "\<And>y s'. body s = Inr (y, s') \<Longrightarrow> message_step_ok s s'"
  shows "message_step_ok s (snd (commit_then body rd s))" "message_step_ok s (snd (commit body s))"
  using assms by (auto simp: commit_def intro!: commit_then_invariant [where I = "message_step_ok s"] message_step_refl)

lemma message_step_checked:
  assumes "\<And>y. pre s = Inr y \<Longrightarrow> message_step_ok s (snd (run y s))"
  shows "message_step_ok s (snd (checked pre run s))"
  using assms by (rule checked_invariant [where I = "message_step_ok s", OF message_step_refl])

lemma message_step_deliveries:
  assumes "messages s' = messages s" "map delivery_key (deliveries s') = map delivery_key (deliveries s)"
  shows "message_step_ok s s'"
  using assms messages_ok_same [of s' s] by (simp add: message_step_ok_def conversation_moves_def settled_refl)

lemma message_step_update_deliveries:
  "(\<And>d. P d \<Longrightarrow> delivery_key (f d) = delivery_key d) \<Longrightarrow> message_step_ok s (update_deliveries P f s)"
  by (rule message_step_deliveries) (simp_all add: update_deliveries_def map_update_where)

lemma settled_append: "settled final rows (rows @ new)"
  by (simp add: settled_def list_all_iff)

lemma settled_update_where: "(\<And>r. P r \<Longrightarrow> \<not> final r) \<Longrightarrow> settled final rows (update_where P f rows)"
  by (force simp: settled_def list_all_iff set_update_where)

lemma messages_events [simp]: "messages (append_event_tx at ai et ei ty pl co now s) = messages s"
  by (simp add: append_event_tx_def)

lemma messages_speak [simp]:
  "messages (human_speaks thread now s) = messages s" "messages (agent_speaks thread now s) = messages s"
  by (simp_all add: human_speaks_def agent_speaks_def Let_def update_assignments_def)

lemma message_step_create:
  assumes tx: "create_human_task_message_tx task agent body client ids now s = Inr (r, s')"
  shows "message_step_ok s s'"
  using tx
proof (cases rule: create_human_txE)
  case sent
  then show ?thesis
    using messages_ok_create [OF _ tx] ensure_thread_messages [OF sent(1)]
    by (simp add: message_step_ok_def conversation_moves_def settled_refl)
next
  case (queued thread s1 s2 s3)
  then have "messages s' = messages s @ [human_message (hm_message ids) thread agent body client now]"
    using ensure_thread_messages [OF queued(1)] insert_message_Inr [OF queued(4)] enqueue_Inr [OF queued(5)] by auto
  then show ?thesis
    using messages_ok_create [OF _ tx] by (simp add: message_step_ok_def conversation_moves_def settled_append)
qed

lemma message_step_recall:
  assumes tx: "recall_human_task_message_tx task agent i now s = Inr (r, s')"
  shows "message_step_ok s s'"
proof -
  from tx have "settled recalled (messages s) (messages s')"
    by (cases rule: recall_txE)
      (auto simp: settled_refl update_messages_def recalled_def intro!: settled_update_where)
  then show ?thesis using messages_ok_recall [OF _ tx] by (simp add: message_step_ok_def conversation_moves_def)
qed

lemma message_step_reply:
  assumes tx: "agent_reply_tx thread task agent body fresh now s = Inr (u, s')"
  shows "message_step_ok s s'"
proof -
  from tx obtain m where "messages s' = update_where (awaiting_agent thread) (\<lambda>m. m\<lparr>ms_status := ''delivered''\<rparr>) (messages s) @ [m]"
    by (rule agent_reply_txE) (auto simp: update_messages_def update_deliveries_def dest!: insert_message_Inr)
  moreover have "settled recalled (messages s) (update_where (awaiting_agent thread) (\<lambda>m. m\<lparr>ms_status := ''delivered''\<rparr>) (messages s))"
    by (rule settled_update_where) (simp add: awaiting_agent_def recalled_def)
  ultimately have "settled recalled (messages s) (messages s')"
    using settled_trans [OF _ settled_append] by simp
  then show ?thesis using messages_ok_reply [OF _ tx] by (simp add: message_step_ok_def conversation_moves_def)
qed

lemma message_step_answer: "message_step_ok s (snd (agent_reply_task_thread thread agent body fresh now s))"
  unfolding agent_reply_task_thread_def by (intro message_step_checked message_step_commit) (rule message_step_reply)

lemma message_step_insert:
  "insert_message m s = Inr s' \<Longrightarrow> message_step_ok s (append_event_tx at ai et ei ty pl co now s')"
  using messages_ok_insert [of s m s'] insert_message_Inr [of m s s']
  by (auto simp: message_step_ok_def conversation_moves_def settled_append)

lemma message_step_claims: "message_step_ok s (fold (claim_one attempt now) ids s)"
proof (rule message_step_deliveries)
  show "messages (fold (claim_one attempt now) ids s) = messages s"
    by (induction ids arbitrary: s) (simp_all add: claim_one_def update_deliveries_def)
  show "map delivery_key (deliveries (fold (claim_one attempt now) ids s)) = map delivery_key (deliveries s)"
    by (simp add: fold_claim_one_rows delivery_key_def)
qed

lemma message_step_kept: "message_step x s s' \<Longrightarrow> message_step_ok s s'"
proof (induction rule: message_step.induct)
  case send
  show ?case unfolding create_human_task_message_def
    by (intro message_step_checked message_step_commit) (rule message_step_create)
next
  case recall
  show ?case unfolding recall_human_task_message_def
    by (intro message_step_checked message_step_commit) (rule message_step_recall)
next
  case reply
  show ?case by (rule message_step_answer)
next
  case acknowledge_thread
  show ?case unfolding acknowledge_task_thread_deliveries_def
    by (intro message_step_checked message_step_commit)
      (auto simp: Let_def delivery_key_def delivered_to_def intro: message_step_update_deliveries)
next
  case (post s thread agent input fresh now)
  show ?case unfolding create_message_def
  proof (rule message_step_checked, clarify)
    fix i h assume "message_thread x thread agent input s = Inr (i, h)"
    show "message_step_ok s (snd ((if th_kind h = ''human_agent'' then agent_reply_task_thread thread agent (ci_body i) fresh now
       else commit (\<lambda>s.
         let m = \<lparr>ms_id = fresh, ms_thread = thread, ms_author_type = ''agent'', ms_created_by = Some agent,
               ms_body = ci_body i, ms_status = ci_status i, ms_created_at = now, ms_recalled_at = None,
               ms_type = ci_type i, ms_recipient = ci_recipient i, ms_requires_response = ci_requires_response i,
               ms_recipient_role = ci_role i, ms_reply_to = ci_reply_to i, ms_correlation = ci_correlation i,
               ms_client = None\<rparr> in
         bind_res (exec (insert_message m s)) (\<lambda>s1.
         Inr (m, append_event_tx ''agent_instance'' agent ''task'' (th_task h) ''message.created''
           [(''thread_id'', PStr thread), (''message_id'', PStr fresh)] None now s1)))) s))"
      by (cases "th_kind h = ''human_agent''")
        (auto simp: Let_def res_simps message_step_answer intro!: message_step_commit elim: message_step_insert)
  qed
next
  case acknowledge
  show ?case unfolding acknowledge_agent_delivery_def acknowledge_agent_delivery_tx_def
    by (intro message_step_checked message_step_commit)
      (auto simp: res_simps delivery_key_def update_deliveries_def message_step_refl
        intro!: message_step_deliveries map_update_where split: if_splits)
next
  case take
  show ?case unfolding claim_agent_deliveries_for_launch_def claim_agent_deliveries_tx_def
    by (intro message_step_checked message_step_commit) (auto simp: res_simps Let_def intro: message_step_claims)
next
  case deliver
  show ?case unfolding complete_claimed_agent_deliveries_def
    by (intro message_step_commit) (auto simp: delivery_key_def intro: message_step_update_deliveries)
next
  case give_back
  show ?case unfolding release_claimed_agent_deliveries_def
    by (intro message_step_commit) (auto simp: delivery_key_def intro: message_step_update_deliveries)
next
  case recover
  show ?case unfolding recover_agent_delivery_claims_def
    by (intro message_step_commit) (auto simp: delivery_key_def intro: message_step_update_deliveries)
qed

interpretation conversation: transition_system "message_step x" messages_ok conversation_moves for x
proof
  fix s s' assume "messages_ok s" "message_step x s s'"
  then show "messages_ok s' \<and> conversation_moves s s'" using message_step_kept [of x s s'] by (simp add: message_step_ok_def)
next
  fix s s' s''
  show "conversation_moves s s" by (simp add: conversation_moves_def settled_refl)
  show "conversation_moves s s' \<Longrightarrow> conversation_moves s' s'' \<Longrightarrow> conversation_moves s s''"
    unfolding conversation_moves_def by (rule settled_trans)
qed

subsection \<open>Properties\<close>


lemma find_append_fresh: "find P xs = None \<Longrightarrow> P x \<Longrightarrow> find P (xs @ [x]) = Some x"
  by (induction xs) (auto split: if_splits)

lemma ensure_thread_again:
  assumes "ensure_task_agent_thread_tx task agent fresh now s = Inr (thread, s1)" "threads s2 = threads s1"
  shows "ensure_task_agent_thread_tx task agent fresh' now' s2 = Inr (thread, s2)"
  using assms by (auto simp: ensure_task_agent_thread_tx_def res_simps append_event_tx_def last_max_append split: option.splits)

text \<open>
  C37. A human message is sent once: sending again under the same client identifier answers the
  message sent first and changes nothing, and with another text it is a conflict, whatever
  identifiers and time the second call brings.
\<close>

theorem human_message_sent_once:
  assumes "create_human_task_message task agent body client ids now s = (Inr m, s')"
    and "client_key client = Some c" "client_key client' = Some c"
    and "check_human_message task agent body' client' s' = Inr ()"
  shows "create_human_task_message task agent body' client' ids' now' s' =
    (if trim body' = trim body then Inr m
     else Inl (Conflict ''client_message_id was already used for different content''), s')"
proof -
  from assms(1) obtain r where tx: "create_human_task_message_tx task agent (trim body) (Some c) ids now s = Inr (r, s')"
    and m: "(case r of Some m \<Rightarrow> Inr m | None \<Rightarrow> get_task_message (hm_message ids) s') = Inr m"
    unfolding create_human_task_message_def assms(2) by (auto simp: res_simps commit_then_Inr)
  have "\<exists>thread. ensure_task_agent_thread_tx task agent (hm_thread ids') now' s' = Inr (thread, s')
      \<and> sent_before thread (Some c) s' = Some m \<and> ms_body m = trim body"
    using tx
  proof (cases rule: create_human_txE)
    case (sent thread m')
    with m ensure_thread_again [OF sent(1) refl] show ?thesis by auto
  next
    case (queued thread s1 s2 s3)
    let ?m = "human_message (hm_message ids) thread agent (trim body) (Some c) now"
    have s2: "s2 = s1\<lparr>messages := messages s1 @ [?m]\<rparr>" "ms_id ?m \<notin> set (map ms_id (messages s1))"
      using insert_message_Inr [OF queued(4)] by auto
    obtain ds where s3: "s3 = s2\<lparr>deliveries := ds\<rparr>" using enqueue_Inr [OF queued(5)] by auto
    have rows: "messages s' = messages s1 @ [?m]" "threads s' = threads s1"
      by (simp_all add: queued(6) s3 s2(1) human_speaks_def Let_def update_assignments_def append_event_tx_def)
    have "find (\<lambda>m. ms_id m = hm_message ids) (messages s1 @ [?m]) = Some ?m"
      using s2(2) by (intro find_append_fresh) (auto simp: find_None_iff human_message_def image_iff)
    then have "m = ?m" using m by (simp add: queued(3) get_task_message_def rows)
    moreover have "sent_before thread (Some c) s' = Some ?m"
      using queued(2) find_append_fresh [of "\<lambda>m. ms_thread m = thread \<and> ms_client m = Some c" "messages s1" ?m]
      by (simp add: sent_before_def rows human_message_def)
    ultimately show ?thesis
      using ensure_thread_again [OF queued(1) rows(2)] by (auto simp: human_message_def)
  qed
  then show ?thesis
    using assms(4) by (auto simp: create_human_task_message_def checked_def assms(3) create_human_task_message_tx_def
        commit_then_def)
qed

lemma assignment_of_thread_same:
  assumes "\<And>n. P n \<Longrightarrow> in_assignment (f n) = in_assignment n \<and> in_thread (f n) = in_thread n"
  shows "assignment_of_thread thread phases (s\<lparr>intakes := update_where P f (intakes s)\<rparr>) = assignment_of_thread thread phases s"
proof -
  have "in_assignment (if P n then f n else n) = in_assignment n \<and> in_thread (if P n then f n else n) = in_thread n" for n
    using assms by simp
  then show ?thesis by (intro ext) (simp add: assignment_of_thread_def list_ex_update_where)
qed

lemma speaks_rows:
  "intakes (human_speaks thread now s) =
     update_where (intake_of_thread thread {human_interview, ready_phase} ''not_started'' s)
       (\<lambda>n. n\<lparr>in_conversation_state := ''waiting_for_agent'', in_interview_status := ''pending'',
          in_human_response := None, in_approved_by := None, in_approved_at := None,
          in_final_summary := None, in_confirmation := None, in_converged_at := None,
          in_updated_at := now\<rparr>) (intakes s)"
  "assignments (human_speaks thread now s) =
     update_where (assignment_of_thread thread {human_interview, ready_phase} s)
       (\<lambda>a. a\<lparr>a_phase := human_interview, a_expires_at := max (a_expires_at a) (now + hours 24), a_renewed_at := now\<rparr>)
       (assignments s)"
  "intakes (agent_speaks thread now s) =
     update_where (intake_of_thread thread {human_interview} ''converged'' s)
       (\<lambda>n. n\<lparr>in_conversation_state := ''waiting_for_human'', in_interview_status := ''pending'', in_updated_at := now\<rparr>)
       (intakes s)"
  "assignments (agent_speaks thread now s) =
     update_where (assignment_of_thread thread {human_interview} s)
       (\<lambda>a. a\<lparr>a_expires_at := max (a_expires_at a) (now + hours 24), a_renewed_at := now\<rparr>) (assignments s)"
  by (simp_all add: human_speaks_def agent_speaks_def Let_def update_assignments_def assignment_of_thread_same)

text \<open>The rows of an assignment and its intake after one of the two updates.\<close>

lemma interview_row:
  assumes "a \<in> set (assignments s)" "n \<in> set (intakes s)" "in_assignment n = a_id a" "in_thread n = Some thread"
    and "interviewed phases a"
  shows "assignment_of_thread thread phases s a" "in_conversation_state n \<noteq> except \<Longrightarrow> intake_of_thread thread phases except s n"
  using assms by (auto simp: assignment_of_thread_def intake_of_thread_def list_ex_iff)

lemma of_thread_cong:
  assumes "assignments s' = assignments s" "intakes s' = intakes s"
  shows "intake_of_thread thread phases except s' = intake_of_thread thread phases except s"
    and "assignment_of_thread thread phases s' = assignment_of_thread thread phases s"
  by (intro ext, simp add: intake_of_thread_def assignment_of_thread_def assms)+

lemma queued_message_rows:
  assumes "create_human_task_message_tx task agent body client ids now s = Inr (None, s')"
    and "find (\<lambda>m. ms_id m = hm_message ids) (messages s') = Some m"
  shows "intakes s' = update_where (intake_of_thread (ms_thread m) {human_interview, ready_phase} ''not_started'' s)
       (\<lambda>n. n\<lparr>in_conversation_state := ''waiting_for_agent'', in_interview_status := ''pending'',
          in_human_response := None, in_approved_by := None, in_approved_at := None,
          in_final_summary := None, in_confirmation := None, in_converged_at := None, in_updated_at := now\<rparr>) (intakes s)
    \<and> assignments s' = update_where (assignment_of_thread (ms_thread m) {human_interview, ready_phase} s)
       (\<lambda>a. a\<lparr>a_phase := human_interview, a_expires_at := max (a_expires_at a) (now + hours 24), a_renewed_at := now\<rparr>)
       (assignments s)"
  using assms(1)
proof (cases rule: create_human_txE)
  case (queued thread s1 s2 s3)
  let ?m = "human_message (hm_message ids) thread agent body client now"
  have s2: "s2 = s1\<lparr>messages := messages s1 @ [?m]\<rparr>" "ms_id ?m \<notin> set (map ms_id (messages s1))"
    using insert_message_Inr [OF queued(4)] by auto
  obtain ds where s3: "s3 = s2\<lparr>deliveries := ds\<rparr>" using enqueue_Inr [OF queued(5)] by auto
  have same: "assignments s3 = assignments s" "intakes s3 = intakes s"
    using ensure_thread_messages [OF queued(1)] by (simp_all add: s3 s2(1))
  have "messages s' = messages s1 @ [?m]" by (simp add: queued(6) s3 s2(1))
  moreover have "find (\<lambda>m. ms_id m = hm_message ids) (messages s1 @ [?m]) = Some ?m"
    using s2(2) by (intro find_append_fresh) (auto simp: find_None_iff human_message_def image_iff)
  ultimately have "m = ?m" using assms(2) by simp
  then have thread: "ms_thread m = thread" by (simp add: human_message_def)
  show ?thesis by (simp add: queued(6) append_event_tx_def speaks_rows of_thread_cong [OF same] same thread)
qed simp

text \<open>
  C38. A message of the human stops the agent: an executor that was about to start, its interview
  agreed or still open, is back in the interview with a lease of at least a day, its agreement is
  void, and it cannot begin execution.
\<close>

theorem human_message_stops_execution:
  assumes "distinct (map a_id (assignments s))"
    and "create_human_task_message_tx task agent body client ids now s = Inr (None, s')"
    and "find (\<lambda>m. ms_id m = hm_message ids) (messages s') = Some m"
    and "a \<in> set (assignments s)" "interviewed {human_interview, ready_phase} a"
    and "n \<in> set (intakes s)" "in_assignment n = a_id a" "in_thread n = Some (ms_thread m)"
  shows "(\<exists>b \<in> set (assignments s'). a_id b = a_id a \<and> a_status b = ''active'' \<and> a_phase b = human_interview
      \<and> now + hours 24 \<le> a_expires_at b)
    \<and> (\<exists>n' \<in> set (intakes s'). in_assignment n' = a_id a \<and> \<not> interview_agreed n')
    \<and> (\<forall>b. active_executor_assignment task' agent' now' s' = Inr b \<and> a_id b = a_id a \<longrightarrow>
        isl (fst (begin_task_execution x task' agent' now' s')))"
proof -
  let ?P = "assignment_of_thread (ms_thread m) {human_interview, ready_phase} s"
  let ?Q = "intake_of_thread (ms_thread m) {human_interview, ready_phase} ''not_started'' s"
  let ?f = "\<lambda>a. a\<lparr>a_phase := human_interview, a_expires_at := max (a_expires_at a) (now + hours 24), a_renewed_at := now\<rparr>"
  let ?g = "\<lambda>n. n\<lparr>in_conversation_state := ''waiting_for_agent'', in_interview_status := ''pending'',
          in_human_response := None, in_approved_by := None, in_approved_at := None,
          in_final_summary := None, in_confirmation := None, in_converged_at := None, in_updated_at := now\<rparr>"
  note rows = queued_message_rows [OF assms(2,3), THEN conjunct1] queued_message_rows [OF assms(2,3), THEN conjunct2]
  note row = interview_row [OF assms(4,6,7,8,5)]
  have "?f a \<in> set (assignments s')" unfolding rows using updated_row [OF assms(4), of ?P ?f] row(1) by simp
  then have 1: "\<exists>b \<in> set (assignments s'). a_id b = a_id a \<and> a_status b = ''active'' \<and> a_phase b = human_interview
      \<and> now + hours 24 \<le> a_expires_at b"
    using assms(5) by (intro bexI [of _ "?f a"]) (simp_all add: interviewed_def)
  have "(if ?Q n then ?g n else n) \<in> set (intakes s')" unfolding rows by (rule updated_row [OF assms(6)])
  moreover have "\<not> interview_agreed (if ?Q n then ?g n else n)"
    using row(2) by (auto simp: interview_agreed_def)
  ultimately have 2: "\<exists>n' \<in> set (intakes s'). in_assignment n' = a_id a \<and> \<not> interview_agreed n'"
    using assms(7) by (intro bexI [of _ "if ?Q n then ?g n else n"]) simp_all
  have "isl (fst (begin_task_execution x task' agent' now' s'))"
    if b: "active_executor_assignment task' agent' now' s' = Inr b" "a_id b = a_id a" for b
  proof -
    have "b \<in> set (assignments s')" using b(1) by (auto simp: active_executor_assignment_def ok_or_iff dest!: last_max_Some)
    then obtain c where c: "c \<in> set (assignments s)" "b = (if ?P c then ?f c else c)"
      unfolding rows by (rule in_update_where)
    then have "a_id c = a_id a" using b(2) by (auto split: if_splits)
    then have "c = a" using distinct_map_inj [OF assms(1) c(1) assms(4)] by blast
    with c(2) row(1) have "a_phase b = human_interview" by simp
    with b(1) show ?thesis by (simp add: begin_task_execution_def checked_def ensure_def phase_defs)
  qed
  with 1 2 show ?thesis by blast
qed

lemma replied_rows:
  assumes "a \<in> set (assignments s)" "n \<in> set (intakes s)" "in_assignment n = a_id a" "in_thread n = Some thread"
    and "interviewed {human_interview} a"
    and "assignments s' = update_where (assignment_of_thread thread {human_interview} s)
       (\<lambda>a. a\<lparr>a_expires_at := max (a_expires_at a) (now + hours 24), a_renewed_at := now\<rparr>) (assignments s)"
    and "intakes s' = update_where (intake_of_thread thread {human_interview} ''converged'' s)
       (\<lambda>n. n\<lparr>in_conversation_state := ''waiting_for_human'', in_interview_status := ''pending'', in_updated_at := now\<rparr>)
       (intakes s)"
  shows "(\<exists>b \<in> set (assignments s'). a_id b = a_id a \<and> now + hours 24 \<le> a_expires_at b)
      \<and> (in_conversation_state n \<noteq> ''converged'' \<longrightarrow>
          (\<exists>n' \<in> set (intakes s'). in_assignment n' = a_id a \<and> in_conversation_state n' = ''waiting_for_human''))"
proof -
  let ?f = "\<lambda>a. a\<lparr>a_expires_at := max (a_expires_at a) (now + hours 24), a_renewed_at := now\<rparr>"
  let ?g = "\<lambda>n. n\<lparr>in_conversation_state := ''waiting_for_human'', in_interview_status := ''pending'', in_updated_at := now\<rparr>"
  note row = interview_row [OF assms(1-5)]
  have "?f a \<in> set (assignments s')"
    unfolding assms(6) using updated_row [OF assms(1), of "assignment_of_thread thread {human_interview} s" ?f] row(1) by simp
  then have "\<exists>b \<in> set (assignments s'). a_id b = a_id a \<and> now + hours 24 \<le> a_expires_at b"
    by (intro bexI [of _ "?f a"]) simp_all
  moreover have "?g n \<in> set (intakes s')" if "in_conversation_state n \<noteq> ''converged''"
    unfolding assms(7)
    using updated_row [OF assms(2), of "intake_of_thread thread {human_interview} ''converged'' s" ?g] row(2) [OF that] by simp
  ultimately show ?thesis using assms(3) by (fastforce intro: bexI [of _ "?g n"])
qed


subsection \<open>An example conversation\<close>

definition example_conversation_store :: db where
  "example_conversation_store = example_intake_store\<lparr>
     threads := [\<lparr>th_id = ''h'', th_task = ''t'', th_kind = ''human_agent'', th_target = Some ''g'', th_created_by = Some ''g'',
       th_title = ''T'', th_created_at = 0\<rparr>],
     intakes := [(example_intake ''a'' ''t'' ''g'')\<lparr>in_thread := Some ''h''\<rparr>]\<rparr>"

definition example_message_ids :: "id \<Rightarrow> human_message_ids" where
  "example_message_ids i = \<lparr>hm_thread = ''h9'', hm_message = ''m'' @ i, hm_delivery = ''d'' @ i\<rparr>"

definition example_sent_store :: db where
  "example_sent_store =
     snd (projr (create_human_task_message_tx ''t'' ''g'' ''stop'' (Some ''c'') (example_message_ids ''1'') 2 example_conversation_store))"

lemma chars_count_length: "chars_count v \<le> length v"
  by (simp add: chars_count_def)

lemma short_human_message:
  assumes "trim body \<noteq> []" "length (trim body) \<le> 100000" "\<not> isl (get_task task s)" "\<not> isl (get_agent agent s)"
    and "client_key client = Some v" "length v \<le> 128"
  shows "check_human_message task agent body client s = Inr ()"
  using assms chars_count_length [of "trim body"] chars_count_length [of v]
  by (auto simp: check_human_message_def res_simps dest!: right_result)

lemma example_texts:
  "trim ''stop'' = ''stop''" "trim ''wait'' = ''wait''"
  "client_key (Some ''c'') = Some ''c''"
  by code_simp+

lemma example_sent:
  "\<exists>m. create_human_task_message ''t'' ''g'' ''stop'' (Some ''c'') (example_message_ids ''1'') 2 example_conversation_store
     = (Inr m, example_sent_store)"
proof -
  let ?r = "create_human_task_message_tx ''t'' ''g'' ''stop'' (Some ''c'') (example_message_ids ''1'') 2 example_conversation_store"
  have "\<not> isl (get_task ''t'' example_conversation_store)" "\<not> isl (get_agent ''g'' example_conversation_store)" by code_simp+
  then have check: "check_human_message ''t'' ''g'' ''stop'' (Some ''c'') example_conversation_store = Inr ()"
    by (intro short_human_message [of _ _ _ _ _ "''c''"]) (simp_all add: example_texts)
  have "\<not> isl ?r" "fst (projr ?r) = None" by code_simp+
  then have tx: "?r = Inr (None, example_sent_store)" unfolding example_sent_store_def by (auto dest!: right_result)
  have "\<not> isl (get_task_message (hm_message (example_message_ids ''1'')) example_sent_store)" by code_simp
  then obtain m where "get_task_message (hm_message (example_message_ids ''1'')) example_sent_store = Inr m" by (auto dest!: right_result)
  then show ?thesis
    by (simp add: create_human_task_message_def checked_def check example_texts commit_then_def tx)
qed

lemma example_sent_ok: "messages_ok example_sent_store"
proof -
  have "messages_ok example_conversation_store"
    by (simp add: messages_ok_def example_conversation_store_def example_intake_store_def empty_db_def)
  with message_step_kept [OF message_step.send] example_sent show ?thesis
    unfolding message_step_ok_def by (metis snd_conv)
qed


theorem human_message_sent_once_witness:
  "\<exists>m. create_human_task_message ''t'' ''g'' ''stop'' (Some ''c'') (example_message_ids ''2'') 5 example_sent_store
      = (Inr m, example_sent_store)
    \<and> create_human_task_message ''t'' ''g'' ''wait'' (Some ''c'') (example_message_ids ''3'') 6 example_sent_store
      = (Inl (Conflict ''client_message_id was already used for different content''), example_sent_store)"
proof -
  obtain m where sent: "create_human_task_message ''t'' ''g'' ''stop'' (Some ''c'') (example_message_ids ''1'') 2 example_conversation_store
      = (Inr m, example_sent_store)" using example_sent by blast
  have "\<not> isl (get_task ''t'' example_sent_store)" "\<not> isl (get_agent ''g'' example_sent_store)" by code_simp+
  then have checks: "check_human_message ''t'' ''g'' ''stop'' (Some ''c'') example_sent_store = Inr ()"
    "check_human_message ''t'' ''g'' ''wait'' (Some ''c'') example_sent_store = Inr ()"
    by (auto intro!: short_human_message [of _ _ _ _ _ "''c''"] simp: example_texts)
  with human_message_sent_once [OF sent example_texts(3,3) checks(1)] human_message_sent_once [OF sent example_texts(3,3) checks(2)]
  show ?thesis by (simp add: example_texts)
qed

theorem human_message_stops_execution_witness:
  "\<exists>s'. create_human_task_message_tx ''t'' ''g'' ''stop'' None (example_message_ids ''1'') 2 example_conversation_store = Inr (None, s')
    \<and> (\<exists>b \<in> set (assignments s'). a_id b = ''a'' \<and> a_phase b = human_interview)"
proof -
  let ?r = "create_human_task_message_tx ''t'' ''g'' ''stop'' None (example_message_ids ''1'') 2 example_conversation_store"
  have "\<not> isl ?r" "fst (projr ?r) = None"
    "map_option ms_thread (find (\<lambda>m. ms_id m = hm_message (example_message_ids ''1'')) (messages (snd (projr ?r)))) = Some ''h''"
    by code_simp+
  then obtain s' m where s': "?r = Inr (None, s')"
    and m: "find (\<lambda>m. ms_id m = hm_message (example_message_ids ''1'')) (messages s') = Some m" "ms_thread m = ''h''"
    by (auto dest!: right_result)
  let ?a = "(example_assignment ''a'' ''t'' ''executor'' ''g'' ''active'' 10)\<lparr>a_phase := ''ready''\<rparr>"
  let ?n = "(example_intake ''a'' ''t'' ''g'')\<lparr>in_thread := Some ''h''\<rparr>"
  have "distinct (map a_id (assignments example_conversation_store))" "?a \<in> set (assignments example_conversation_store)"
    "interviewed {human_interview, ready_phase} ?a" "?n \<in> set (intakes example_conversation_store)"
    "in_assignment ?n = a_id ?a" "in_thread ?n = Some (ms_thread m)"
    by (simp_all add: example_conversation_store_def example_intake_store_def example_defs interviewed_def phase_defs
        example_intake_def m(2))
  from human_message_stops_execution [OF this(1) s' m(1) this(2-6), THEN conjunct1] s' show ?thesis
    by (auto simp: example_defs)
qed


end
