(* ===== verification/Operations.thy ===== *)
theory Operations
  imports Takeover Dispatch Rework Handoffs JobWaits Messages
begin

text \<open>
  What the operations of takeover, requests, dispatch, rework, records, handoffs, runtimes, job
  waits and messages keep: one lemma each, collected for the step relation of the whole store.
\<close>

named_theorems operation_keeps

lemma keeps_takeover [operation_keeps]:
  "keeps s (snd (takeover_task_request x q ids now s))" "keeps s (snd (takeover_task x q ids now s))"
  unfolding takeover_task_def takeover_task_request_def by (auto intro!: keeps_operation intro: keeps_takeover_tx)

lemma keeps_request_assignment [operation_keeps]: "keeps s (snd (request_assignment task agent role reason fresh now s))"
  unfolding request_assignment_def by (auto intro!: keeps_operation intro: keeps_request_assignment_tx)

lemma keeps_resolve_request [operation_keeps]:
  "keeps s (snd (resolve_assignment_request x i employee action resolution lease fresh now s))"
  unfolding resolve_assignment_request_def by (auto intro!: keeps_operation intro: keeps_resolve_request_tx)

lemma keeps_set_continuation [operation_keeps]: "keeps s (snd (set_task_continuation_policy task enabled ids now s))"
  unfolding set_task_continuation_policy_def by (auto intro!: keeps_operation intro: keeps_set_continuation_tx)

lemma keeps_set_dispatch_policy [operation_keeps]: "keeps s (snd (set_dispatch_policy task policy now s))"
  unfolding set_dispatch_policy_def by (auto intro!: keeps_operation intro: keeps_set_dispatch_policy_tx)

lemma keeps_set_scheduler [operation_keeps]: "keeps s (snd (set_scheduler_settings role enabled interval auto_launch now s))"
  unfolding set_scheduler_settings_def by (auto intro!: keeps_operation simp: keeps_upsert_scheduler)

lemma keeps_dispatch_task [operation_keeps]: "keeps s (snd (dispatch_task x task role i j now s))"
  unfolding dispatch_task_def by (auto intro!: keeps_operation intro: keeps_dispatch_task_tx)

lemma keeps_dispatch_next [operation_keeps]: "keeps s (snd (dispatch_next_inner x role record_none supply now s))"
  unfolding dispatch_next_inner_def Let_def
  by (auto intro!: keeps_operation intro: keeps_trans [OF keeps_expire_stale keeps_dispatch_loop])

lemma keeps_create_rework [operation_keeps]: "keeps s (snd (create_rework_task x rework fresh fresh' now s))"
  unfolding create_rework_task_def by (auto intro!: keeps_operation intro: keeps_create_rework_tx)

lemma keeps_reopen [operation_keeps]: "keeps s (snd (reopen_task task reason now s))"
  unfolding reopen_task_def by (auto intro!: keeps_operation intro: keeps_reopen_task_tx)

lemma keeps_create_milestone [operation_keeps]: "keeps s (snd (create_run_milestone x run actor milestone fresh now s))"
  unfolding create_run_milestone_def by (auto intro!: keeps_operation intro: keeps_create_milestone_tx)

lemma keeps_create_handoff [operation_keeps]: "keeps s (snd (create_handoff x run actor handoff fresh now s))"
  unfolding create_handoff_def by (auto intro!: keeps_operation intro: keeps_create_handoff_tx)

lemma keeps_accept_handoff [operation_keeps]: "keeps s (snd (accept_handoff i run actor now s))"
  unfolding accept_handoff_def by (auto intro!: keeps_operation intro: keeps_accept_handoff_tx)

lemma keeps_reconcile_handoffs [operation_keeps]: "keeps s (snd (reconcile_legacy_handoff_tasks now s))"
  unfolding reconcile_legacy_handoff_tasks_def Let_def by (auto intro!: keeps_operation keeps_reconcile)

lemma keeps_request_run_cancel [operation_keeps]: "keeps s (snd (request_run_cancel run now s))"
  unfolding request_run_cancel_def by (auto intro!: keeps_operation intro: keeps_request_run_cancel_tx)

lemma keeps_mark_terminalized [operation_keeps]: "keeps s (snd (mark_runtime_scope_terminalized run now s))"
  unfolding mark_runtime_scope_terminalized_def by (auto intro!: keeps_operation simp: res_simps split: if_splits)

lemma keeps_begin_expired_cleanup [operation_keeps]: "keeps s (snd (begin_expired_cleanup run now s))"
  unfolding begin_expired_cleanup_def by (auto intro!: keeps_operation intro: keeps_begin_expired_cleanup_tx)

lemma keeps_complete_runtime_cleanup [operation_keeps]: "keeps s (snd (complete_runtime_cleanup run now s))"
  unfolding complete_runtime_cleanup_def by (auto intro!: keeps_operation intro: keeps_complete_runtime_cleanup_tx)

lemma keeps_register_wait [operation_keeps]: "keeps s (snd (register_run_job_wait wait actor fresh fresh' now s))"
  unfolding register_run_job_wait_def by (auto intro!: keeps_operation intro: register_run_job_wait_tx_ok(1))

lemma keeps_ingest [operation_keeps]:
  "keeps s (snd (ingest_runtime_job_terminal_event job_event ids now s))"
  "keeps s (snd (ingest_lsm_job_terminal_event lsm_event ids now s))"
  unfolding ingest_lsm_job_terminal_event_def ingest_runtime_job_terminal_event_def
  by (auto intro!: keeps_operation intro: keeps_ingest_event_tx)

lemma keeps_restart [operation_keeps]:
  "keeps s (snd (enqueue_run_restart run grace attempt job now s))"
  "keeps s (snd (enqueue_run_delivery_resume run grace attempt job now s))"
  "keeps s (snd (enqueue_run_job_wait_resume box grace attempt job now s))"
  unfolding enqueue_run_restart_def enqueue_run_delivery_resume_def enqueue_run_job_wait_resume_def
  by (auto intro!: keeps_operation intro: enqueue_run_restart_tx_ok(1))

lemmas keeps_plain_operations [operation_keeps] =
  keeps_create_record keeps_bind_run_runtime keeps_capability keeps_adhoc keeps_renew_interrupted

subsection \<open>Messages\<close>

lemma keeps_filter_deliveries:
  assumes "\<And>d. delivered d \<Longrightarrow> Q d"
  shows "keeps s (s\<lparr>deliveries := filter Q (deliveries s)\<rparr>)"
proof -
  let ?s = "s\<lparr>deliveries := filter Q (deliveries s)\<rparr>"
  have "store_ok ?s" if "store_ok s"
    using that core_ok_same [of s ?s] graph_ok_cong [of ?s s] contexts_ok_cong [of ?s s] revisions_ok_cong [of ?s s]
    by (simp add: store_ok_def)
  then show ?thesis
    using settled_filter [of delivered Q "deliveries s"] assms
    by (simp add: keeps_def run_cycle.advances_refl assignment_cycle.advances_refl)
qed

lemma keeps_human_speaks: "keeps s (human_speaks thread now s)"
  unfolding human_speaks_def Let_def
  by (rule keeps_trans [where s' = "s\<lparr>intakes := ns\<rparr>" for ns], simp) (rule keeps_update_assignments, auto simp: row_defs assignment_of_thread_def interviewed_def)

lemma keeps_agent_speaks: "keeps s (agent_speaks thread now s)"
  unfolding agent_speaks_def Let_def
  by (rule keeps_trans [where s' = "s\<lparr>intakes := ns\<rparr>" for ns], simp) (rule keeps_update_assignments, auto simp: row_defs assignment_of_thread_def interviewed_def)

lemma keeps_insert_message: "insert_message m s = Inr s' \<Longrightarrow> keeps s s'"
  by (auto dest!: insert_message_Inr)

lemma keeps_create_human_tx:
  assumes "create_human_task_message_tx task agent body client ids now s = Inr (r, s')"
  shows "keeps s s'"
  using assms
proof (cases rule: create_human_txE)
  case sent
  then show ?thesis by (auto intro: keeps_ensure_thread)
next
  case queued
  show ?thesis
    unfolding queued(6) keeps_append_event
    by (rule keeps_trans [OF keeps_ensure_thread [OF queued(1)]
        keeps_trans [OF keeps_insert_message [OF queued(4)] keeps_trans [OF keeps_enqueue [OF queued(5)] keeps_human_speaks]]])
qed

lemma keeps_recall_tx:
  assumes "recall_human_task_message_tx task agent i now s = Inr (r, s')"
  shows "keeps s s'"
  using assms
proof (cases rule: recall_txE)
  case recalled
  let ?t = "update_messages (\<lambda>m. ms_id m = i \<and> ms_recalled_at m = None)
             (\<lambda>m. m\<lparr>ms_recalled_at := Some now, ms_status := ''recalled''\<rparr>) s"
  have "keeps s ?t" by (simp add: update_messages_def)
  moreover have "keeps ?t (?t\<lparr>deliveries := filter (\<lambda>d. \<not> (delivery_of i d \<and> dl_status d = ''queued'')) (deliveries ?t)\<rparr>)"
    by (rule keeps_filter_deliveries) (simp add: delivered_def)
  ultimately have "keeps s (?t\<lparr>deliveries := filter (\<lambda>d. \<not> (delivery_of i d \<and> dl_status d = ''queued'')) (deliveries ?t)\<rparr>)"
    by (rule keeps_trans)
  then show ?thesis unfolding recalled(7) keeps_append_event by (simp add: update_messages_def)
qed simp

lemma keeps_answer_deliveries: "keeps s (update_deliveries P (delivered_to by now) s)" if "\<And>d. P d \<Longrightarrow> dl_status d = ''queued''"
  by (rule keeps_deliveries, rule delivery_advances_update)
    (use that in \<open>auto simp: delivery_row_defs delivered_to_def update_deliveries_def\<close>)

lemma keeps_agent_reply_tx:
  assumes "agent_reply_tx thread task agent body fresh now s = Inr (u, s')"
  shows "keeps s s'"
  using assms
proof (rule agent_reply_txE)
  fix s3
  let ?s1 = "update_deliveries (answered thread task agent s) (delivered_to (''message_create:'' @ agent) now) s"
  assume ins: "insert_message (agent_message fresh thread agent body now)
        (update_messages (awaiting_agent thread) (\<lambda>m. m\<lparr>ms_status := ''delivered''\<rparr>) ?s1) = Inr s3"
    and s': "s' = append_event_tx ''agent_instance'' agent ''task'' task ''task.message_replied''
       [(''thread_id'', PStr thread), (''message_id'', PStr fresh)] None now (agent_speaks thread now s3)"
  have "keeps s ?s1" by (rule keeps_answer_deliveries) (simp add: answered_def)
  then have "keeps s (update_messages (awaiting_agent thread) (\<lambda>m. m\<lparr>ms_status := ''delivered''\<rparr>) ?s1)"
    by (simp add: update_messages_def)
  then show "keeps s s'"
    unfolding s' keeps_append_event by (rule keeps_trans [OF _ keeps_trans [OF keeps_insert_message [OF ins] keeps_agent_speaks]])
qed

lemma keeps_create_thread [operation_keeps]: "keeps s (snd (create_thread task actor title fresh now s))"
  unfolding create_thread_def by (auto intro!: keeps_operation simp: Let_def res_simps insert_thread_def split: if_splits)

lemma keeps_human_message [operation_keeps]:
  "keeps s (snd (create_human_task_message task agent body client ids now s))"
  "keeps s (snd (recall_human_task_message task agent i now s))"
  unfolding create_human_task_message_def recall_human_task_message_def
  by (auto intro!: keeps_operation intro: keeps_create_human_tx keeps_recall_tx)

lemma keeps_agent_reply [operation_keeps]: "keeps s (snd (agent_reply_task_thread thread agent body fresh now s))"
  unfolding agent_reply_task_thread_def by (auto intro!: keeps_operation intro: keeps_agent_reply_tx)

lemma keeps_acknowledge_thread [operation_keeps]: "keeps s (snd (acknowledge_task_thread_deliveries thread agent by now s))"
  unfolding acknowledge_task_thread_deliveries_def by (auto intro!: keeps_operation keeps_answer_deliveries simp: Let_def)

lemma keeps_create_message [operation_keeps]: "keeps s (snd (create_message x thread actor message fresh now s))"
  unfolding create_message_def
proof (rule keeps_checked, clarify)
  fix i h
  show "keeps s (snd ((if th_kind h = ''human_agent'' then agent_reply_task_thread thread actor (ci_body i) fresh now
       else commit (\<lambda>s.
         let m = \<lparr>ms_id = fresh, ms_thread = thread, ms_author_type = ''agent'', ms_created_by = Some actor,
               ms_body = ci_body i, ms_status = ci_status i, ms_created_at = now, ms_recalled_at = None,
               ms_type = ci_type i, ms_recipient = ci_recipient i, ms_requires_response = ci_requires_response i,
               ms_recipient_role = ci_role i, ms_reply_to = ci_reply_to i, ms_correlation = ci_correlation i,
               ms_client = None\<rparr> in
         bind_res (exec (insert_message m s)) (\<lambda>s1.
         Inr (m, append_event_tx ''agent_instance'' actor ''task'' (th_task h) ''message.created''
           [(''thread_id'', PStr thread), (''message_id'', PStr fresh)] None now s1)))) s))"
    by (cases "th_kind h = ''human_agent''")
      (auto simp: Let_def res_simps keeps_agent_reply intro!: keeps_commit, erule keeps_insert_message)
qed

end
