(* ===== verification/Machine.thy ===== *)
theory Machine
  imports Operations
begin

text \<open>
  The store as a transition system: one step per operation of the model, successful or not,
  and one for everything outside it that leaves the tables of the invariant alone.
\<close>

subsection \<open>Steps\<close>

inductive step :: "external \<Rightarrow> db \<Rightarrow> db \<Rightarrow> bool" for x :: external where
  claim_task: "step x s (snd (claim_task x task agent role n fresh now s))"
| claim_for_execution: "step x s (snd (claim_task_for_execution x task agent role n fresh fresh' now s))"
| start_run: "step x s (snd (start_run x i agent conversation fresh now s))"
| renew: "step x s (snd (renew_assignment i agent n now s))"
| recover: "step x s (snd (recover_assignment i run agent n reason now s))"
| expire: "step x s (snd (expire_stale_assignments now s))"
| checkpoint: "step x s (snd (checkpoint_run run agent document now s))"
| complete: "step x s (snd (complete_run x run agent document fresh now s))"
| cancel: "step x s (snd (cancel_task task now s))"
| delete: "step x s (snd (delete_task task now s))"
| withdraw: "step x s (snd (withdraw_task_as_agent task agent flag now s))"
| create_project: "step x s (snd (create_project x name description fresh now s))"
| set_project: "step x s (snd (set_task_project task project now s))"
| set_project_as_agent: "step x s (snd (set_task_project_as_agent task project agent now s))"
| bind_project: "step x s (snd (bind_unbound_task_project task p now s))"
| set_mode: "step x s (snd (set_task_assignment_mode task mode now s))"
| create_task: "step x s (snd (create_task new_task fresh fresh' now s))"
| create_context: "step x s (snd (create_context_revision x task new_context fresh now s))"
| update_context: "step x s (snd (update_context_revision x task patch fresh now s))"
| propose_revision: "step x s (snd (propose_task_revision task actor draft ids now s))"
| ack_revision: "step x s (snd (ack_task_revision x task agent text text' impact plan fresh now s))"
| reject_revision: "step x s (snd (reject_task_revision task actor i reason now s))"
| begin_verification: "step x s (snd (begin_verification run agent criterion retry fresh now s))"
| finish_verification: "step x s (snd (finish_verification i verdict document now s))"
| reconcile_verification: "step x s (snd (reconcile_verification task i reason document text now s))"
| human_review: "step x s (snd (submit_human_review task review actor fresh now s))"
| review: "step x s (snd (submit_review agent review fresh now s))"
| begin_execution: "step x s (snd (begin_task_execution x task agent now s))"
| start_interview: "step x s (snd (start_intake_interview x task agent fresh now s))"
| finalize_interview: "step x s (snd (finalize_intake_interview x task agent interview now s))"
| read_intake: "step x s (snd (task_intake_page x task agent limit offset next_offset package now s))"
| save_collection: "step x s (snd (save_task_collection chain c fresh collection now s))"
| create_group: "step x s (snd (create_agent_task_group agent fresh collection now s))"
| archive_collection: "step x s (snd (archive_task_collection chain i now s))"
| change_member: "step x s (snd (change_agent_task_group_member agent i task flag now s))"
| set_member: "step x s (snd (set_collection_member chain i task join flag now s))"
| save_edge: "step x s (snd (save_chain_edge i edge now s))"
| remove_edge: "step x s (snd (remove_chain_edge i task p now s))"
| add_dependency: "step x s (snd (add_dependency task p agent now s))"
| remove_dependency: "step x s (snd (remove_dependency task p agent now s))"
| acknowledge: "step x s (snd (acknowledge_agent_delivery i agent by now s))"
| claim_deliveries: "step x s (snd (claim_agent_deliveries_for_launch i limit now s))"
| complete_deliveries: "step x s (snd (complete_claimed_agent_deliveries i by now s))"
| release_deliveries: "step x s (snd (release_claimed_agent_deliveries i s))"
| acknowledge_instructions: "step x s (snd (acknowledge_instruction_deliveries_for_task task agent by now s))"
| acknowledge_ids: "step x s (snd (acknowledge_instruction_deliveries_for_ids is agent by now s))"
| recover_claims: "step x s (snd (recover_agent_delivery_claims s))"
| takeover: "step x s (snd (takeover_task x takeover ids now s))"
| takeover_request: "step x s (snd (takeover_task_request x takeover ids now s))"
| request_assignment: "step x s (snd (request_assignment task agent role reason fresh now s))"
| resolve_request: "step x s (snd (resolve_assignment_request x i employee action resolution lease fresh now s))"
| set_continuation: "step x s (snd (set_task_continuation_policy task enabled is now s))"
| set_dispatch_policy: "step x s (snd (set_dispatch_policy task policy now s))"
| set_scheduler: "step x s (snd (set_scheduler_settings role enabled interval auto_launch now s))"
| dispatch: "step x s (snd (dispatch_task x task role fresh fresh' now s))"
| dispatch_next: "step x s (snd (dispatch_next_inner x role record_none supply now s))"
| create_rework: "step x s (snd (create_rework_task x rework fresh fresh' now s))"
| reopen: "step x s (snd (reopen_task task reason now s))"
| create_artifact: "step x s (snd (create_artifact task actor artifact fresh now s))"
| create_decision: "step x s (snd (create_decision task actor title rationale fresh now s))"
| create_milestone: "step x s (snd (create_run_milestone x run actor milestone fresh now s))"
| create_handoff: "step x s (snd (create_handoff x run actor handoff fresh now s))"
| accept_handoff: "step x s (snd (accept_handoff i run actor now s))"
| reconcile_handoffs: "step x s (snd (reconcile_legacy_handoff_tasks now s))"
| bind_runtime: "step x s (snd (bind_run_runtime run scope now s))"
| adopt_capability: "step x s (snd (try_adopt_run_capability run capability now s))"
| clear_capability: "step x s (snd (clear_run_capability_if_matches run capability now s))"
| ensure_adhoc: "step x s (snd (ensure_adhoc_runtime_binding agent machine_id now s))"
| bind_adhoc: "step x s (snd (bind_adhoc_runtime_scope agent machine_id generation scope now s))"
| rotate_adhoc: "step x s (snd (rotate_adhoc_runtime_binding agent machine_id generation now s))"
| cancel_run: "step x s (snd (request_run_cancel run now s))"
| terminalize: "step x s (snd (mark_runtime_scope_terminalized run now s))"
| begin_cleanup: "step x s (snd (begin_expired_cleanup run now s))"
| complete_cleanup: "step x s (snd (complete_runtime_cleanup run now s))"
| renew_interrupted: "step x s (snd (renew_interrupted_assignments now s))"
| register_wait: "step x s (snd (register_run_job_wait wait actor fresh fresh' now s))"
| ingest_event: "step x s (snd (ingest_runtime_job_terminal_event job_event is now s))"
| ingest_lsm_event: "step x s (snd (ingest_lsm_job_terminal_event lsm_event is now s))"
| restart: "step x s (snd (enqueue_run_restart run grace fresh fresh' now s))"
| delivery_resume: "step x s (snd (enqueue_run_delivery_resume run grace fresh fresh' now s))"
| job_wait_resume: "step x s (snd (enqueue_run_job_wait_resume box grace fresh fresh' now s))"
| create_thread: "step x s (snd (create_thread task actor title fresh now s))"
| send_message: "step x s (snd (create_human_task_message task agent text client message_ids now s))"
| recall_message: "step x s (snd (recall_human_task_message task agent i now s))"
| reply: "step x s (snd (agent_reply_task_thread thread agent text fresh now s))"
| acknowledge_thread: "step x s (snd (acknowledge_task_thread_deliveries thread agent by now s))"
| create_message: "step x s (snd (create_message x thread actor message fresh now s))"
| environment: "tasks s' = tasks s \<Longrightarrow> assignments s' = assignments s \<Longrightarrow> runs s' = runs s
    \<Longrightarrow> dependencies s' = dependencies s \<Longrightarrow> chain_members s' = chain_members s \<Longrightarrow> contexts s' = contexts s
    \<Longrightarrow> revisions s' = revisions s \<Longrightarrow> deliveries s' = deliveries s \<Longrightarrow> step x s s'"

text \<open>The other operations of the relation.\<close>

lemma keeps_claim_task [operation_keeps]: "keeps s (snd (claim_task x task agent role n fresh now s))"
  unfolding claim_task_def by (auto intro!: keeps_operation intro: keeps_claim_task_tx split: prod.splits)

lemma keeps_claim_for_execution [operation_keeps]: "keeps s (snd (claim_task_for_execution x task agent role n fresh fresh' now s))"
  unfolding claim_task_for_execution_def by (auto intro!: keeps_operation intro: keeps_claim_for_execution_tx split: prod.splits)

lemma keeps_start_run [operation_keeps]: "keeps s (snd (start_run x i agent conversation fresh now s))"
  unfolding start_run_def by (auto intro!: keeps_operation intro: keeps_start_run_tx split: prod.splits)

lemma keeps_renew [operation_keeps]: "keeps s (snd (renew_assignment i agent n now s))"
  unfolding renew_assignment_def by (auto intro!: keeps_operation intro: keeps_renew_assignment_tx split: prod.splits)

lemma keeps_recover [operation_keeps]: "keeps s (snd (recover_assignment i run agent n reason now s))"
  unfolding recover_assignment_def by (auto intro!: keeps_operation intro: keeps_recover_assignment_tx split: prod.splits)

lemma keeps_expire [operation_keeps]: "keeps s (snd (expire_stale_assignments now s))"
  unfolding expire_stale_assignments_def by (auto intro!: keeps_operation intro: keeps_expire_tx split: prod.splits)

lemma keeps_checkpoint [operation_keeps]: "keeps s (snd (checkpoint_run run agent document now s))"
  unfolding checkpoint_run_def by (auto intro!: keeps_operation intro: keeps_checkpoint_run_tx split: prod.splits)

lemma keeps_complete [operation_keeps]: "keeps s (snd (complete_run x run agent document fresh now s))"
  unfolding complete_run_def by (auto intro!: keeps_operation intro: keeps_complete_run_tx split: prod.splits)

lemma keeps_cancel [operation_keeps]: "keeps s (snd (cancel_task task now s))"
  unfolding cancel_task_def by (auto intro!: keeps_operation intro: keeps_end_of_task(2) split: prod.splits)

lemma keeps_delete [operation_keeps]: "keeps s (snd (delete_task task now s))"
  unfolding delete_task_def by (auto intro!: keeps_operation intro: keeps_end_of_task(3) split: prod.splits)

lemma keeps_withdraw [operation_keeps]: "keeps s (snd (withdraw_task_as_agent task agent flag now s))"
  unfolding withdraw_task_as_agent_def by (auto intro!: keeps_operation intro: keeps_end_of_task(1) split: prod.splits)

lemma keeps_create_project [operation_keeps]: "keeps s (snd (create_project x name description fresh now s))"
  unfolding create_project_def by (auto intro!: keeps_operation intro: keeps_project_ops(4) split: prod.splits)

lemma keeps_set_project [operation_keeps]: "keeps s (snd (set_task_project task project now s))"
  unfolding set_task_project_def by (auto intro!: keeps_operation intro: keeps_project_ops(1) split: prod.splits)

lemma keeps_set_project_as_agent [operation_keeps]: "keeps s (snd (set_task_project_as_agent task project agent now s))"
  unfolding set_task_project_as_agent_def by (auto intro!: keeps_operation intro: keeps_project_ops(2) split: prod.splits)

lemma keeps_bind_project [operation_keeps]: "keeps s (snd (bind_unbound_task_project task p now s))"
  unfolding bind_unbound_task_project_def by (auto intro!: keeps_operation intro: keeps_project_ops(3) split: prod.splits)

lemma keeps_set_mode [operation_keeps]: "keeps s (snd (set_task_assignment_mode task mode now s))"
  unfolding set_task_assignment_mode_def by (auto intro!: keeps_operation keeps_update_tasks)

lemma keeps_create_task [operation_keeps]: "keeps s (snd (create_task new_task fresh fresh' now s))"
  unfolding create_task_def by (auto intro!: keeps_operation intro: keeps_create_task_tx split: prod.splits)

lemma keeps_create_context [operation_keeps]: "keeps s (snd (create_context_revision x task new_context fresh now s))"
  unfolding create_context_revision_def write_context_revision_def by (auto intro!: keeps_operation intro: keeps_write_context_tx split: prod.splits)

lemma keeps_update_context [operation_keeps]: "keeps s (snd (update_context_revision x task patch fresh now s))"
  unfolding update_context_revision_def write_context_revision_def by (auto intro!: keeps_operation intro: keeps_write_context_tx split: prod.splits)

lemma keeps_propose_revision [operation_keeps]: "keeps s (snd (propose_task_revision task actor draft ids now s))"
  unfolding propose_task_revision_def by (auto intro!: keeps_operation intro: keeps_propose_revision_tx split: prod.splits)

lemma keeps_ack_revision [operation_keeps]: "keeps s (snd (ack_task_revision x task agent text text' impact plan fresh now s))"
  unfolding ack_task_revision_def by (auto intro!: keeps_operation intro: keeps_revision_answers(1) split: prod.splits)

lemma keeps_reject_revision [operation_keeps]: "keeps s (snd (reject_task_revision task actor i reason now s))"
  unfolding reject_task_revision_def by (auto intro!: keeps_operation intro: keeps_revision_answers(2) split: prod.splits)

lemma keeps_begin_verification [operation_keeps]: "keeps s (snd (begin_verification run agent criterion retry fresh now s))"
  unfolding begin_verification_def by (auto intro!: keeps_operation intro: keeps_verification_ops(1) split: prod.splits)

lemma keeps_finish_verification [operation_keeps]: "keeps s (snd (finish_verification i verdict document now s))"
  unfolding finish_verification_def by (auto intro!: keeps_operation intro: keeps_verification_ops(2) split: prod.splits)

lemma keeps_reconcile_verification [operation_keeps]: "keeps s (snd (reconcile_verification task i reason document text now s))"
  unfolding reconcile_verification_def by (auto intro!: keeps_operation intro: keeps_verification_ops(3) split: prod.splits)

lemma keeps_human_review [operation_keeps]: "keeps s (snd (submit_human_review task review actor fresh now s))"
  unfolding submit_human_review_def by (auto intro!: keeps_operation intro: keeps_verification_ops(4) split: prod.splits)

lemma keeps_review [operation_keeps]: "keeps s (snd (submit_review agent review fresh now s))"
  unfolding submit_review_def by (auto intro!: keeps_operation intro: keeps_submit_review_tx split: prod.splits)

lemma keeps_begin_execution [operation_keeps]: "keeps s (snd (begin_task_execution x task agent now s))"
  unfolding begin_task_execution_def
  by (auto simp: res_simps intro!: keeps_operation intro: keeps_begin_execution_tx)

lemma keeps_start_interview [operation_keeps]: "keeps s (snd (start_intake_interview x task agent fresh now s))"
  unfolding start_intake_interview_def by (auto intro!: keeps_operation intro: keeps_start_interview_tx split: prod.splits)

lemma keeps_finalize_interview [operation_keeps]: "keeps s (snd (finalize_intake_interview x task agent interview now s))"
  unfolding finalize_intake_interview_def by (auto intro!: keeps_operation intro: keeps_finalize_interview_tx split: prod.splits)

lemma keeps_read_intake [operation_keeps]: "keeps s (snd (task_intake_page x task agent limit offset next_offset package now s))"
  unfolding task_intake_page_def record_intake_read_def by (auto intro!: keeps_operation intro: keeps_record_read_tx split: prod.splits)

lemma keeps_save_collection [operation_keeps]: "keeps s (snd (save_task_collection chain c fresh collection now s))"
  unfolding save_task_collection_def by (auto intro!: keeps_operation intro: keeps_save_collection_tx split: prod.splits)

lemma keeps_create_group [operation_keeps]: "keeps s (snd (create_agent_task_group agent fresh collection now s))"
  unfolding create_agent_task_group_def by (auto intro!: keeps_operation intro: keeps_create_group_tx split: prod.splits)

lemma keeps_archive_collection [operation_keeps]: "keeps s (snd (archive_task_collection chain i now s))"
  unfolding archive_task_collection_def by (auto intro!: keeps_operation intro: keeps_archive_collection_tx split: prod.splits)

lemma keeps_change_member [operation_keeps]: "keeps s (snd (change_agent_task_group_member agent i task flag now s))"
  unfolding change_agent_task_group_member_def by (auto intro!: keeps_operation intro: keeps_change_member_tx split: prod.splits)

lemma keeps_set_member [operation_keeps]: "keeps s (snd (set_collection_member chain i task join flag now s))"
  unfolding set_collection_member_def by (auto intro!: keeps_operation intro: keeps_set_member_tx split: prod.splits)

lemma keeps_save_edge [operation_keeps]: "keeps s (snd (save_chain_edge i edge now s))"
  unfolding save_chain_edge_def by (auto intro!: keeps_operation intro: keeps_save_edge_tx split: prod.splits)

lemma keeps_remove_edge [operation_keeps]: "keeps s (snd (remove_chain_edge i task p now s))"
  unfolding remove_chain_edge_def by (auto intro!: keeps_operation intro: keeps_remove_edge_tx split: prod.splits)

lemma keeps_add_dependency [operation_keeps]: "keeps s (snd (add_dependency task p agent now s))"
  unfolding add_dependency_def by (auto intro!: keeps_operation intro: keeps_dependency_tx split: prod.splits)

lemma keeps_remove_dependency [operation_keeps]: "keeps s (snd (remove_dependency task p agent now s))"
  unfolding remove_dependency_def by (auto intro!: keeps_operation intro: keeps_remove_dependency_tx split: prod.splits)

lemma update_deliveries_tables:
  "tasks (update_deliveries P f s) = tasks s" "assignments (update_deliveries P f s) = assignments s"
  "runs (update_deliveries P f s) = runs s" "dependencies (update_deliveries P f s) = dependencies s"
  "chain_members (update_deliveries P f s) = chain_members s" "contexts (update_deliveries P f s) = contexts s"
  "revisions (update_deliveries P f s) = revisions s"
  by (simp_all add: update_deliveries_def)

lemma keeps_update_deliveries:
  "(\<And>d. P d \<Longrightarrow> delivery_moves d (f d)) \<Longrightarrow> keeps s (update_deliveries P f s)"
  by (rule keeps_deliveries, rule delivery_advances_update) (simp_all add: update_deliveries_tables)

lemma keeps_fold_deliveries: "(\<And>i s. keeps s (f i s)) \<Longrightarrow> keeps s (fold f is s)"
  by (induction "is" arbitrary: s) (auto intro: keeps_trans)

lemmas delivery_ops = acknowledge_agent_delivery_def acknowledge_agent_delivery_tx_def
  claim_agent_deliveries_for_launch_def claim_agent_deliveries_tx_def claim_one_def
  complete_claimed_agent_deliveries_def release_claimed_agent_deliveries_def
  acknowledge_instruction_deliveries_for_task_def acknowledge_instruction_deliveries_for_ids_def
  acknowledge_instruction_def recover_agent_delivery_claims_def

lemma keeps_delivery_ops [operation_keeps]:
  "keeps s (snd (acknowledge_agent_delivery i agent by now s))"
  "keeps s (snd (claim_agent_deliveries_for_launch i limit now s))"
  "keeps s (snd (complete_claimed_agent_deliveries i by now s))"
  "keeps s (snd (release_claimed_agent_deliveries i s))"
  "keeps s (snd (acknowledge_instruction_deliveries_for_task task agent by now s))"
  "keeps s (snd (acknowledge_instruction_deliveries_for_ids is agent by now s))"
  "keeps s (snd (recover_agent_delivery_claims s))"
  unfolding delivery_ops
  by (auto simp: res_simps Let_def held_by_def instruction_of_def orphaned_claim_def delivery_row_defs
      intro!: keeps_operation keeps_update_deliveries keeps_fold_deliveries split: if_splits)

lemma step_keeps: "step x s s' \<Longrightarrow> keeps s s'"
proof (induction rule: step.induct)
  case (environment s' s)
  then show ?case by (intro keeps_same)
qed (rule operation_keeps)+

text \<open>Rows that are final stay; runs and assignments stay in their tables.\<close>

definition forward :: "db \<Rightarrow> db \<Rightarrow> bool" where
  "forward s s' \<longleftrightarrow> advances run_moves (runs s) (runs s')
     \<and> advances assignment_moves (assignments s) (assignments s')
     \<and> settled delivered (deliveries s) (deliveries s')"

interpretation store: transition_system "step x" store_ok forward for x
proof
  fix s s' assume "store_ok s" "step x s s'"
  then show "store_ok s' \<and> forward s s'"
    using step_keeps [of x s s'] by (simp add: keeps_def forward_def)
next
  fix s s' s''
  show "forward s s"
    by (simp add: forward_def run_cycle.advances_refl assignment_cycle.advances_refl settled_refl)
  show "forward s s' \<Longrightarrow> forward s' s'' \<Longrightarrow> forward s s''"
    unfolding forward_def
    by (meson run_cycle.advances_trans assignment_cycle.advances_trans settled_trans)
qed

text \<open>A store before its first task.\<close>

definition no_tasks :: "db \<Rightarrow> bool" where
  "no_tasks s \<longleftrightarrow> tasks s = [] \<and> assignments s = [] \<and> runs s = [] \<and> dependencies s = []
     \<and> chain_members s = [] \<and> contexts s = [] \<and> revisions s = []"

lemma no_tasks_ok: "no_tasks s \<Longrightarrow> store_ok s"
  by (simp add: no_tasks_def store_ok_def core_ok_def graph_ok_def deps_in_tasks_def dep_rel_def contexts_ok_def
      history_def revisions_ok_def acyclic_def trancl_empty)

end
