(* ===== verification/Guarantees.thy ===== *)
theory Guarantees
  imports Machine Examples
begin

text \<open>
  What the operations of the store guarantee, over the invariant of the whole store: reviews and
  completions, claims, leases and cancellation, contexts and revisions, the reachable stores,
  and what modelling showed of the code where it does not do what it means to. Each property
  stands before a witness that runs the code on a small store.
\<close>

text \<open>
  C4. The verdict PASS of a criterion rests on evidence: the executor reported it as passed,
  with a rationale and artifacts of every required kind, and for every verification mode the
  criterion needs, the latest receipt for this run, acceptance version and context passed.
\<close>

theorem pass_rests_on_evidence:
  assumes "st \<in> set (criterion_statuses_conn t r result s)" "st_verdict st = ''PASS''"
  shows "\<exists>c check. c \<in> set (t_criteria t) \<and> st_criterion st = cr_id c
    \<and> check_for result c = Some check \<and> evidence_reported t c check s
    \<and> (\<forall>mode \<in> set (required_modes c). \<exists>v. passing_receipt t r c mode s v
         \<and> (mode = ''independent_review'' \<longrightarrow> review_gaps r v (Some check) s = []))"
proof -
  from assms(1) obtain c where c: "c \<in> set (t_criteria t)" "st = criterion_status_of t r result s c"
    by (auto simp: criterion_statuses_conn_def)
  have "st_criterion st = cr_id c"
    by (simp add: c(2) criterion_status_of_def Let_def split: prod.splits)
  with c status_PASS [of t r result s c] assms(2) show ?thesis by metis
qed

lemma review_facts:
  assumes "submit_review agent input fresh now s = (Inr i, s')"
  shows "\<exists>reviewer executor k. find_run (rv_reviewer_run input) s = Some reviewer
    \<and> find_run (rv_executor_run input) s = Some executor
    \<and> r_agent reviewer = agent \<and> r_agent executor \<noteq> agent \<and> r_task executor = r_task reviewer
    \<and> r_status reviewer = ''running'' \<and> r_status executor \<in> {''running'', ''paused''}
    \<and> fetch_task (r_task reviewer) s = Inr k \<and> \<not> pending_revision (r_task reviewer) s
    \<and> t_context (k_row k) = rv_context input \<and> t_acceptance_version (k_row k) = rv_version input
    \<and> rv_artifacts input \<noteq> [] \<and> (\<forall>f \<in> set (rv_artifacts input). usable_artifact (r_task reviewer) f s)
    \<and> (rv_verdict input = ''PASS'' \<longrightarrow> runtime_checks_passed (k_row k) executor s)"
proof -
  from assms obtain reviewer executor k where
    "live_run_conn (rv_reviewer_run input) agent ''reviewer'' now s = Inr reviewer"
    "fetch_run (rv_executor_run input) s = Inr executor"
    "\<not> (r_task reviewer \<noteq> r_task executor \<or> r_agent reviewer = r_agent executor
         \<or> \<not> (r_status executor = ''running'' \<or> r_status executor = ''paused''))"
    "fetch_task (r_task reviewer) s = Inr k" "\<not> pending_revision (t_id (k_row k)) s"
    "t_context (k_row k) = rv_context input" "t_acceptance_version (k_row k) = rv_version input"
    "rv_verdict input = ''PASS'' \<longrightarrow> runtime_checks_passed (k_row k) executor s"
    "\<forall>f \<in> set (rv_artifacts input). usable_artifact (t_id (k_row k)) f s" "rv_artifacts input \<noteq> []"
    unfolding submit_review_def checked_Inr_iff commit_Inr_iff submit_review_tx_def res_simps Let_def
    by (elim exE conjE) (rule that, assumption+)
  note facts = this
  have "t_id (k_row k) = r_task reviewer" using fetch_task_Inr [OF facts(4)] by simp
  with facts show ?thesis
    by (intro exI [of _ reviewer] exI [of _ executor] exI [of _ k])
      (auto simp: live_run_conn_def fetch_run_def res_simps)
qed


text \<open>
  C3. A run is completed only by its agent, while its assignment's lease is live, no revision is
  pending and the task is open; for an executor every criterion is accepted and the gate is open.
  Then run and assignment are completed and the executor's task is done.
\<close>

theorem completion_is_earned:
  assumes "complete_run x i actor result fresh now s = (Inr v, s')"
  shows "\<exists>r a k. find_run i s = Some r \<and> r_agent r = actor
    \<and> fetch_assignment (r_assignment r) s = Inr a \<and> fetch_task (r_task r) s = Inr k
    \<and> lifecycle_open k r a now s
    \<and> (a_role a = ''executor'' \<longrightarrow> enforce_gate_conn (x_pointer x) (r_task r) s = Inr ()
         \<and> (\<forall>c \<in> set (t_criteria (k_row k)). status_accepted (criterion_status_of (k_row k) r result s c))
         \<and> (\<forall>t \<in> set (tasks s'). t_id t = r_task r \<longrightarrow> t_state t = ''done''))
    \<and> (\<forall>q \<in> set (runs s'). r_id q = i \<longrightarrow> r_status q = ''completed'' \<and> r_result q = Some result)
    \<and> (\<forall>b \<in> set (assignments s'). a_id b = r_assignment r \<longrightarrow> a_status b = ''completed'')"
proof -
  from assms have tx: "complete_run_tx x i actor result fresh now s = Inr ((), s')"
    by (auto simp: complete_run_def commit_then_def split: sum.splits)
  from tx obtain r d s1 b where r: "own_live_run i actor now s = Inr r"
    and d: "completion_check_conn x r result now s = Inr d" "rd_ready d"
    and s1: "save_completion_conn r d fresh now s = Inr s1" and b: "fetch_assignment (r_assignment r) s1 = Inr b"
    and tables: "runs s' = update_where (\<lambda>q. r_id q = i) (\<lambda>q. q\<lparr>r_status := ''completed'', r_stop_reason := Some ''normal'',
       r_result := Some result, r_ended_at := Some now\<rparr>) (runs s1)"
    "assignments s' = update_where (\<lambda>b. a_id b = r_assignment r)
       (\<lambda>b. b\<lparr>a_status := ''completed'', a_released_at := Some now, a_release_reason := Some ''run_completed''\<rparr>) (assignments s1)"
    "tasks s' = (if a_role b = ''executor''
       then update_where (\<lambda>t. t_id t = r_task r) (\<lambda>t. t\<lparr>t_state := ''done'', t_updated_at := now\<rparr>) (tasks s1)
       else tasks s1)"
    by (rule complete_run_txE) (rule that)
  from r have run: "find_run i s = Some r" "r_agent r = actor" by (auto simp: own_live_run_def res_simps)
  from d(2) have "rd_blockers d = []" by (simp add: rd_ready_def)
  with d(1) obtain k a where ka: "fetch_task (r_task r) s = Inr k" "fetch_assignment (r_assignment r) s = Inr a"
    "lifecycle_open k r a now s"
    "a_role a = ''executor'' \<Longrightarrow> enforce_gate_conn (x_pointer x) (t_id (k_row k)) s = Inr ()"
    "a_role a = ''executor'' \<Longrightarrow> \<forall>c \<in> set (t_criteria (k_row k)).
       status_accepted (criterion_status_of (k_row k) r result s c)"
    by (rule completion_ready) (rule that, assumption, assumption, assumption, blast, blast)
  have "a = b" using b ka(2) save_completion_tables [OF s1] by (simp add: fetch_assignment_def find_assignment_def)
  with ka(5) fetch_task_Inr [OF ka(1)] have "a_role a = ''executor'' \<longrightarrow> enforce_gate_conn (x_pointer x) (r_task r) s = Inr ()
         \<and> (\<forall>c \<in> set (t_criteria (k_row k)). status_accepted (criterion_status_of (k_row k) r result s c))
         \<and> (\<forall>t \<in> set (tasks s'). t_id t = r_task r \<longrightarrow> t_state t = ''done'')"
    using ka(4) by (auto simp: tables(3) set_update_where)
  moreover have "\<forall>q \<in> set (runs s'). r_id q = i \<longrightarrow> r_status q = ''completed'' \<and> r_result q = Some result"
    unfolding tables(1) by (rule all_update_where) simp
  moreover have "\<forall>b \<in> set (assignments s'). a_id b = r_assignment r \<longrightarrow> a_status b = ''completed''"
    unfolding tables(2) by (rule all_update_where) simp
  ultimately show ?thesis using run ka(1-3) by (intro exI conjI)
qed

text \<open>
  C11. While a revision of its task waits for the executor's answer, no run completes and no
  review is accepted: the operation answers an error and the store is unchanged.
\<close>

theorem pending_revision_blocks:
  assumes "pending_revision (r_task r) s" "find_run i s = Some r"
  shows "(\<exists>e. complete_run x i actor result fresh now s = (Inl e, s))
    \<and> (rv_reviewer_run input = i \<longrightarrow> (\<exists>e. submit_review agent input fresh now s = (Inl e, s)))"
proof
  have "\<exists>e. complete_run_tx x i actor result fresh now s = Inl e"
  proof (cases "complete_run_tx x i actor result fresh now s")
    case (Inr p)
    then obtain d where "completion_check_conn x r result now s = Inr d" "rd_ready d"
      using assms(2) by (auto simp: complete_run_tx_def own_live_run_def res_simps Let_def)
    then have "completion_check_conn x r result now s = Inr d" "rd_blockers d = []" by (simp_all add: rd_ready_def)
    then obtain k a where "fetch_task (r_task r) s = Inr k" "lifecycle_open k r a now s"
      by (rule completion_ready) (rule that)
    with assms(1) fetch_task_Inr show ?thesis by (auto simp: lifecycle_open_def)
  qed blast
  then show "\<exists>e. complete_run x i actor result fresh now s = (Inl e, s)"
    by (auto simp: complete_run_def commit_then_def)
next
  show "rv_reviewer_run input = i \<longrightarrow> (\<exists>e. submit_review agent input fresh now s = (Inl e, s))"
  proof
    assume i: "rv_reviewer_run input = i"
    obtain y s1 where op: "submit_review agent input fresh now s = (y, s1)" by fastforce
    show "\<exists>e. submit_review agent input fresh now s = (Inl e, s)"
    proof (cases y)
      case (Inr z)
      with op have "submit_review agent input fresh now s = (Inr z, s1)" by simp
      from review_facts [OF this] i assms show ?thesis by auto
    next
      case (Inl e)
      have "s1 = s" using op unfolding Inl submit_review_def checked_def
        by (cases "check_verdict (rv_verdict input) \<and> \<not> blank (rv_rationale input) \<and> rv_artifacts input \<noteq> []")
          (simp_all add: commit_error_state)
      with op Inl show ?thesis by blast
    qed
  qed
qed

definition example_criterion :: acceptance_criterion where
  "example_criterion =
     \<lparr>cr_id = ''c'', cr_requirement = ''r'', cr_verification = IndependentReview, cr_allow_not_applicable = False,
      cr_requires_independent_review = True, cr_required_artifact_kinds = [], cr_check = None,
      cr_artifact_check = None, cr_legacy_path = None\<rparr>"

definition example_review_store :: db where
  "example_review_store = empty_db\<lparr>
     tasks := [(example_task ''t'' ''in_progress'')\<lparr>t_criteria := [example_criterion]\<rparr>],
     agents := [example_agent ''e'', example_agent ''r''],
     assignments := [example_assignment ''ae'' ''t'' ''executor'' ''e'' ''active'' 10,
                     example_assignment ''ar'' ''t'' ''reviewer'' ''r'' ''active'' 10],
     runs := [example_run ''xe'' ''t'' ''ae'' ''e'' ''running'', example_run ''xr'' ''t'' ''ar'' ''r'' ''running''],
     artifacts := [\<lparr>af_id = ''f'', af_task = ''t'', af_kind = ''log'', af_uri = ''file:log'',
       af_title = ''log'', af_description = [], af_created_by = ''e'', af_created_at = 0\<rparr>]\<rparr>"

definition example_review :: review_input where
  "example_review =
     \<lparr>rv_reviewer_run = ''xr'', rv_executor_run = ''xe'', rv_criterion = ''c'', rv_verdict = ''PASS'',
      rv_rationale = ''good'', rv_artifacts = [''f''], rv_context = None, rv_version = 1, rv_operator = None\<rparr>"

definition example_report :: json where
  "example_report = JObj [(''completion'', JObj [(''checks'', JArr [JObj
     [(''artifact_ids'', JArr [JStr ''f'']), (''criterion_path'', JStr ''/acceptance_criteria/c''),
      (''rationale'', JStr ''good''), (''status'', JStr ''passed'')]])])]"

lemmas review_example_defs = example_review_store_def example_review_def example_criterion_def example_report_def
  example_defs

lemmas row_lookup_defs = find_task_def find_agent_def find_assignment_def find_run_def
  fetch_task_def fetch_run_def fetch_assignment_def row_to_task_def task_state_from_str_def assignment_mode_from_str_def

lemma good_not_blank [simp]: "\<not> blank ''good''"
  by code_simp

lemma example_review_accepted:
  "\<exists>s'. submit_review ''r'' example_review ''v'' 1 example_review_store = (Inr ''v'', s')"
  by (simp add: submit_review_def checked_def check_verdict_def review_example_defs
      commit_def commit_then_def submit_review_tx_def live_run_conn_def row_lookup_defs pending_revision_def
      needs_independent_review_def runtime_checks_passed_def usable_artifact_def uri_present_def insert_receipt_conn_def Let_def)


definition example_reviewed_store :: db where
  "example_reviewed_store = example_review_store\<lparr>
     receipts := [\<lparr>vr_id = ''v'', vr_task = ''t'', vr_run = ''xe'', vr_reviewer = Some ''xr'', vr_criterion = ''c'',
       vr_version = 1, vr_context = None, vr_kind = ''independent_review'', vr_verdict = ''PASS'',
       vr_detail = [(''artifact_ids'', JArr [JStr ''f''])], vr_finished_at = None, vr_created_at = 1\<rparr>]\<rparr>"

lemma example_status:
  "criterion_statuses_conn (hd (tasks example_reviewed_store)) (hd (runs example_reviewed_store)) example_report example_reviewed_store
   = [\<lparr>st_criterion = ''c'', st_verdict = ''PASS'', st_missing = [], st_receipts = [''v'']\<rparr>]"
  by (simp add: criterion_statuses_conn_def criterion_status_of_def example_reviewed_store_def review_example_defs
      check_for_def reported_checks_def json_get_def criterion_path_def waived_def text_at_def present_text_def
      reported_evidence_def texts_at_def map_filter_def missing_kinds_def required_modes_def apply_mode_def
      latest_receipt_def receipt_for_def mode_name_def review_gaps_def Let_def runtime_kind_def)

theorem pass_rests_on_evidence_witness:
  "\<exists>v. passing_receipt (hd (tasks example_reviewed_store)) (hd (runs example_reviewed_store)) example_criterion
     ''independent_review'' example_reviewed_store v"
proof -
  let ?t = "hd (tasks example_reviewed_store)" and ?r = "hd (runs example_reviewed_store)"
  let ?st = "\<lparr>st_criterion = ''c'', st_verdict = ''PASS'', st_missing = [], st_receipts = [''v'']\<rparr>"
  have "?st \<in> set (criterion_statuses_conn ?t ?r example_report example_reviewed_store)"
    by (simp add: example_status)
  from pass_rests_on_evidence [OF this] obtain c where "c \<in> set (t_criteria ?t)"
    "\<forall>mode \<in> set (required_modes c). \<exists>v. passing_receipt ?t ?r c mode example_reviewed_store v"
    by force
  then show ?thesis
    by (auto simp: example_reviewed_store_def review_example_defs required_modes_def mode_name_def)
qed

definition example_run_store :: db where
  "example_run_store = empty_db\<lparr>
     tasks := [example_task ''t'' ''in_progress''], agents := [example_agent ''e''],
     assignments := [example_assignment ''ae'' ''t'' ''executor'' ''e'' ''active'' 10],
     runs := [example_run ''xe'' ''t'' ''ae'' ''e'' ''running'']\<rparr>"

lemma example_completes: "\<not> isl (fst (complete_run example_external ''xe'' ''e'' (JObj []) ''co'' 1 example_run_store))"
  by code_simp

theorem completion_is_earned_witness:
  "\<exists>v s'. complete_run example_external ''xe'' ''e'' (JObj []) ''co'' 1 example_run_store = (Inr v, s')
     \<and> (\<forall>q \<in> set (runs s'). r_id q = ''xe'' \<longrightarrow> r_status q = ''completed'')"
proof -
  from example_completes obtain v s' where
    op: "complete_run example_external ''xe'' ''e'' (JObj []) ''co'' 1 example_run_store = (Inr v, s')"
    by (cases "complete_run example_external ''xe'' ''e'' (JObj []) ''co'' 1 example_run_store"; cases "fst (complete_run example_external ''xe'' ''e'' (JObj []) ''co'' 1 example_run_store)") auto
  from completion_is_earned [OF this] op show ?thesis by blast
qed

definition example_revision :: task_revision where
  "example_revision =
     \<lparr>tr_id = ''v'', tr_task = ''t'', tr_version = 2, tr_base_version = 1, tr_status = ''pending_ack'',
      tr_author = ''human:h'', tr_reason = ''why'',
      tr_before = \<lparr>ts_title = ''a'', ts_description = [], ts_goal = [], ts_scope = [], ts_criteria = []\<rparr>,
      tr_after = \<lparr>ts_title = ''b'', ts_description = [], ts_goal = [], ts_scope = [], ts_criteria = []\<rparr>,
      tr_context_before = None, tr_context_after = None, tr_ack_run = None, tr_ack_agent = None,
      tr_ack_impact = None, tr_ack_plan = None, tr_created_at = 0, tr_resolved_at = None\<rparr>"

theorem pending_revision_blocks_witness:
  "\<exists>e. complete_run example_external ''xe'' ''e'' (JObj []) ''co'' 1 (example_run_store\<lparr>revisions := [example_revision]\<rparr>)
     = (Inl e, example_run_store\<lparr>revisions := [example_revision]\<rparr>)"
proof -
  let ?s = "example_run_store\<lparr>revisions := [example_revision]\<rparr>"
  have "pending_revision (r_task (hd (runs ?s))) ?s" "find_run ''xe'' ?s = Some (hd (runs ?s))"
    by (simp_all add: pending_revision_def example_revision_def example_run_store_def find_run_def example_defs)
  from pending_revision_blocks [OF this] show ?thesis by blast
qed

text \<open>
  C5. A claim gives a role of an open task to one agent: no other assignment of the role is
  active, the gate of an executor's task is open, and the new assignment holds a lease of the
  requested length, at least 30 seconds; an executor that claims for itself starts in the
  context review with an empty intake.
\<close>

theorem claim_gives_the_role:
  assumes "claim_task_tx x task agent role n intake fresh now s = Inr (a, s')"
  shows "a_id a = fresh \<and> a_task a = task \<and> a_agent a = agent \<and> a_role a = role \<and> a_status a = ''active''
    \<and> a_expires_at a = now + 1000000000 * max n 30
    \<and> assignments s' = assignments s @ [a]
    \<and> (\<forall>b \<in> set (assignments s). a_task b = task \<and> a_role b = role \<longrightarrow> a_status b \<noteq> ''active'')
    \<and> (\<exists>t. find_task task s = Some t \<and> t_state t \<notin> {''done'', ''cancelled''})
    \<and> (role = ''executor'' \<longrightarrow> enforce_gate_conn (x_pointer x) task s = Inr ())
    \<and> (intake \<and> role = ''executor'' \<longrightarrow> a_phase a = context_review
         \<and> (\<exists>n. find_intake fresh s' = Some n \<and> in_task n = task \<and> \<not> interview_agreed n))"
proof -
  let ?a = "\<lparr>a_id = fresh, a_task = task, a_role = role, a_agent = agent, a_status = ''active'',
      a_phase = (if intake \<and> role = ''executor'' then context_review else implementing),
      a_acquired_at = now, a_expires_at = lease_end now n, a_renewed_at = now,
      a_released_at = None, a_release_reason = None\<rparr>"
  from assms obtain s1 s2 where
    gate: "(if role = ''executor'' then enforce_gate_conn (x_pointer x) task s else Inr ()) = Inr ()"
    and insert: "(case find_task task s of
          None \<Rightarrow> Inl (NotFound (''task '' @ task))
        | Some t \<Rightarrow>
            if t_state t = ''done'' \<or> t_state t = ''cancelled''
            then Inl (Conflict (''task is '' @ t_state t))
            else (case insert_assignment ?a s of
                Inl UniqueViolation \<Rightarrow>
                  Inl (Conflict (''task role '' @ [CHR 0x27] @ role @ [CHR 0x27] @ '' already has an active assignment''))
              | Inl e \<Rightarrow> Inl (storage e)
              | Inr s' \<Rightarrow> Inr s')) = Inr s1"
    and intake: "(if intake \<and> role = ''executor'' then create_assignment_intake_tx fresh task agent now s1 else Inr s1) = Inr s2"
    and a: "a = ?a" and s': "assignments s' = assignments s2" "intakes s' = intakes s2"
    unfolding claim_task_tx_def res_simps Let_def
    by (elim exE conjE) (rule that, simp, assumption, assumption, simp, auto simp: table_defs)
  from insert obtain t where t: "find_task task s = Some t" "t_state t \<notin> {''done'', ''cancelled''}"
    and "insert_assignment ?a s = Inr s1"
    by (auto split: option.splits if_splits sum.splits sql_error.splits)
  then have s1: "s1 = s\<lparr>assignments := assignments s @ [?a]\<rparr>"
    and alone: "\<not> list_ex (\<lambda>b. a_task b = task \<and> a_role b = role \<and> a_status b = ''active'') (assignments s)"
    by (simp_all add: insert_assignment_Inr)
  have "assignments s2 = assignments s1"
    using intake by (auto simp: create_assignment_intake_tx_def Let_def split: if_splits)
  moreover have "\<exists>n. find_intake fresh s2 = Some n \<and> in_task n = task \<and> \<not> interview_agreed n"
    if "intake \<and> role = ''executor''"
    using intake that
    by (auto simp: create_assignment_intake_tx_def Let_def find_intake_def find_append interview_agreed_def
        find_None_list_ex [symmetric] split: if_splits option.splits)
  ultimately show ?thesis
    using a s' s1 alone t gate
    by (auto simp: lease_end_def seconds_def find_intake_def list_ex_iff max.commute)
qed

text \<open>
  A renewal keeps the assignment of its owner alive: the lease was live, and it now ends the
  requested time after the renewal, at least 30 seconds later. Nothing else moves but its row
  and the event log.
\<close>

theorem renew_extends_lease:
  assumes "renew_assignment i actor n now s = (Inr b, s')"
  shows "\<exists>a. find_assignment i s = Some a \<and> a_agent a = actor \<and> a_status a = ''active'' \<and> now < a_expires_at a
    \<and> b = a\<lparr>a_renewed_at := now, a_expires_at := now + 1000000000 * max n 30\<rparr>
    \<and> now < a_expires_at b
    \<and> s' = s\<lparr>assignments := assignments s', events := events s'\<rparr>
    \<and> filter (\<lambda>c. a_id c \<noteq> i) (assignments s') = filter (\<lambda>c. a_id c \<noteq> i) (assignments s)"
proof -
  let ?P = "\<lambda>b. a_id b = i \<and> a_status b = ''active''"
  let ?f = "\<lambda>b. b\<lparr>a_renewed_at := now, a_expires_at := lease_end now n\<rparr>"
  from assms have tx: "renew_assignment_tx i actor n now s = Inr ((), s')" and b: "find_assignment i s' = Some b"
    by (auto simp: renew_assignment_def commit_then_def get_assignment_def res_simps split: sum.splits)
  from tx obtain a ev where a: "find_assignment i s = Some a" "a_agent a = actor" "a_status a = ''active''"
    "\<not> a_expires_at a \<le> now"
    and s': "s' = s\<lparr>assignments := update_where ?P ?f (assignments s), events := ev\<rparr>"
    by (auto simp: renew_assignment_tx_def res_simps Let_def table_defs)
  have "find_assignment i s' = map_option (\<lambda>r. if ?P r then ?f r else r) (find_assignment i s)"
    unfolding s' find_assignment_def by (simp add: find_update_where [where k = a_id])
  with a b find_assignment_SomeD [OF a(1)] have "b = ?f a" by simp
  moreover have "filter (\<lambda>c. a_id c \<noteq> i) (update_where ?P ?f rows) = filter (\<lambda>c. a_id c \<noteq> i) rows" for rows
    by (induction rows) auto
  ultimately show ?thesis
    using a lease_end_later [of now n] by (auto simp: s' lease_end_def seconds_def)
qed

definition expired_at :: "time \<Rightarrow> assignment \<Rightarrow> assignment" where
  "expired_at now b = b\<lparr>a_status := ''expired'', a_released_at := Some now, a_release_reason := Some ''lease_expired''\<rparr>"

lemma expire_one_rows:
  assumes "distinct (map a_id (assignments s))" "a \<in> set (assignments s)" "a_status a = ''active''"
  shows "fst (expire_one now a (c, s)) = c + 1"
    and "assignments (snd (expire_one now a (c, s)))
      = map (\<lambda>b. if a_id b = a_id a then expired_at now b else b) (assignments s)"
    and "runs (snd (expire_one now a (c, s))) = runs s"
proof -
  have one: "rows_affected (\<lambda>b. a_id b = a_id a \<and> a_status b = ''active'') (assignments s) = 1"
    using one_row [of a_id "assignments s" a "\<lambda>b. a_status b = ''active''"] assms by simp
  have "b = a" if "b \<in> set (assignments s)" "a_id b = a_id a" for b
    using that assms(1,2) by (auto dest: distinct_map_inj)
  with assms(3) have "map (\<lambda>b. if a_id b = a_id a \<and> a_status b = ''active'' then expired_at now b else b) (assignments s)
      = map (\<lambda>b. if a_id b = a_id a then expired_at now b else b) (assignments s)"
    by auto
  then show "assignments (snd (expire_one now a (c, s)))
      = map (\<lambda>b. if a_id b = a_id a then expired_at now b else b) (assignments s)"
    by (simp add: expire_one_def Let_def update_assignments_def update_where_def flip: expired_at_def)
  show "fst (expire_one now a (c, s)) = c + 1" "runs (snd (expire_one now a (c, s))) = runs s"
    using one by (simp_all add: expire_one_def Let_def update_assignments_def)
qed

lemma expire_fold_rows:
  assumes "distinct (map a_id (assignments s))" "distinct (map a_id as)"
    "set as \<subseteq> set (assignments s)" "\<forall>a \<in> set as. a_status a = ''active''"
  shows "fst (fold (expire_one now) as (c, s)) = c + length as
    \<and> assignments (snd (fold (expire_one now) as (c, s)))
      = map (\<lambda>b. if a_id b \<in> a_id ` set as then expired_at now b else b) (assignments s)
    \<and> runs (snd (fold (expire_one now) as (c, s))) = runs s"
  using assms
proof (induction as arbitrary: c s)
  case Nil
  then show ?case by simp
next
  case (Cons a as)
  have a: "a \<in> set (assignments s)" "a_status a = ''active''" using Cons.prems by simp_all
  note one = expire_one_rows [OF Cons.prems(1) a, of now c]
  obtain s1 where pair: "expire_one now a (c, s) = (c + 1, s1)" using one(1) by (metis prod.collapse)
  have rows: "assignments s1 = map (\<lambda>b. if a_id b = a_id a then expired_at now b else b) (assignments s)"
    "runs s1 = runs s" using one(2,3) by (simp_all add: pair)
  have id: "a_id (expired_at now b) = a_id b" for b by (simp add: expired_at_def)
  have twice: "expired_at now (expired_at now b) = expired_at now b" for b by (simp add: expired_at_def)
  have ids: "map a_id (assignments s1) = map a_id (assignments s)" by (simp add: rows id)
  have sub: "set as \<subseteq> set (assignments s1)"
  proof
    fix b assume b: "b \<in> set as"
    with Cons.prems(2) have "a_id b \<noteq> a_id a" by (metis distinct.simps(2) image_eqI list.set_map list.simps(9))
    with b Cons.prems(3) show "b \<in> set (assignments s1)" by (auto simp: rows image_iff)
  qed
  have "distinct (map a_id (assignments s1))" "distinct (map a_id as)" "\<forall>a \<in> set as. a_status a = ''active''"
    using ids Cons.prems by simp_all
  note ih = Cons.IH [OF this(1,2) sub this(3), of "c + 1"]
  have "map (\<lambda>b. if a_id b \<in> a_id ` set as then expired_at now b else b) (assignments s1)
      = map (\<lambda>b. if a_id b \<in> a_id ` set (a # as) then expired_at now b else b) (assignments s)"
    by (simp add: rows id twice)
  with ih show ?case by (simp add: pair rows(2))
qed

text \<open>
  C18. One pass of the lease manager expires every stale assignment, counts them, and leaves no
  stale assignment behind.
\<close>

theorem expire_leaves_no_stale:
  assumes "distinct (map a_id (assignments s))"
  shows "fst (expire_stale_assignments now s) = Inr (length (filter (stale_assignment now s) (assignments s)))
    \<and> filter (stale_assignment now (snd (expire_stale_assignments now s)))
        (assignments (snd (expire_stale_assignments now s))) = []"
proof -
  let ?as = "filter (stale_assignment now s) (assignments s)"
  let ?p = "fold (expire_one now) ?as (0, s)"
  have op: "expire_stale_assignments now s = (Inr (fst ?p), snd ?p)"
    by (simp add: expire_stale_assignments_def expire_stale_assignments_tx_def commit_def commit_then_def
        split: prod.split)
  have "distinct (map a_id ?as)" "set ?as \<subseteq> set (assignments s)" "\<forall>a \<in> set ?as. a_status a = ''active''"
    using assms by (auto simp: distinct_map_filter stale_assignment_def)
  note rows = expire_fold_rows [OF assms this, of now 0]
  have "\<not> stale_assignment now (snd ?p) b" if "b \<in> set (assignments (snd ?p))" for b
  proof -
    from that rows obtain c where c: "c \<in> set (assignments s)"
      "b = (if a_id c \<in> a_id ` set ?as then expired_at now c else c)" by auto
    show ?thesis
    proof (cases "a_id c \<in> a_id ` set ?as")
      case True
      with c show ?thesis by (simp add: stale_assignment_def expired_at_def)
    next
      case False
      with c have "\<not> stale_assignment now s c" by auto
      with False c rows show ?thesis by (simp add: stale_assignment_def)
    qed
  qed
  with rows show ?thesis by (simp add: op filter_empty_conv)
qed

text \<open>
  Recovery revives only the lapsed lease of the same executor on a task still in progress,
  for a run of that very assignment, and never beside another active executor.
\<close>

theorem recover_only_lapsed:
  assumes "recover_assignment_tx i run actor n reason now s = Inr (u, s')"
  shows "\<exists>a r t. find_assignment i s = Some a \<and> a_agent a = actor \<and> a_role a = ''executor''
    \<and> (a_status a = ''active'' \<and> a_expires_at a \<le> now
       \<or> a_status a = ''expired'' \<and> a_release_reason a = Some ''lease_expired'')
    \<and> find_run run s = Some r \<and> r_assignment r = i \<and> r_status r \<in> {''running'', ''paused''}
    \<and> find_task (a_task a) s = Some t \<and> t_state t = ''in_progress''
    \<and> (\<forall>b \<in> set (assignments s). a_task b = a_task a \<and> a_role b = ''executor'' \<and> a_id b \<noteq> i
         \<longrightarrow> a_status b \<noteq> ''active'')
    \<and> find_assignment i s' = Some (a\<lparr>a_status := ''active'', a_renewed_at := now,
         a_expires_at := lease_end now n, a_released_at := None, a_release_reason := None\<rparr>)"
proof -
  let ?stale = "\<lambda>a b. a_id b = a_id a \<and> (a_status b = ''expired'' \<or> a_status b = ''active'' \<and> a_expires_at b \<le> now)"
  let ?f = "\<lambda>b. b\<lparr>a_status := ''active'', a_renewed_at := now, a_expires_at := lease_end now n,
        a_released_at := None, a_release_reason := None\<rparr>"
  from assms obtain a t r where a: "find_assignment i s = Some a" "a_agent a = actor" "a_role a = ''executor''"
      "recoverable a now = Inr ()"
    and t: "find_task (a_task a) s = Some t" "t_state t = ''in_progress''"
    and alone: "\<not> list_ex (\<lambda>b. a_task b = a_task a \<and> a_role b = ''executor''
           \<and> a_status b = ''active'' \<and> a_id b \<noteq> a_id a) (assignments s)"
    and r: "find_run run s = Some r"
      "\<not> (r_assignment r \<noteq> a_id a \<or> r_task r \<noteq> a_task a \<or> r_agent r \<noteq> actor)"
      "r_status r = ''running'' \<or> r_status r = ''paused''"
    and s': "assignments s' = update_where (?stale a) ?f (assignments s)"
    unfolding recover_assignment_tx_def res_simps Let_def
    by (elim exE conjE) (rule that, assumption+, auto simp: table_defs)
  have id: "a_id a = i" using find_assignment_SomeD [OF a(1)] by simp
  have lapsed: "a_status a = ''active'' \<and> a_expires_at a \<le> now
       \<or> a_status a = ''expired'' \<and> a_release_reason a = Some ''lease_expired''"
    using a(4) by (auto simp: recoverable_def res_simps split: if_splits)
  have "find_assignment i s' = map_option (\<lambda>b. if ?stale a b then ?f b else b) (find_assignment i s)"
    unfolding s' find_assignment_def by (simp add: find_update_where [where k = a_id])
  also have "\<dots> = Some (?f a)" using a(1) lapsed by auto
  finally have found: "find_assignment i s' = Some (?f a)" .
  have "\<forall>b \<in> set (assignments s). a_task b = a_task a \<and> a_role b = ''executor'' \<and> a_id b \<noteq> i
         \<longrightarrow> a_status b \<noteq> ''active''"
    using alone id by (auto simp: list_ex_iff)
  with a t r lapsed found id show ?thesis by blast
qed


text \<open>
  A run starts only under a live assignment of its agent that has no other live run; an
  executor's run needs an open gate and either an assignment that is implementing or one that
  is \<open>ready\<close> with a current and agreed intake, which it moves to \<open>implementing\<close>.
\<close>

theorem start_run_needs_intake:
  assumes "start_run x i actor conversation fresh now s = (Inr v, s')"
  shows "\<exists>a. find_assignment i s = Some a \<and> a_agent a = actor \<and> a_status a = ''active'' \<and> now < a_expires_at a
    \<and> (\<forall>r \<in> set (runs s). r_assignment r = i \<longrightarrow> \<not> live r)
    \<and> runs s' = runs s @ [v_run v] \<and> r_status (v_run v) = ''running'' \<and> r_assignment (v_run v) = i
    \<and> (a_role a = ''executor'' \<longrightarrow> enforce_gate_conn (x_pointer x) (a_task a) s = Inr ()
        \<and> (a_phase a = implementing
           \<or> a_phase a = ready_phase
             \<and> (\<exists>n. load_intake_tx i s = Inr n \<and> intake_current x a n s \<and> interview_agreed n)))"
proof -
  from assms obtain a s1 where a: "find_assignment i s = Some a" "a_status a = ''active''" "\<not> a_expires_at a \<le> now"
    and gate: "(if a_role a = ''executor'' then enforce_gate_conn (x_pointer x) (a_task a) s else Inr ()) = Inr ()"
    and owner: "a_agent a = actor"
    and idle: "\<not> list_ex (\<lambda>r. r_assignment r = i \<and> r_status r \<in> live_statuses) (runs s)"
    and phase: "enforce_execution_phase_tx x a s = Inr s1"
    and run: "runs s' = runs s1 @ [v_run v]" "r_status (v_run v) = ''running''" "r_assignment (v_run v) = i"
    unfolding start_run_def commit_Inr_iff start_run_tx_def res_simps Let_def de_Morgan_disj not_not if_True
    by (elim exE conjE) (rule that, assumption+, auto simp: insert_run_Inr insert_run_context_def append_event_tx_def res_simps split: option.splits if_splits)
  have "a_role a = ''executor'' \<longrightarrow> a_phase a = implementing
           \<or> a_phase a = ready_phase
             \<and> (\<exists>n. load_intake_tx i s = Inr n \<and> intake_current x a n s \<and> interview_agreed n)"
    using phase find_assignment_SomeD [OF a(1)]
    by (auto simp: enforce_execution_phase_tx_def res_simps simp flip: execution_blockers_none split: if_splits)
  moreover have "runs s1 = runs s"
    using phase by (auto simp: enforce_execution_phase_tx_def res_simps update_assignments_def split: if_splits)
  ultimately show ?thesis
    using a gate owner idle run by (auto simp: list_ex_iff live_def)
qed

definition example_open_store :: db where
  "example_open_store = empty_db\<lparr>tasks := [example_task ''t'' ''ready''], agents := [example_agent ''e'']\<rparr>"

theorem claim_gives_the_role_witness:
  "\<exists>a s'. claim_task_tx example_external ''t'' ''e'' ''executor'' 5 True ''a'' 0 example_open_store = Inr (a, s')
     \<and> a_expires_at a = 30000000000 \<and> a_phase a = context_review"
proof -
  have "\<not> isl (claim_task_tx example_external ''t'' ''e'' ''executor'' 5 True ''a'' 0 example_open_store)"
    by code_simp
  then obtain a s' where tx: "claim_task_tx example_external ''t'' ''e'' ''executor'' 5 True ''a'' 0 example_open_store = Inr (a, s')"
    using right_result by fastforce
  from claim_gives_the_role [OF tx] tx show ?thesis by auto
qed

theorem renew_extends_lease_witness:
  "\<exists>b s'. renew_assignment ''ae'' ''e'' 60 1 example_run_store = (Inr b, s') \<and> a_expires_at b = 60000000001"
proof -
  have "\<not> isl (fst (renew_assignment ''ae'' ''e'' 60 1 example_run_store))" by code_simp
  from right_operation [OF this] obtain b s' where op: "renew_assignment ''ae'' ''e'' 60 1 example_run_store = (Inr b, s')"
    by blast
  from renew_extends_lease [OF op] op show ?thesis by auto
qed

theorem expire_leaves_no_stale_witness:
  "fst (expire_stale_assignments 10 example_run_store) = Inr 1"
proof -
  have "distinct (map a_id (assignments example_run_store))" by (simp add: example_run_store_def example_defs)
  from expire_leaves_no_stale [OF this, of 10] show ?thesis
    by (simp add: example_run_store_def example_defs stale_assignment_def)
qed

theorem recover_only_lapsed_witness:
  "\<exists>s'. recover_assignment_tx ''ae'' ''xe'' ''e'' 60 ''back'' 20 example_run_store = Inr ((), s')
     \<and> (\<exists>a. find_assignment ''ae'' s' = Some a \<and> a_status a = ''active'')"
proof -
  have "\<not> isl (recover_assignment_tx ''ae'' ''xe'' ''e'' 60 ''back'' 20 example_run_store)" by code_simp
  from right_result [OF this] obtain s' where
    tx: "recover_assignment_tx ''ae'' ''xe'' ''e'' 60 ''back'' 20 example_run_store = Inr ((), s')" by auto
  from recover_only_lapsed [OF tx] tx show ?thesis by auto
qed


theorem start_run_needs_intake_witness:
  "\<exists>v s'. start_run example_external ''a'' ''g'' None ''x'' 1 example_intake_store = (Inr v, s')
     \<and> (\<exists>n. load_intake_tx ''a'' example_intake_store = Inr n \<and> interview_agreed n)"
proof -
  have "\<not> isl (fst (start_run example_external ''a'' ''g'' None ''x'' 1 example_intake_store))" by code_simp
  from right_operation [OF this] obtain v s' where
    op: "start_run example_external ''a'' ''g'' None ''x'' 1 example_intake_store = (Inr v, s')" by blast
  from start_run_needs_intake [OF op] op show ?thesis
    by (auto simp: find_assignment_def example_intake_store_def example_defs phase_defs)
qed

subsection \<open>Contexts and revisions\<close>

text \<open>
  Every write of a context appends one revision to the history of its task, numbered next
  and naming the previous one as its parent; it becomes the current context of the task, and the
  histories of other tasks stay as they are.
\<close>

theorem context_write_extends_history:
  assumes "contexts_ok s" "write_context_revision x task write fresh now s = (Inr c, s')"
  shows "contexts_ok s' \<and> history task s' = history task s @ [c] \<and> cx_id c = fresh
    \<and> cx_version c = int (length (history task s)) + 1
    \<and> cx_parent c = (if history task s = [] then None else Some (cx_id (last (history task s))))
    \<and> (\<forall>t \<in> set (tasks s'). t_id t = task \<longrightarrow> t_context t = Some fresh)
    \<and> (other \<noteq> task \<longrightarrow> history other s' = history other s)"
proof -
  from assms(2) have tx: "write_context_revision_tx x task write fresh now s = Inr ((), s')"
    and c: "find (\<lambda>d. cx_id d = fresh) (contexts s') = Some c"
    by (auto simp: write_context_revision_def checked_Inr_iff commit_then_Inr get_context_revision_def res_simps)
  from write_context_appends [OF tx] obtain d where d: "contexts s' = contexts s @ [d]" "cx_id d = fresh" "cx_task d = task"
    "fresh \<notin> cx_id ` set (contexts s)"
    "cx_parent d = map_option cx_id (latest_context task s)" by blast
  have "find (\<lambda>d. cx_id d = fresh) (contexts s) = None" using d(4) by (auto simp: find_None_iff)
  with c d have "c = d" by (simp add: find_append)
  note ok = contexts_ok_write [OF assms(1) tx]
  have h: "history task s' = history task s @ [d]" "other \<noteq> task \<Longrightarrow> history other s' = history other s"
    using d by (simp_all add: history_def)
  from ok have "linked 1 None (history task s @ [d])" unfolding h(1) [symmetric] by (simp add: contexts_ok_def)
  then have v: "cx_version d = int (length (history task s)) + 1"
    "cx_parent d = (if history task s = [] then None else Some (cx_id (last (history task s))))"
    by (simp_all add: linked_append)
  have "\<forall>t \<in> set (tasks s'). t_id t = task \<longrightarrow> t_context t = Some fresh"
  proof -
    from tx obtain rows where rows: "tasks s' = update_where (\<lambda>t. t_id t = task)
        (\<lambda>t. t\<lparr>t_context := Some fresh, t_updated_at := now\<rparr>) rows"
      by (auto simp: write_context_revision_tx_def res_simps Let_def update_tasks_def)
    show ?thesis unfolding rows by (rule all_update_where) simp
  qed
  with ok h v d(2) \<open>c = d\<close> show ?thesis by simp
qed

theorem context_write_extends_history_witness:
  "\<exists>c s'. write_context_revision example_external ''t''
      (Replace \<lparr>ci_goal = ''g'', ci_background = [], ci_constraints = JObj [], ci_summary = [], ci_actor = ''human:h''\<rparr>)
      ''c1'' 0 example_run_store = (Inr c, s') \<and> cx_version c = 1 \<and> history ''t'' s' = [c]"
proof -
  let ?w = "Replace \<lparr>ci_goal = ''g'', ci_background = [], ci_constraints = JObj [], ci_summary = [], ci_actor = ''human:h''\<rparr>"
  have "\<not> isl (fst (write_context_revision example_external ''t'' ?w ''c1'' 0 example_run_store))" by code_simp
  from right_operation [OF this] obtain c s' where
    op: "write_context_revision example_external ''t'' ?w ''c1'' 0 example_run_store = (Inr c, s')" by blast
  have h: "history ''t'' example_run_store = []" "contexts_ok example_run_store"
    by (simp_all add: history_def contexts_ok_def example_run_store_def example_defs)
  from context_write_extends_history [OF h(2) op] op h(1) show ?thesis by auto
qed

text \<open>
  A partial update that names the revision it is based on is refused, with the store as it
  was, when another revision has been written since.
\<close>

theorem stale_update_is_refused:
  assumes "get_task task s = Inr k" "up_expected p = Some e" "map_option cx_id (latest_context task s) \<noteq> Some e"
    and "up_goal p \<noteq> None \<or> up_background p \<noteq> None \<or> up_summary p \<noteq> None \<or> up_constraints p \<notin> {None, Some []}"
  shows "update_context_revision x task p fresh now s
    = (Inl (Conflict ''context changed; read memory_get and retry with the current revision ID''), s)"
proof -
  have "write_context_revision_tx x task (Patch p) fresh now s
      = Inl (Conflict ''context changed; read memory_get and retry with the current revision ID'')"
    using assms(2) not_sym [OF assms(3)] by (simp add: write_context_revision_tx_def context_of_write_def Let_def ensure_def)
  then show ?thesis
    using assms(1,4)
    by (auto simp: update_context_revision_def checked_def ensure_def write_context_revision_def commit_then_def
        split: option.splits)
qed

definition example_patch :: context_patch where
  "example_patch = \<lparr>up_goal = Some ''g'', up_background = None, up_constraints = None, up_summary = None,
     up_expected = Some ''old'', up_actor = ''agent:e''\<rparr>"

theorem stale_update_is_refused_witness:
  "snd (update_context_revision example_external ''t'' example_patch ''c1'' 0 example_run_store) = example_run_store"
proof -
  have "get_task ''t'' example_run_store = Inr \<lparr>k_row = example_task ''t'' ''in_progress'', k_state = InProgress, k_mode = Open\<rparr>"
    by (simp add: get_task_def row_lookup_defs example_run_store_def example_defs)
  from stale_update_is_refused [OF this, of example_patch "''old''"] show ?thesis
    by (simp add: example_patch_def latest_context_def example_run_store_def empty_db_def)
qed

text \<open>
  A proposal is accepted only from the publisher or an operator, against the current version
  of the specification, with no other revision pending. While the task is being worked on it
  stays pending and the task row is untouched; otherwise it is applied at once.
\<close>

theorem proposal_respects_versions:
  assumes "propose_task_revision_tx task actor draft ids now s = Inr (u, s')"
  shows "\<exists>cur after. spec_conn task s = Inr cur \<and> (actor = sv_owner cur \<or> operator_actor actor)
    \<and> sv_version cur = dr_expected_version draft \<and> sv_state cur \<notin> {Done, Cancelled}
    \<and> patched (sv_spec cur) draft = Inr after \<and> \<not> pending_revision task s
    \<and> (in_flight task s \<or> sv_state cur \<in> {InProgress, Review} \<longrightarrow> tasks s' = tasks s
        \<and> (\<exists>v \<in> set (revisions s'). tr_task v = task \<and> tr_status v = ''pending_ack'' \<and> tr_after v = after))"
proof -
  have tail: "\<exists>v \<in> set (revisions s4). tr_task v = task \<and> tr_status v = ''pending_ack'' \<and> tr_after v = after"
    "tasks s4 = tasks s"
    if 1: "baseline_tx task (fi_baseline ids) now s = Inr s1"
      and 2: "insert_revision w s1 = Inr s2" "tr_task w = task" "tr_status w = ''pending_ack''" "tr_after w = after"
      and 3: "(case last_executor task (append_event_tx a b c d e f g now s2) of
          None \<Rightarrow> Inr (append_event_tx a b c d e f g now s2)
        | Some y \<Rightarrow> notify_executor task (a_agent y) version reason ids now (append_event_tx a b c d e f g now s2)) = Inr s4"
    for s1 s2 s4 w a b c d e f g version reason after
  proof -
    have "revisions s4 = revisions s2" "tasks s4 = tasks s2"
      using 3 notify_executor_tables by (auto simp: append_event_tx_def split: option.splits)
    then show "\<exists>v \<in> set (revisions s4). tr_task v = task \<and> tr_status v = ''pending_ack'' \<and> tr_after v = after"
      "tasks s4 = tasks s"
      using 2 insert_revision_Inr [OF 2(1)] baseline_tables [OF 1] by auto
  qed
  from assms obtain cur after s1 s2 s3 s4 version where
    cur: "spec_conn task s = Inr cur" "\<not> (actor \<noteq> sv_owner cur \<and> \<not> operator_actor actor)"
      "\<not> (sv_state cur = Done \<or> sv_state cur = Cancelled)" "sv_version cur = dr_expected_version draft"
      "\<not> pending_revision task s" "patched (sv_spec cur) draft = Inr after"
    and b: "baseline_tx task (fi_baseline ids) now s = Inr s1"
    and i: "insert_revision \<lparr>tr_id = fi_revision ids, tr_task = task, tr_version = version, tr_base_version = sv_version cur,
        tr_status = ''pending_ack'', tr_author = actor, tr_reason = trim (dr_reason draft),
        tr_before = sv_spec cur, tr_after = after, tr_context_before = sv_context cur,
        tr_context_after = None, tr_ack_run = None, tr_ack_agent = None, tr_ack_impact = None,
        tr_ack_plan = None, tr_created_at = now, tr_resolved_at = None\<rparr> s1 = Inr s2"
    and r: "(in_flight task s1 \<or> sv_state cur = InProgress \<or> sv_state cur = Review) \<Longrightarrow>
      \<exists>v \<in> set (revisions s'). tr_task v = task \<and> tr_status v = ''pending_ack'' \<and> tr_after v = after"
      "(in_flight task s1 \<or> sv_state cur = InProgress \<or> sv_state cur = Review) \<Longrightarrow> tasks s' = tasks s"
    unfolding propose_task_revision_tx_def res_simps Let_def
    by (elim exE conjE) (drule Inr_inject, elim Pair_inject, hypsubst, rule that, assumption+,
      (simp only: if_True, erule tail, assumption, simp, simp, simp, assumption)+)
  have "in_flight task s1 = in_flight task s" using baseline_tables [OF b] by (simp add: in_flight_def)
  with cur r show ?thesis by auto
qed

definition example_draft :: revision_draft where
  "example_draft = \<lparr>dr_expected_version = 1, dr_reason = ''good'', dr_title = Some ''good'', dr_description = None,
     dr_goal = None, dr_scope = None, dr_criteria = None\<rparr>"

definition example_ids :: revision_ids where
  "example_ids = \<lparr>fi_baseline = ''i1'', fi_revision = ''i2'', fi_context = ''i3'', fi_thread = ''i4'',
     fi_message = ''i5'', fi_delivery = ''i6''\<rparr>"

definition example_unassigned_store :: db where
  "example_unassigned_store = empty_db\<lparr>tasks := [example_task ''t'' ''in_progress'']\<rparr>"

theorem proposal_respects_versions_witness:
  "\<exists>s'. propose_task_revision_tx ''t'' ''human:h'' example_draft example_ids 1 example_unassigned_store = Inr ((), s')
     \<and> (\<exists>v \<in> set (revisions s'). tr_task v = ''t'' \<and> tr_status v = ''pending_ack'')"
proof -
  have "\<not> isl (propose_task_revision_tx ''t'' ''human:h'' example_draft example_ids 1 example_unassigned_store)"
    by (simp add: propose_task_revision_tx_def spec_conn_def get_task_def row_lookup_defs example_unassigned_store_def
        example_defs operator_actor_def starts_with_def pending_revision_def patched_def example_draft_def
        example_ids_def or_else_def Let_def baseline_tx_def insert_revision_def next_version_def last_executor_def
        append_event_tx_def)
  from right_result [OF this] obtain s' where
    tx: "propose_task_revision_tx ''t'' ''human:h'' example_draft example_ids 1 example_unassigned_store = Inr ((), s')" by auto
  have "spec_conn ''t'' example_unassigned_store = Inr cur \<Longrightarrow> sv_state cur = InProgress" for cur
    by (auto simp: spec_conn_def get_task_def row_lookup_defs example_unassigned_store_def example_defs Let_def)
  with proposal_respects_versions [OF tx] tx show ?thesis by blast
qed




lemma empty_no_tasks: "no_tasks empty_db"
  by (simp add: no_tasks_def empty_db_def)


lemma distinct_filter_eq:
  "distinct (map k (filter Q xs)) \<Longrightarrow> a \<in> set xs \<Longrightarrow> b \<in> set xs \<Longrightarrow> Q a \<Longrightarrow> Q b \<Longrightarrow> k a = k b \<Longrightarrow> a = b"
  using distinct_map_inj [of k "filter Q xs" a b] by simp


text \<open>Two agents claim a new task one after the other.\<close>

definition example_new_task :: create_task_input where
  "example_new_task = \<lparr>ct_criteria = [], ct_project = None, ct_title = ''T'', ct_description = '''',
     ct_owner = ''human:h'', ct_state = Ready, ct_priority = 0\<rparr>"

definition example_race :: db where
  "example_race =
     (let s0 = empty_db\<lparr>agents := [example_agent ''e'', example_agent ''f'']\<rparr>;
          s1 = snd (create_task example_new_task ''t'' ''v'' 0 s0);
          s2 = snd (claim_task example_external ''t'' ''e'' ''executor'' 60 ''a'' 1 s1)
      in snd (claim_task example_external ''t'' ''f'' ''executor'' 60 ''b'' 2 s2))"

lemma example_race_reachable:
  "(step example_external)\<^sup>*\<^sup>* (empty_db\<lparr>agents := [example_agent ''e'', example_agent ''f'']\<rparr>) example_race"
  unfolding example_race_def Let_def
  by (rule rtranclp.rtrancl_into_rtrancl [OF rtranclp.rtrancl_into_rtrancl
        [OF r_into_rtranclp [of "step example_external", OF step.create_task] step.claim_task] step.claim_task])






subsection \<open>Observations\<close>

text \<open>
  The guard of \<open>set_task_project_as_agent\<close> asks for a memory of scope \<open>project\<close> that names the
  task; the table's \<open>CHECK\<close> (\<open>migrations/0016_memory_entries.sql\<close>) excludes such rows. So the
  memories published from a task never keep its publisher from moving it: a move succeeds exactly
  when the other conditions hold.
\<close>

theorem project_memory_guard_never_fires:
  assumes "\<forall>m \<in> set (memories s). me_scope m = ''project'' \<longrightarrow> me_task m = None"
  shows "(\<exists>u s'. set_task_project_as_agent_tx task project agent now s = Inr (u, s')) \<longleftrightarrow>
    (\<exists>k. task_writer_conn task agent s = Inr k \<and> t_owner (k_row k) = ''agent:'' @ agent
       \<and> (t_project (k_row k) = project
          \<or> (\<forall>a \<in> set (assignments s). a_task a = task \<and> a_status a = ''active'' \<and> a_role a = ''executor''
                \<longrightarrow> a_phase a \<noteq> implementing)
            \<and> ensure_project project s = Inr ()))"
proof -
  have "\<not> published_project_memory task s"
    using assms by (auto simp: published_project_memory_def list_ex_iff)
  then show ?thesis
    unfolding set_task_project_as_agent_tx_def
    by (cases "task_writer_conn task agent s"; cases "ensure_project project s")
      (auto simp: bind_res_def ensure_def list_ex_iff)
qed

definition example_published_store :: db where
  "example_published_store = empty_db\<lparr>
     tasks := [(example_task ''t'' ''ready'')\<lparr>t_owner := ''agent:p'', t_project := Some ''q''\<rparr>],
     agents := [example_agent ''p''],
     memories := [\<lparr>me_id = ''m'', me_scope = ''project'', me_project = Some ''q'', me_agent = None,
       me_task = None, me_visibility = ''project'', me_supersedes = None\<rparr>]\<rparr>"

theorem project_memory_guard_never_fires_witness:
  "\<exists>u s'. set_task_project_as_agent_tx ''t'' None ''p'' 1 example_published_store = Inr (u, s')"
proof -
  have "\<forall>m \<in> set (memories example_published_store). me_scope m = ''project'' \<longrightarrow> me_task m = None"
    by (simp add: example_published_store_def)
  from project_memory_guard_never_fires [OF this, of "''t''" None "''p''" 1] show ?thesis
    by (simp add: example_published_store_def example_defs task_writer_conn_def row_lookup_defs ensure_project_def)
qed

definition example_preview_store :: db where
  "example_preview_store = empty_db\<lparr>
     tasks := [example_task ''t'' ''ready''], agents := [example_agent ''r''],
     assignments := [example_assignment ''ar'' ''t'' ''reviewer'' ''r'' ''active'' 10],
     runs := [example_run ''xr'' ''t'' ''ar'' ''r'' ''running'']\<rparr>"

text \<open>
  \<open>preview_task_revision\<close> answers \<open>applied\<close> for a ready task under review, for which the same
  draft, submitted, stays pending: only the proposal looks at the runs in flight.
\<close>

theorem preview_ignores_runs_in_flight:
  "(\<exists>spec. preview_task_revision ''t'' example_draft example_preview_store = Inr (''applied'', spec))
   \<and> (\<exists>s'. propose_task_revision_tx ''t'' ''human:h'' example_draft example_ids 1 example_preview_store = Inr ((), s')
        \<and> pending_revision ''t'' s')"
  by (simp add: propose_task_revision_tx_def preview_task_revision_def spec_conn_def get_task_def row_lookup_defs
        example_preview_store_def example_defs operator_actor_def starts_with_def pending_revision_def patched_def
        example_draft_def example_ids_def or_else_def Let_def baseline_tx_def insert_revision_def next_version_def
        last_executor_def in_flight_def append_event_tx_def)

definition example_reopened_store :: db where
  "example_reopened_store = example_review_store\<lparr>
     tasks := [(example_task ''t'' ''done'')\<lparr>t_criteria := [example_criterion]\<rparr>],
     assignments := [example_assignment ''ae'' ''t'' ''executor'' ''e'' ''expired'' 0,
                     example_assignment ''ar'' ''t'' ''reviewer'' ''r'' ''active'' 10]\<rparr>"


end
