(* ===== verification/Spec2Isabelle.thy ===== *)
theory Spec2Isabelle
  imports Guarantees
begin

text \<open>
  Morrows is a server that lets several coding agents share a set of tasks. Its core is the
  store, the crate \<open>crates/morrows-store\<close> over the types of \<open>crates/morrows-core\<close>: every
  operation of an agent, an operator or the dispatcher is a method of \<open>Store\<close> which reads a few
  rows of an SQLite database, decides, and commits one transaction. This development models
  those types and the operations of the store that carry a task from its creation to its
  completion, and proves what makes them correct.

  \<^bold>\<open>How the model corresponds to the code.\<close>
  The database is the record \<open>db\<close> of theory \<open>Database\<close>: one field per table, each a list of rows in
  insertion order, each row a record of the columns the modelled statements use. A statement
  becomes a function of the lists: a \<open>SELECT\<close> is \<open>find\<close>, \<open>filter\<close> or \<open>list_ex\<close>, an \<open>UPDATE\<close> is
  \<open>update_where P f\<close>, whose affected rows are counted by \<open>rows_affected\<close>, and an \<open>INSERT\<close> appends a row
  unless it breaks a primary key, a unique index or a foreign key of \<open>migrations/*.sql\<close>. \<open>res\<close> is
  the code's \<open>Result<_, DomainError>\<close>. A transaction is a function \<open>db \<Rightarrow> (result \<times> db) res\<close>,
  named with the suffix \<open>_tx\<close>; \<open>commit\<close> makes of it an operation \<open>db \<Rightarrow> result res \<times> db\<close>, which on an error leaves
  the store as it was (the dropped transaction rolls back), and \<open>commit_then\<close> and \<open>checked\<close> add
  the reads the code makes after the commit and before the transaction. SQLite runs the
  transactions one after the other (\<open>BEGIN IMMEDIATE\<close>), so a sequence of operations is what concurrent
  clients can observe. Values the code takes from outside are arguments: the clock (\<open>now\<close>, in
  nanoseconds), fresh UUIDs, and in the record \<open>external\<close> of theory \<open>Intake\<close> what comes from
  libraries, \<open>serde_json\<close>'s pointer look-up and rendering, \<open>Uuid::parse_str\<close> and the Git memory
  head. The order in which a hash set is iterated is an argument of \<open>gate_conn_ordered\<close>.

  \<^bold>\<open>The theories.\<close>

  \<^item> \<open>Prelude\<close>: results, transactions, tables, life cycles of rows (the locale \<open>row_lifecycle\<close>),
    transition systems (the locale \<open>transition_system\<close>), and the lemmas that invert an operation that
    answered.
  \<^item> \<open>Json\<close> (\<open>merge_context_constraints\<close> of \<open>store/lib.rs\<close>), \<open>Criteria\<close> (\<open>core/completion.rs\<close>) and \<open>Domain\<close>
    (\<open>core/lib.rs\<close>, \<open>core/acceptance.rs\<close>, \<open>core/discovery.rs\<close>): the pure part, JSON documents and
    their merge, the completion criteria and their JSON pointers, states and modes with their
    texts, acceptance contracts, result pages.
  \<^item> \<open>Database\<close>: the tables, the constraints of their inserts and the row readers; \<open>Examples\<close> holds rows for the
    concrete instances of the theorems.
  \<^item> \<open>Gate\<close> and \<open>Chains\<close> (\<open>store/task_graph.rs\<close>, \<open>store/collaboration.rs\<close>): the gate of a task, a fixed
    point over its prerequisites, and the operations on collections, edges and dependencies with
    the recursive query that keeps the graph acyclic.
  \<^item> \<open>Intake\<close> (\<open>store/intake.rs\<close>): what an agent must read and agree before it may execute.
  \<^item> \<open>Acceptance\<close> (\<open>store/acceptance.rs\<close>) and \<open>Completion\<close> (\<open>store/completion.rs\<close>): verification receipts,
    reviews, the verdict of each criterion, and every blocker of a completion.
  \<^item> \<open>Leases\<close> (\<open>store/lib.rs\<close>): claims, runs, leases, recovery, expiry, checkpoints, completion, cancellation.
  \<^item> \<open>Delivery\<close> (\<open>store/delivery.rs\<close>): the outbox of messages for agents.
  \<^item> \<open>Tasks\<close>, \<open>Contexts\<close> (\<open>store/lib.rs\<close>) and \<open>Revisions\<close> (\<open>store/revision.rs\<close>): creation, projects, modes and deletion of
    tasks, their versioned context, and the proposals that change their specification.
  \<^item> \<open>Lifecycle\<close>, \<open>System\<close>: the life cycles of runs, assignments and deliveries, the invariant
    \<open>store_ok\<close>, and one lemma \<open>keeps_<operation>\<close> per operation of the theories above.
  \<^item> \<open>Claims\<close>: the inversion lemmas of claims and run starts that the operations built on them share.
    \<open>Takeover\<close> (\<open>store/takeover.rs\<close>): a lapsed executor role changes hands. \<open>Requests\<close>
    (\<open>store/assignment_request.rs\<close>, \<open>store/continuation.rs\<close>): requests for a role, continuation chains
    and the recovery context of a successor. \<open>Dispatch\<close> (\<open>store/dispatch.rs\<close>): policies, the ranking of the
    candidates, the scheduler pass. \<open>Rework\<close> (\<open>store/task_rework.rs\<close>): numbered rework rounds and reopening.
  \<^item> \<open>Records\<close> (\<open>store/milestone.rs\<close>, \<open>store/collaboration.rs\<close>): artifacts, decisions, milestones.
    \<open>Handoffs\<close> (\<open>store/collaboration.rs\<close>): an executor hands its run over, a successor accepts, once.
  \<^item> \<open>Runtime\<close> (\<open>store/runtime.rs\<close>): runtime bindings of runs, cancellation and cleanup. \<open>JobWaits\<close>
    (\<open>store/job_wait.rs\<close>, \<open>store/runtime.rs\<close>): waits of runs for jobs, their events, and restarts.
  \<^item> \<open>Messages\<close> (\<open>store/task_message.rs\<close>, \<open>store/collaboration.rs\<close>): threads and messages of a task, and
    the conversation of a human and an agent with its client identifiers, recalls, replies and
    deliveries, as a transition system of its own over thread and outbox.
  \<^item> \<open>Operations\<close>, \<open>Machine\<close>: one fact per operation for the invariant, and the step relation \<open>step\<close> with one
    rule per operation. Its last rule, \<open>environment\<close>, stands for every operation outside the model and
    assumes that it leaves the tables of tasks, assignments, runs, dependencies, chain members,
    contexts, revisions and deliveries alone: the invariants hold for the modelled operations.
  \<^item> \<open>Guarantees\<close>: the properties that span several components, with their instances, and the
    behaviours of the code that contradict what it means to do.

  \<^bold>\<open>What the lemmas show.\<close>
  Each component has the lemmas that invert its operations (what held when it answered, what
  the store is afterwards), its invariant and the proof that its operations keep it. The gate
  answers exactly for an acyclic graph and then says exactly whether the prerequisites are met;
  the recursive query computes the transitive closure. Completion, review, start and recovery
  succeed only under the conditions the product promises, and what is final stays final in
  every sequence of operations. The dispatcher picks an agent no other candidate beats, a takeover and
  a handoff leave exactly one agent responsible, reworks and milestones are numbered without gaps,
  and a run that waits for a job is woken whichever of wait and event comes first. A message is sent
  once, is never delivered after its recall, and keeps an executor from starting until it is answered.

  \<^bold>\<open>Termination.\<close>
  No definition uses fuel. The loop of the gate ends because every further round resolves a
  task, the recursive query because the rows it has seen are bounded by the identifiers of the
  edges, and paging because each page advances its offset; each has its measure.

  \<^bold>\<open>Not modelled.\<close>
  Launch profiles and attempts beyond the restarts of \<open>JobWaits\<close>: the launcher of \<open>store/launch.rs\<close> starts
  and ends runs too, and the invariants over sequences of operations do not speak of it. Execution
  evidence, memory, fleet registration, identity and discovery queries. Credentials, Git memory, the HTTP and MCP server and the command line client: hashing, processes, sockets and
  rendering around the operations modelled here. In the modelled operations, failures of the database itself (I/O, a row that
  cannot be decoded, a full disk) and panics of arithmetic on instants are left out, JSON is data
  rather than text, and columns that no modelled operation reads are absent.
\<close>

end
